(* ===== verification/Prelude.thy ===== *)
theory Prelude
  imports Main "HOL-Library.Char_ord" "HOL-Library.List_Lexorder" "HOL-Library.AList"
begin

text \<open>
  The ground the component theories stand on: what the Go sources use of the language and of
  its standard library (machine integers, instants, strings and their patterns, maps), and the
  generic lemmas and collections the component proofs share.

  \<^item> \<open>wrap64\<close> and \<open>wrap32\<close> write the wrap-around of Go's \<open>int64\<close> and \<open>int32\<close> out on \<open>int\<close>.
  \<^item> An instant is the number of nanoseconds since Go's zero time, so \<open>IsZero\<close> is \<open>t = 0\<close>,
    \<open>Before\<close>, \<open>After\<close> and \<open>Equal\<close> are the order on \<open>int\<close>, and \<open>UTC\<close> (which only changes the
    location a time is printed in) is the identity.
  \<^item> A string is the list of its bytes; \<open><\<close> on strings (from the library's lexicographic order)
    is Go's byte-wise comparison.
  \<^item> A Go map is an association list. Its order stands for the iteration order of the map, which
    Go leaves open: a theorem quantified over the list holds for every such order.
\<close>

section \<open>Collections of facts\<close>

named_theorems validation_defs \<open>definitions of the Validate methods\<close>
named_theorems effect_defs \<open>definitions of the operations that change a component's state\<close>

section \<open>Machine integers\<close>

definition wrap64 :: "int \<Rightarrow> int" where
  "wrap64 x = (x + 2 ^ 63) mod 2 ^ 64 - 2 ^ 63"

definition wrap32 :: "int \<Rightarrow> int" where
  "wrap32 x = (x + 2 ^ 31) mod 2 ^ 32 - 2 ^ 31"

definition int64_range :: "int \<Rightarrow> bool" where
  "int64_range x \<longleftrightarrow> - (2 ^ 63) \<le> x \<and> x < 2 ^ 63"

definition int32_range :: "int \<Rightarrow> bool" where
  "int32_range x \<longleftrightarrow> - (2 ^ 31) \<le> x \<and> x < 2 ^ 31"

lemma wrap64_id: "int64_range x \<Longrightarrow> wrap64 x = x"
  by (simp add: wrap64_def int64_range_def)

lemma wrap32_id: "int32_range x \<Longrightarrow> wrap32 x = x"
  by (simp add: wrap32_def int32_range_def)

lemma wrap64_range [simp]: "int64_range (wrap64 x)"
proof -
  have "0 \<le> (x + 2 ^ 63) mod 2 ^ 64" and "(x + 2 ^ 63) mod 2 ^ 64 < (2 ^ 64 :: int)"
    by simp_all
  then show ?thesis by (simp add: wrap64_def int64_range_def)
qed

lemma wrap64_Suc: "0 \<le> x \<Longrightarrow> x < 2 ^ 63 - 1 \<Longrightarrow> wrap64 (x + 1) = x + 1"
  by (rule wrap64_id) (simp add: int64_range_def)

lemma wrap64_pos: "0 \<le> x \<Longrightarrow> x < 2 ^ 63 \<Longrightarrow> 0 < wrap64 (x + 1) \<Longrightarrow> x + 1 < 2 ^ 63"
proof (rule ccontr)
  assume "x < 2 ^ 63" "0 < wrap64 (x + 1)" "\<not> x + 1 < 2 ^ 63"
  then have "x + 1 = 2 ^ 63" by linarith
  with \<open>0 < wrap64 (x + 1)\<close> show False by (simp only: wrap64_def) simp
qed

lemma wrap32_Suc: "0 \<le> x \<Longrightarrow> x < 2 ^ 31 - 1 \<Longrightarrow> wrap32 (x + 1) = x + 1"
  by (rule wrap32_id) (simp add: int32_range_def)

lemma wrap32_range [simp]: "int32_range (wrap32 x)"
  using pos_mod_bound [of "2 ^ 32" "x + 2 ^ 31"] pos_mod_sign [of "2 ^ 32" "x + 2 ^ 31"]
  by (simp add: wrap32_def int32_range_def)

text \<open>At the largest value the increment gives the smallest one.\<close>

lemma wrap64_over: "int64_range x \<Longrightarrow> \<not> x < 2 ^ 63 - 1 \<Longrightarrow> wrap64 (x + 1) < 0"
  by (subgoal_tac "x = 2 ^ 63 - 1") (simp_all add: wrap64_def int64_range_def)

lemma wrap32_over: "int32_range x \<Longrightarrow> \<not> x < 2 ^ 31 - 1 \<Longrightarrow> wrap32 (x + 1) < 0"
  by (subgoal_tac "x = 2 ^ 31 - 1") (simp_all add: wrap32_def int32_range_def)

section \<open>Time\<close>

type_synonym instant = int
type_synonym duration = int

definition is_zero :: "instant \<Rightarrow> bool" where
  "is_zero t \<longleftrightarrow> t = 0"

section \<open>Strings\<close>

text \<open>
  The UTF-8 encodings of the runes \<open>unicode.IsSpace\<close> accepts, which are the ones
  \<open>strings.TrimSpace\<close> removes at both ends of a string.
\<close>

definition space_runes :: "string list" where
  "space_runes =
     [[CHR 0x09], [CHR 0x0A], [CHR 0x0B], [CHR 0x0C], [CHR 0x0D], [CHR 0x20],
      [CHR 0xC2, CHR 0x85], [CHR 0xC2, CHR 0xA0], [CHR 0xE1, CHR 0x9A, CHR 0x80],
      [CHR 0xE2, CHR 0x80, CHR 0x80], [CHR 0xE2, CHR 0x80, CHR 0x81],
      [CHR 0xE2, CHR 0x80, CHR 0x82], [CHR 0xE2, CHR 0x80, CHR 0x83],
      [CHR 0xE2, CHR 0x80, CHR 0x84], [CHR 0xE2, CHR 0x80, CHR 0x85],
      [CHR 0xE2, CHR 0x80, CHR 0x86], [CHR 0xE2, CHR 0x80, CHR 0x87],
      [CHR 0xE2, CHR 0x80, CHR 0x88], [CHR 0xE2, CHR 0x80, CHR 0x89],
      [CHR 0xE2, CHR 0x80, CHR 0x8A], [CHR 0xE2, CHR 0x80, CHR 0xA8],
      [CHR 0xE2, CHR 0x80, CHR 0xA9], [CHR 0xE2, CHR 0x80, CHR 0xAF],
      [CHR 0xE2, CHR 0x81, CHR 0x9F], [CHR 0xE3, CHR 0x80, CHR 0x80]]"

fun strip_rune :: "string list \<Rightarrow> string \<Rightarrow> string option" where
  "strip_rune [] s = None"
| "strip_rune (r # rs) s =
     (if take (length r) s = r then Some (drop (length r) s) else strip_rune rs s)"

fun strip_runes :: "string list \<Rightarrow> nat \<Rightarrow> string \<Rightarrow> string" where
  "strip_runes rs 0 s = s"
| "strip_runes rs (Suc n) s =
     (case strip_rune rs s of None \<Rightarrow> s | Some s' \<Rightarrow> strip_runes rs n s')"

definition trim_space :: "string \<Rightarrow> string" where
  "trim_space s =
     (let l = strip_runes space_runes (length s) s
      in rev (strip_runes (map rev space_runes) (length l) (rev l)))"

text \<open>\<open>strings.TrimSpace(s) == ""\<close>.\<close>

definition blank :: "string \<Rightarrow> bool" where
  "blank s \<longleftrightarrow> trim_space s = []"

lemma blank_Nil [simp]: "blank []"
  by (simp add: blank_def trim_space_def)

text \<open>\<open>strings.ContainsAny(s, chars)\<close> for ASCII \<open>chars\<close>.\<close>

definition contains_any :: "string \<Rightarrow> string \<Rightarrow> bool" where
  "contains_any s chars \<longleftrightarrow> list_ex (\<lambda>c. c \<in> set chars) s"

text \<open>The character classes and the regular expressions several packages compile.\<close>

definition is_lower :: "char \<Rightarrow> bool" where
  "is_lower c \<longleftrightarrow> CHR ''a'' \<le> c \<and> c \<le> CHR ''z''"

definition is_upper :: "char \<Rightarrow> bool" where
  "is_upper c \<longleftrightarrow> CHR ''A'' \<le> c \<and> c \<le> CHR ''Z''"

definition is_digit :: "char \<Rightarrow> bool" where
  "is_digit c \<longleftrightarrow> CHR ''0'' \<le> c \<and> c \<le> CHR ''9''"

definition is_hex :: "char \<Rightarrow> bool" where
  "is_hex c \<longleftrightarrow> is_digit c \<or> (CHR ''a'' \<le> c \<and> c \<le> CHR ''f'')"

definition is_lower_alnum :: "char \<Rightarrow> bool" where
  "is_lower_alnum c \<longleftrightarrow> is_lower c \<or> is_digit c"

text \<open>\<^verbatim>\<open>^[a-z0-9](?:[-a-z0-9]*[a-z0-9])?$\<close>\<close>

definition dns_label :: "string \<Rightarrow> bool" where
  "dns_label s \<longleftrightarrow> s \<noteq> [] \<and> is_lower_alnum (hd s) \<and> is_lower_alnum (last s) \<and>
     list_all (\<lambda>c. is_lower_alnum c \<or> c = CHR ''-'') s"

text \<open>\<^verbatim>\<open>^[a-z0-9](?:[a-z0-9._-]*[a-z0-9])?$\<close>\<close>

definition connector_name :: "string \<Rightarrow> bool" where
  "connector_name s \<longleftrightarrow> s \<noteq> [] \<and> is_lower_alnum (hd s) \<and> is_lower_alnum (last s) \<and>
     list_all (\<lambda>c. is_lower_alnum c \<or> c \<in> set ''._-'') s"

text \<open>\<^verbatim>\<open>^[A-Za-z][A-Za-z0-9._-]{0,127}$\<close>\<close>

definition option_name :: "string \<Rightarrow> bool" where
  "option_name s \<longleftrightarrow> s \<noteq> [] \<and> (is_lower (hd s) \<or> is_upper (hd s)) \<and> length s \<le> 128 \<and>
     list_all (\<lambda>c. is_lower c \<or> is_upper c \<or> is_digit c \<or> c \<in> set ''._-'') s"

text \<open>\<^verbatim>\<open>^sha256:[0-9a-f]{64}$\<close>\<close>

definition sha256_revision :: "string \<Rightarrow> bool" where
  "sha256_revision s \<longleftrightarrow> take 7 s = ''sha256:'' \<and> length s = 71 \<and> list_all is_hex (drop 7 s)"

lemma not_sha256_revision_Nil [simp]: "\<not> sha256_revision []"
  by (simp add: sha256_revision_def)

lemma not_option_name_Nil [simp]: "\<not> option_name []"
  by (simp add: option_name_def)

text \<open>Decimal digits, and \<open>%d\<close>.\<close>

fun digits :: "nat \<Rightarrow> string" where
  "digits n = (if n < 10 then [char_of (48 + n)] else digits (n div 10) @ [char_of (48 + n mod 10)])"

declare digits.simps [simp del]

definition dec_int :: "int \<Rightarrow> string" where
  "dec_int x = (if x < 0 then CHR ''-'' # digits (nat (- x)) else digits (nat x))"

lemma digits_inject: "digits m = digits n \<Longrightarrow> m = n"
proof (induction m arbitrary: n rule: less_induct)
  case (less m)
  have ends: "last (digits k) = char_of (48 + k mod 10)" for k
    by (subst digits.simps) simp
  have mod: "m mod 10 = n mod 10"
    using arg_cong[OF less.prems, of last, unfolded ends, THEN arg_cong, of "of_char :: char \<Rightarrow> nat"] by simp
  have long: "digits k = digits (k div 10) @ [char_of (48 + k mod 10)]" if "10 \<le> k" for k
    using that by (subst digits.simps) simp
  have not_nil: "digits k \<noteq> []" for k
    by (subst digits.simps) simp
  have short: "length (digits k) = 1" if "k < 10" for k
    using that by (subst digits.simps) simp
  show ?case
  proof (cases "m < 10 \<or> n < 10")
    case True
    then have "m < 10 \<and> n < 10"
      using less.prems short[of m] short[of n] long[of m] long[of n] not_nil[of "m div 10"] not_nil[of "n div 10"]
      by (metis One_nat_def add_is_1 length_0_conv length_append length_Cons list.size(3) nat.distinct(1) not_less)
    then show ?thesis
      using mod by simp
  next
    case False
    then have "digits (m div 10) = digits (n div 10)"
      using less.prems long[of m] long[of n] by simp
    then have "m div 10 = n div 10"
      using less.IH[of "m div 10" "n div 10"] False by simp
    then show ?thesis
      using mod by (metis div_mult_mod_eq)
  qed
qed

lemma digits_no_sign: "CHR ''-'' \<notin> set (digits n)"
proof (induction n rule: digits.induct)
  case (1 n)
  have "char_of (48 + k) \<noteq> CHR ''-''" if "k < 10" for k :: nat
  proof
    assume "char_of (48 + k) = CHR ''-''"
    then have "(of_char (char_of (48 + k) :: char) :: nat) = of_char (CHR ''-'')"
      by simp
    then show False
      using that by simp
  qed
  then show ?case
    using 1 by (subst digits.simps) (auto dest: sym)
qed

lemma dec_int_inject:
  assumes "dec_int x = dec_int y"
  shows "x = y"
proof -
  have "CHR ''-'' # s \<noteq> digits n" for s n
    using digits_no_sign[of n] by (metis list.set_intros(1))
  then show ?thesis
    using assms digits_inject[of "nat x" "nat y"] digits_inject[of "nat (- x)" "nat (- y)"]
    by (auto simp: dec_int_def split: if_splits dest: sym)
qed

lemma dec_int_not_Nil [simp]: "dec_int x \<noteq> []"
  by (auto simp: dec_int_def digits.simps)

text \<open>\<open>strings.Split\<close> at one character, \<open>strings.Join\<close> and \<open>strings.HasPrefix\<close>.\<close>

fun split_on :: "char \<Rightarrow> string \<Rightarrow> string list" where
  "split_on c [] = [[]]"
| "split_on c (x # xs) =
     (if x = c then [] # split_on c xs
      else case split_on c xs of [] \<Rightarrow> [[x]] | y # ys \<Rightarrow> (x # y) # ys)"

fun join_with :: "string \<Rightarrow> string list \<Rightarrow> string" where
  "join_with sep [] = []"
| "join_with sep [x] = x"
| "join_with sep (x # y # zs) = x @ sep @ join_with sep (y # zs)"

definition has_prefix :: "string \<Rightarrow> string \<Rightarrow> bool" where
  "has_prefix s p \<longleftrightarrow> take (length p) s = p"

text \<open>A hexadecimal digit, in lower case.\<close>

definition hex_digit :: "nat \<Rightarrow> char" where
  "hex_digit n = (if n < 10 then char_of (48 + n) else char_of (87 + n))"

section \<open>Errors\<close>

text \<open>
  A Go function that returns only an error is an \<open>'e option\<close>, \<open>None\<close> being \<open>nil\<close>. A chain of
  \<open>if err := check(); err != nil { return err }\<close> is \<open>first_err\<close> of the checks in order; one
  \<open>if bad { return Errorf(...) }\<close> is \<open>fail_if bad e\<close>.
\<close>

fun first_err :: "'e option list \<Rightarrow> 'e option" where
  "first_err [] = None"
| "first_err (Some e # _) = Some e"
| "first_err (None # xs) = first_err xs"

definition fail_if :: "bool \<Rightarrow> 'e \<Rightarrow> 'e option" where
  "fail_if b e = (if b then Some e else None)"

lemma fail_if_None [simp]: "fail_if b e = None \<longleftrightarrow> \<not> b"
  by (simp add: fail_if_def)

lemma fail_if_True [simp]: "fail_if True e = Some e"
  by (simp add: fail_if_def)

lemma fail_if_False [simp]: "fail_if False e = None"
  by (simp add: fail_if_def)

lemma first_err_Cons_None [simp]:
  "first_err (x # xs) = None \<longleftrightarrow> x = None \<and> first_err xs = None"
  by (cases x) simp_all

lemma first_err_None_iff: "first_err xs = None \<longleftrightarrow> (\<forall>x \<in> set xs. x = None)"
  by (induction xs) auto

lemma first_err_map_None: "first_err (map f xs) = None \<longleftrightarrow> (\<forall>x \<in> set xs. f x = None)"
  by (induction xs) auto

text \<open>\<open>p == nil || ok(p)\<close> for an optional pointer.\<close>

fun opt_all :: "('a \<Rightarrow> bool) \<Rightarrow> 'a option \<Rightarrow> bool" where
  "opt_all P None = True"
| "opt_all P (Some x) = P x"

text \<open>Keys that must be strictly increasing, as a loop with a \<open>previous\<close> variable checks them.\<close>

fun strictly_after :: "string \<Rightarrow> string list \<Rightarrow> bool" where
  "strictly_after prev [] = True"
| "strictly_after prev (k # ks) = (prev < k \<and> strictly_after k ks)"

lemma strictly_after_sorted:
  "strictly_after prev ks \<longleftrightarrow> sorted_wrt (<) ks \<and> (\<forall>k \<in> set ks. prev < k)"
  by (induction ks arbitrary: prev) (auto intro: less_trans)

lemma strictly_after_distinct: "strictly_after prev ks \<Longrightarrow> distinct ks"
  by (auto simp: strictly_after_sorted strict_sorted_iff)

section \<open>Maps\<close>

type_synonym ('k, 'v) gomap = "('k \<times> 'v) list"

abbreviation gget :: "('k, 'v) gomap \<Rightarrow> 'k \<Rightarrow> 'v option" where
  "gget m k \<equiv> map_of m k"

abbreviation gput :: "'k \<Rightarrow> 'v \<Rightarrow> ('k, 'v) gomap \<Rightarrow> ('k, 'v) gomap" where
  "gput k v m \<equiv> AList.update k v m"

abbreviation gdel :: "'k \<Rightarrow> ('k, 'v) gomap \<Rightarrow> ('k, 'v) gomap" where
  "gdel k m \<equiv> AList.delete k m"

definition gwf :: "('k, 'v) gomap \<Rightarrow> bool" where
  "gwf m \<longleftrightarrow> distinct (map fst m)"

lemma gget_gput [simp]: "gget (gput k v m) k' = (if k' = k then Some v else gget m k')"
  by (simp add: update_conv')

lemma gget_gdel [simp]: "gget (gdel k m) k' = (if k' = k then None else gget m k')"
  by (simp add: delete_conv')

lemma gwf_Nil [simp]: "gwf []"
  by (simp add: gwf_def)

lemma gwf_gput [simp]: "gwf m \<Longrightarrow> gwf (gput k v m)"
  by (simp add: gwf_def distinct_update)

lemma gwf_gdel [simp]: "gwf m \<Longrightarrow> gwf (gdel k m)"
  by (simp add: gwf_def distinct_delete)

lemma list_all_gput: "list_all P m \<Longrightarrow> P (k, v) \<Longrightarrow> list_all P (gput k v m)"
  by (induction m) auto

lemma gwf_in_set_iff: "gwf m \<Longrightarrow> (k, v) \<in> set m \<longleftrightarrow> gget m k = Some v"
  by (simp add: gwf_def map_of_eq_Some_iff)

lemma gget_in_set: "gget m k = Some v \<Longrightarrow> (k, v) \<in> set m"
  by (rule map_of_SomeD)

end
