(* ===== verification/Auth.thy ===== *)
theory Auth
  imports Prelude
begin

text \<open>
  Principals, roles and the authorization decision of \<open>control-plane/auth\<close>: \<open>permissions.go\<close>,
  \<open>principal.go\<close>, \<open>authorizer.go\<close>, the identities of \<open>tenant.go\<close> and the events and queries of
  \<open>audit.go\<close>. Permissions and roles are strings, as in the code; the set of permissions of a
  membership is the list of the keys of the map, and the principal a context carries is an
  argument.
\<close>

section \<open>Errors\<close>

text \<open>
  The errors a caller distinguishes; \<open>AuthDeniedBy\<close> is \<open>errors.Join\<close> of the permission error with
  its cause, \<open>AuthStore\<close> an error of the database with the text that wraps it.
\<close>

datatype auth_error =
    AuthUnauthenticated
  | AuthPermissionDenied
  | AuthTenantUnavailable
  | AuthPolicyStale
  | AuthDeniedBy auth_error
  | AuthInvalid string
  | AuthStore string

fun err_is :: "auth_error \<Rightarrow> auth_error \<Rightarrow> bool" where
  "err_is (AuthDeniedBy e) target \<longleftrightarrow> AuthDeniedBy e = target \<or> target = AuthPermissionDenied \<or> err_is e target"
| "err_is e target \<longleftrightarrow> e = target"

section \<open>Permissions and roles\<close>

definition all_connection_permissions :: "string list" where
  "all_connection_permissions =
     [''connectors.read'', ''connections.read'', ''connections.create'', ''connections.update'', ''connections.use'',
      ''connections.test'', ''connections.rotate'', ''connections.disable'', ''connections.delete'']"

definition all_tenant_permissions :: "string list" where
  "all_tenant_permissions =
     [''jobs.read'', ''jobs.create'', ''jobs.update'', ''jobs.start'', ''jobs.stop'', ''jobs.delete'',
      ''members.read'', ''members.manage'', ''audit.read'',
      ''connectors.read'', ''connections.read'', ''connections.create'', ''connections.update'', ''connections.use'',
      ''connections.test'', ''connections.rotate'', ''connections.disable'', ''connections.delete'']"

definition permissions_for_role :: "string \<Rightarrow> string list" where
  "permissions_for_role role =
     sort (if role = ''tenant_viewer'' then [''jobs.read'', ''connectors.read'']
       else if role = ''tenant_operator'' then
         [''jobs.read'', ''jobs.create'', ''jobs.update'', ''jobs.start'', ''jobs.stop'', ''connectors.read'',
          ''connections.read'', ''connections.use'', ''connections.test'']
       else if role = ''tenant_auditor'' then [''jobs.read'', ''members.read'', ''audit.read'', ''connectors.read'']
       else if role = ''tenant_admin'' then all_tenant_permissions
       else if role = ''platform_admin'' then
         all_tenant_permissions @ [''tenants.create'', ''platform.roles.manage'', ''diagnostics.read'']
       else [])"

definition sorted_tenant_roles :: "string list" where
  "sorted_tenant_roles = sort [''tenant_viewer'', ''tenant_operator'', ''tenant_auditor'', ''tenant_admin'']"

section \<open>Principals and memberships\<close>

text \<open>\<^verbatim>\<open>^[0-9a-f]{8}-[0-9a-f]{4}-[1-5][0-9a-f]{3}-[89ab][0-9a-f]{3}-[0-9a-f]{12}$\<close>\<close>

definition tenant_id_pattern :: "string \<Rightarrow> bool" where
  "tenant_id_pattern s \<longleftrightarrow>
     (let parts = split_on (CHR ''-'') s
      in map length parts = [8, 4, 4, 4, 12] \<and> list_all (list_all is_hex) parts \<and>
         hd (parts ! 2) \<in> set ''12345'' \<and> hd (parts ! 3) \<in> set ''89ab'')"

record membership =
  mb_tenant_id :: string
  mb_tenant_namespace :: string
  mb_tenant_display_name :: string
  mb_role :: string
  mb_active :: bool
  mb_policy_revision :: string
  mb_permissions :: "string list"

record principal =
  pc_id :: string
  pc_issuer :: string
  pc_subject :: string
  pc_active :: bool
  pc_service :: bool
  pc_platform_admin :: bool
  pc_policy_revision :: string
  pc_memberships :: "(string, membership) gomap"

definition new_membership :: "string \<Rightarrow> bool \<Rightarrow> string list \<Rightarrow> auth_error + membership" where
  "new_membership tenant active permissions =
     (if \<not> tenant_id_pattern tenant then Inl (AuthInvalid ''tenant ID must be a canonical UUID'')
      else if list_ex blank permissions then Inl (AuthInvalid ''permission must not be blank'')
      else Inr \<lparr>mb_tenant_id = tenant, mb_tenant_namespace = [], mb_tenant_display_name = [], mb_role = [],
        mb_active = active, mb_policy_revision = [], mb_permissions = remdups permissions\<rparr>)"

definition membership_has :: "membership \<Rightarrow> string \<Rightarrow> bool" where
  "membership_has m permission \<longleftrightarrow> permission \<in> set (mb_permissions m)"

definition permission_list :: "membership \<Rightarrow> string list" where
  "permission_list m = sort (mb_permissions m)"

definition with_principal :: "principal \<Rightarrow> auth_error + principal" where
  "with_principal p =
     (if blank (pc_subject p) \<or> blank (pc_policy_revision p)
      then Inl (AuthInvalid ''principal subject and policy revision are required'')
      else if list_ex (\<lambda>(tenant, m). tenant \<noteq> mb_tenant_id m \<or> \<not> tenant_id_pattern tenant) (pc_memberships p)
      then Inl (AuthInvalid ''principal contains an invalid tenant membership'')
      else Inr p)"

definition membership_for_scope :: "principal \<Rightarrow> string \<Rightarrow> membership option" where
  "membership_for_scope p scope =
     (case gget (pc_memberships p) scope of
        Some m \<Rightarrow> Some m
      | None \<Rightarrow> find (\<lambda>m. mb_tenant_namespace m = scope) (map snd (pc_memberships p)))"

section \<open>The decision\<close>

record decision =
  dc_principal :: principal
  dc_membership :: membership
  dc_tenant_id :: string
  dc_permission :: string
  dc_policy_revision :: string

definition policy_revision_of :: "principal \<Rightarrow> membership \<Rightarrow> string" where
  "policy_revision_of p m = (if mb_policy_revision m \<noteq> [] then mb_policy_revision m else pc_policy_revision p)"

definition development_authorize :: "string \<Rightarrow> string \<Rightarrow> auth_error + decision" where
  "development_authorize tenant permission =
     (if \<not> tenant_id_pattern tenant then Inl AuthTenantUnavailable
      else if permission = [] then Inl (AuthInvalid ''permission must not be blank'')
      else Inr \<lparr>dc_principal = \<lparr>pc_id = ''development'', pc_issuer = [], pc_subject = ''development'', pc_active = True,
          pc_service = False, pc_platform_admin = False, pc_policy_revision = ''development'', pc_memberships = []\<rparr>,
        dc_membership =
          (case new_membership tenant True [permission] of
             Inr m \<Rightarrow> m
           | Inl _ \<Rightarrow> \<lparr>mb_tenant_id = [], mb_tenant_namespace = [], mb_tenant_display_name = [], mb_role = [],
               mb_active = False, mb_policy_revision = [], mb_permissions = []\<rparr>),
        dc_tenant_id = tenant, dc_permission = permission, dc_policy_revision = ''development''\<rparr>)"

text \<open>The check of the current revision is optional in the code: \<open>None\<close> is the absent function.\<close>

definition context_authorize ::
  "(string \<Rightarrow> auth_error + string) option \<Rightarrow> principal option \<Rightarrow> string \<Rightarrow> string \<Rightarrow> auth_error + decision" where
  "context_authorize current carried tenant permission =
     (case carried of
        None \<Rightarrow> Inl AuthUnauthenticated
      | Some p \<Rightarrow>
          if \<not> pc_active p then Inl AuthUnauthenticated
          else case gget (pc_memberships p) tenant of
            None \<Rightarrow> Inl AuthTenantUnavailable
          | Some m \<Rightarrow>
              if \<not> mb_active m then Inl AuthTenantUnavailable
              else if \<not> membership_has m permission then Inl AuthPermissionDenied
              else
                (let granted = Inr \<lparr>dc_principal = p, dc_membership = m, dc_tenant_id = tenant,
                       dc_permission = permission, dc_policy_revision = policy_revision_of p m\<rparr>
                 in case current of
                      None \<Rightarrow> granted
                    | Some read \<Rightarrow>
                       (case read tenant of
                          Inl e \<Rightarrow> Inl (AuthDeniedBy e)
                        | Inr revision \<Rightarrow>
                            if revision = [] \<or> revision \<noteq> policy_revision_of p m then Inl AuthPolicyStale else granted)))"

section \<open>Identities of tenants and principals\<close>

record external_identity =
  xi_issuer :: string
  xi_subject :: string

text \<open>The bytes of the first rune of a text; a byte that starts no valid rune is one of its own.\<close>

definition rune_size :: "string \<Rightarrow> nat" where
  "rune_size s =
     (case s of
        [] \<Rightarrow> 0
      | c # t \<Rightarrow>
          (let b = of_char c :: nat;
               cont = (\<lambda>k lo hi. length t \<ge> k \<and>
                 list_all (\<lambda>d. 128 \<le> (of_char d :: nat) \<and> (of_char d :: nat) \<le> 191) (take k t) \<and>
                 lo \<le> (of_char (t ! 0) :: nat) \<and> (of_char (t ! 0) :: nat) \<le> hi)
           in if 194 \<le> b \<and> b \<le> 223 \<and> cont 1 128 191 then 2
              else if 224 \<le> b \<and> b \<le> 239 \<and> cont 2 (if b = 224 then 160 else 128) (if b = 237 then 159 else 191) then 3
              else if 240 \<le> b \<and> b \<le> 244 \<and> cont 3 (if b = 240 then 144 else 128) (if b = 244 then 143 else 191) then 4
              else 1))"

text \<open>
  \<^verbatim>\<open>^https://[^\s/$.?#].[^\s]*$\<close>, where white space is the ASCII one and the dot takes one rune that is
  not a newline.
\<close>

definition issuer_pattern :: "string \<Rightarrow> bool" where
  "issuer_pattern s \<longleftrightarrow>
     (let space = (\<lambda>c. c \<in> set [CHR 0x09, CHR 0x0A, CHR 0x0C, CHR 0x0D, CHR '' '']);
          rest = drop 8 s;
          second = drop (rune_size rest) rest;
          tail = drop (rune_size second) second
      in has_prefix s ''https://'' \<and> rest \<noteq> [] \<and> \<not> space (hd rest) \<and> hd rest \<notin> set ''/$.?#'' \<and>
         second \<noteq> [] \<and> hd second \<noteq> CHR 0x0A \<and> list_all (\<lambda>c. \<not> space c) tail)"

definition validate_external_identity :: "external_identity \<Rightarrow> auth_error option" where
  "validate_external_identity x =
     first_err
       [fail_if (\<not> issuer_pattern (xi_issuer x)) (AuthInvalid ''OIDC issuer must be an HTTPS URL''),
        fail_if (xi_subject x = [] \<or> length (xi_subject x) > 512 \<or>
            \<not> list_all (\<lambda>c. is_lower c \<or> is_upper c \<or> is_digit c \<or> c \<in> set ''._-+=/'') (xi_subject x))
          (AuthInvalid ''OIDC subject is invalid''),
        fail_if (blank (xi_issuer x) \<or> blank (xi_subject x)) (AuthInvalid ''OIDC identity must not be blank'')]"

record tenant_member =
  tm_principal_id :: string
  tm_role :: string
  tm_status :: string

record tenant_view =
  tv_tenant_id :: string
  tv_namespace :: string
  tv_display_name :: string
  tv_status :: string
  tv_authz_revision :: int
  tv_members :: "tenant_member list"

record platform_role_grant =
  pg_principal_id :: string
  pg_role :: string
  pg_active :: bool
  pg_granted_at :: instant
  pg_granted_by :: string

section \<open>Security audit\<close>

text \<open>The attributes are the JSON text of each value; the encoder and the decoder of JSON agree on them.\<close>

record security_audit_event =
  sa_event_id :: string
  sa_event_type :: string
  sa_actor_id :: string
  sa_tenant_id :: string
  sa_request_id :: string
  sa_outcome :: string
  sa_attributes :: "(string, string) gomap"
  sa_occurred_at :: instant

definition audit_event_validate :: "security_audit_event \<Rightarrow> auth_error option" where
  "audit_event_validate e =
     first_err
       [fail_if (blank (sa_event_id e) \<or> length (sa_event_id e) > 128 \<or>
            blank (sa_event_type e) \<or> length (sa_event_type e) > 128 \<or>
            blank (sa_actor_id e) \<or> length (sa_actor_id e) > 256 \<or>
            blank (sa_request_id e) \<or> length (sa_request_id e) > 128 \<or>
            blank (sa_outcome e) \<or> length (sa_outcome e) > 32 \<or> is_zero (sa_occurred_at e))
          (AuthInvalid ''security audit event is invalid''),
        fail_if (sa_tenant_id e \<noteq> [] \<and> \<not> tenant_id_pattern (sa_tenant_id e))
          (AuthInvalid ''security audit tenant ID is invalid''),
        fail_if (length (sa_attributes e) > 32) (AuthInvalid ''security audit attributes exceed the supported count'')]"

text \<open>\<^verbatim>\<open>^[a-z][a-z0-9]*(?:[._-][a-z0-9]+)*$\<close> and \<^verbatim>\<open>^[A-Z][A-Z0-9_]{0,31}$\<close>\<close>

definition audit_event_type_pattern :: "string \<Rightarrow> bool" where
  "audit_event_type_pattern s \<longleftrightarrow>
     s \<noteq> [] \<and> is_lower (hd s) \<and> list_all (\<lambda>c. is_lower_alnum c \<or> c \<in> set ''._-'') s \<and> is_lower_alnum (last s) \<and>
     list_all (\<lambda>(a, b). is_lower_alnum a \<or> is_lower_alnum b) (zip s (tl s))"

definition audit_outcome_pattern :: "string \<Rightarrow> bool" where
  "audit_outcome_pattern s \<longleftrightarrow>
     s \<noteq> [] \<and> length s \<le> 32 \<and> is_upper (hd s) \<and> list_all (\<lambda>c. is_upper c \<or> is_digit c \<or> c = CHR ''_'') s"

record audit_query =
  aq_tenant_id :: string
  aq_occurred_after :: instant
  aq_occurred_before :: instant
  aq_event_types :: "string list"
  aq_outcomes :: "string list"
  aq_cursor :: "(instant \<times> string) option"
  aq_limit :: int

definition validate_audit_filter :: "string list \<Rightarrow> (string \<Rightarrow> bool) \<Rightarrow> nat \<Rightarrow> bool" where
  "validate_audit_filter vs pattern maximum \<longleftrightarrow>
     length vs \<le> 20 \<and> list_all (\<lambda>v. length v \<le> maximum \<and> pattern v) vs \<and> strictly_after [] vs"

definition audit_query_validate :: "audit_query \<Rightarrow> auth_error option" where
  "audit_query_validate q =
     first_err
       [fail_if (\<not> tenant_id_pattern (aq_tenant_id q)) (AuthInvalid ''security audit query tenant ID is invalid''),
        fail_if (is_zero (aq_occurred_after q) \<or> is_zero (aq_occurred_before q) \<or>
            \<not> aq_occurred_after q < aq_occurred_before q \<or>
            aq_occurred_before q - aq_occurred_after q > 90 * 24 * 3600 * 10 ^ 9)
          (AuthInvalid ''security audit query time window is invalid''),
        fail_if (aq_limit q \<le> 0 \<or> aq_limit q > 101) (AuthInvalid ''security audit query limit is invalid''),
        fail_if (\<not> validate_audit_filter (aq_event_types q) audit_event_type_pattern 128)
          (AuthInvalid ''security audit event-type filter is invalid''),
        fail_if (\<not> validate_audit_filter (aq_outcomes q) audit_outcome_pattern 32)
          (AuthInvalid ''security audit outcome filter is invalid''),
        fail_if (\<not> opt_all (\<lambda>(t, i). \<not> (is_zero t \<or> t < aq_occurred_after q \<or> t > aq_occurred_before q \<or> blank i \<or>
            length i > 128 \<or> contains_any i [CHR 0x00, CHR 0x0D, CHR 0x0A])) (aq_cursor q))
          (AuthInvalid ''security audit cursor is invalid'')]"

section \<open>Properties of the roles\<close>

lemma tenant_roles_not_platform:
  assumes "role \<noteq> ''platform_admin''" and "p \<in> {''tenants.create'', ''platform.roles.manage'', ''diagnostics.read''}"
  shows "p \<notin> set (permissions_for_role role)"
  using assms by (auto simp: permissions_for_role_def all_tenant_permissions_def)

lemma role_permissions_not_blank: "\<not> list_ex blank (permissions_for_role role)"
proof -
  have "list_all (\<lambda>p. \<not> blank p) (all_tenant_permissions @ [''tenants.create'', ''platform.roles.manage'', ''diagnostics.read''])"
    by code_simp
  then show ?thesis
    by (auto simp: permissions_for_role_def all_tenant_permissions_def list_ex_iff list_all_iff)
qed

end
