(* ===== verification/AuthRepository.thy ===== *)
theory AuthRepository
  imports Auth "HOL-Library.Product_Lexorder"
begin

text \<open>
  The authentication repository of \<open>control-plane/auth/postgres/repository.go\<close>, on the tables of
  \<open>migrations/001_auth.sql\<close>. A method that runs a transaction is one step on the database; the
  statements of \<open>ResolveOrCreatePrincipal\<close>, which runs none, are separate steps with other requests
  in between. \<open>fails\<close> says which statements fail (a statement is named by the text that wraps its
  error) beyond the keys, references, lengths and ranges that the schema checks; \<open>uuid_ok\<close> is
  \<open>uuid.Parse\<close> and \<open>uuid_cast\<close> the cast to the type \<open>uuid\<close>, whose values are their canonical texts.
\<close>

section \<open>The tables\<close>

record principal_row =
  pr_issuer :: string
  pr_subject :: string
  pr_status :: string
  pr_created_at :: instant
  pr_updated_at :: instant

record tenant_row =
  tr_namespace :: string
  tr_display_name :: string
  tr_status :: string
  tr_authz_revision :: int
  tr_created_at :: instant
  tr_updated_at :: instant

text \<open>
  A row of the memberships or of the platform roles. The column \<open>updated_at\<close> of a membership always
  has the value of \<open>granted_at\<close>.
\<close>

record grant_row =
  gr_role_id :: string
  gr_status :: string
  gr_granted_by :: string
  gr_granted_at :: instant

record auth_db =
  au_principals :: "(string, principal_row) gomap"
  au_tenants :: "(string, tenant_row) gomap"
  au_memberships :: "(string \<times> string, grant_row) gomap"
  au_platform_roles :: "(string \<times> string, grant_row) gomap"
  au_sessions :: "(string, string) gomap"
  au_audit :: "(string, security_audit_event) gomap"

text \<open>The number of characters of a text.\<close>

definition char_count :: "string \<Rightarrow> nat" where
  "char_count s = length (filter (\<lambda>c. \<not> (128 \<le> (of_char c :: nat) \<and> (of_char c :: nat) \<le> 191)) s)"

definition principal_with :: "auth_db \<Rightarrow> string \<Rightarrow> string \<Rightarrow> (string \<times> principal_row) option" where
  "principal_with db issuer subject =
     find (\<lambda>(_, r). pr_issuer r = issuer \<and> pr_subject r = subject) (au_principals db)"

text \<open>\<open>INSERT INTO astrasync_auth_principals ... ON CONFLICT (issuer, subject) DO NOTHING\<close>.\<close>

definition insert_principal ::
  "(string \<Rightarrow> string option) \<Rightarrow> auth_db \<Rightarrow> string \<Rightarrow> external_identity \<Rightarrow> instant \<Rightarrow> auth_db option" where
  "insert_principal uuid_cast db uid x now =
     (case uuid_cast uid of
        None \<Rightarrow> None
      | Some i \<Rightarrow>
          if char_count (xi_issuer x) > 2048 \<or> char_count (xi_subject x) > 512 then None
          else if principal_with db (xi_issuer x) (xi_subject x) \<noteq> None then Some db
          else if gget (au_principals db) i \<noteq> None then None
          else Some (db\<lparr>au_principals := gput i \<lparr>pr_issuer = xi_issuer x, pr_subject = xi_subject x,
            pr_status = ''ACTIVE'', pr_created_at = now, pr_updated_at = now\<rparr> (au_principals db)\<rparr>))"

section \<open>Resolving a principal\<close>

text \<open>The join of the memberships of a principal with their tenants, and the scan of its rows.\<close>

definition membership_rows :: "auth_db \<Rightarrow> string \<Rightarrow> (string \<times> tenant_row \<times> grant_row) list" where
  "membership_rows db i =
     sort_key fst (List.map_filter (\<lambda>((tenant, principal), g).
       if principal = i then map_option (\<lambda>t. (tenant, t, g)) (gget (au_tenants db) tenant) else None) (au_memberships db))"

fun scan_memberships ::
  "(string, membership) gomap \<Rightarrow> (string \<times> tenant_row \<times> grant_row) list \<Rightarrow> auth_error + (string, membership) gomap" where
  "scan_memberships ms [] = Inr ms"
| "scan_memberships ms ((tenant, t, g) # rows) =
     (case new_membership tenant (tr_status t = ''ACTIVE'' \<and> gr_status g = ''ACTIVE'') (permissions_for_role (gr_role_id g)) of
        Inl e \<Rightarrow> Inl e
      | Inr m \<Rightarrow> scan_memberships (gput tenant (m\<lparr>mb_tenant_namespace := tr_namespace t,
          mb_tenant_display_name := tr_display_name t, mb_role := gr_role_id g,
          mb_policy_revision := dec_int (tr_authz_revision t)\<rparr>) ms) rows)"

text \<open>The tenants a platform administrator gets besides its own memberships.\<close>

fun scan_platform_tenants ::
  "(string, membership) gomap \<Rightarrow> (string \<times> tenant_row) list \<Rightarrow> auth_error + (string, membership) gomap" where
  "scan_platform_tenants ms [] = Inr ms"
| "scan_platform_tenants ms ((tenant, t) # rows) =
     (if gget ms tenant \<noteq> None then scan_platform_tenants ms rows
      else case new_membership tenant True (permissions_for_role ''platform_admin'') of
        Inl e \<Rightarrow> Inl e
      | Inr m \<Rightarrow> scan_platform_tenants (gput tenant (m\<lparr>mb_tenant_namespace := tr_namespace t,
          mb_tenant_display_name := tr_display_name t, mb_role := ''platform_admin'',
          mb_policy_revision := dec_int (tr_authz_revision t)\<rparr>) ms) rows)"

definition platform_admin_row :: "auth_db \<Rightarrow> string \<Rightarrow> bool" where
  "platform_admin_row db i =
     (case gget (au_platform_roles db) (i, ''platform_admin'') of None \<Rightarrow> False | Some g \<Rightarrow> gr_status g = ''ACTIVE'')"

definition load_platform_role ::
  "(string \<Rightarrow> bool) \<Rightarrow> auth_db \<Rightarrow> auth_db \<Rightarrow> principal \<Rightarrow> auth_error + principal" where
  "load_platform_role fails db1 db2 p =
     (if fails ''read principal platform role'' then Inl (AuthStore ''read principal platform role'')
      else if \<not> platform_admin_row db1 (pc_id p) then Inr (p\<lparr>pc_platform_admin := False\<rparr>)
      else if fails ''read platform administrator tenants'' then Inl (AuthStore ''read platform administrator tenants'')
      else case scan_platform_tenants (pc_memberships p)
             (sort_key fst (filter (\<lambda>(_, t). tr_status t = ''ACTIVE'') (au_tenants db2))) of
        Inl e \<Rightarrow> Inl e
      | Inr ms \<Rightarrow> Inr (p\<lparr>pc_platform_admin := True, pc_memberships := ms\<rparr>))"

text \<open>
  \<open>others n\<close> is what other requests do to the database before statement \<open>n\<close>; the result comes with
  the database the last statement leaves.
\<close>

definition resolve_or_create_principal ::
  "(string \<Rightarrow> string option) \<Rightarrow> (string \<Rightarrow> bool) \<Rightarrow> (nat \<Rightarrow> auth_db \<Rightarrow> auth_db) \<Rightarrow> string \<Rightarrow> instant \<Rightarrow>
   external_identity \<Rightarrow> auth_db \<Rightarrow> (auth_error + principal) \<times> auth_db" where
  "resolve_or_create_principal uuid_cast fails others uid now x db =
     (if xi_issuer x = [] \<or> xi_subject x = [] then (Inl (AuthInvalid ''external identity is incomplete''), db)
      else
        (let db0 = others 0 db
         in if fails ''materialize OIDC principal'' then (Inl (AuthStore ''materialize OIDC principal''), db0)
            else case insert_principal uuid_cast db0 uid x now of
              None \<Rightarrow> (Inl (AuthStore ''materialize OIDC principal''), db0)
            | Some db0' \<Rightarrow>
               (let db1 = others 1 db0'
                in case (if fails ''read OIDC principal'' then None else principal_with db1 (xi_issuer x) (xi_subject x)) of
                     None \<Rightarrow> (Inl (AuthStore ''read OIDC principal''), db1)
                   | Some (i, r) \<Rightarrow>
                      (let p = \<lparr>pc_id = i, pc_issuer = pr_issuer r, pc_subject = pr_subject r,
                             pc_active = (pr_status r = ''ACTIVE''), pc_service = False, pc_platform_admin = False,
                             pc_policy_revision = ''principal:'' @ i, pc_memberships = []\<rparr>;
                           db2 = others 2 db1; db3 = others 3 db2; db4 = others 4 db3
                       in if \<not> pc_active p then (Inr p, db1)
                          else if fails ''read principal memberships'' then (Inl (AuthStore ''read principal memberships''), db2)
                          else case scan_memberships [] (membership_rows db2 i) of
                            Inl e \<Rightarrow> (Inl (AuthStore ''decode principal membership''), db2)
                          | Inr ms \<Rightarrow> (load_platform_role fails db3 db4 (p\<lparr>pc_memberships := ms\<rparr>), db4)))))"

definition resolve_principal_by_id ::
  "(string \<Rightarrow> bool) \<Rightarrow> (string \<Rightarrow> string option) \<Rightarrow> (string \<Rightarrow> bool) \<Rightarrow> (nat \<Rightarrow> auth_db \<Rightarrow> auth_db) \<Rightarrow> string \<Rightarrow> instant \<Rightarrow>
   string \<Rightarrow> auth_db \<Rightarrow> (auth_error + principal) \<times> auth_db" where
  "resolve_principal_by_id uuid_ok uuid_cast fails others uid now i db =
     (if \<not> uuid_ok i then (Inl AuthUnauthenticated, db)
      else case (if fails ''read session principal identity'' then None else uuid_cast i) of
        None \<Rightarrow> (Inl (AuthStore ''read session principal identity''), db)
      | Some c \<Rightarrow>
         (case gget (au_principals db) c of
            None \<Rightarrow> (Inl AuthUnauthenticated, db)
          | Some r \<Rightarrow> resolve_or_create_principal uuid_cast fails others uid now
              \<lparr>xi_issuer = pr_issuer r, xi_subject = pr_subject r\<rparr> db))"

definition current_policy_revision ::
  "(string \<Rightarrow> string option) \<Rightarrow> (string \<Rightarrow> bool) \<Rightarrow> auth_db \<Rightarrow> string \<Rightarrow> auth_error + string" where
  "current_policy_revision uuid_cast fails db tenant =
     (case (if fails ''read tenant policy revision'' then None else uuid_cast tenant) of
        None \<Rightarrow> Inl (AuthStore ''read tenant policy revision'')
      | Some c \<Rightarrow>
         (case gget (au_tenants db) c of
            None \<Rightarrow> Inl AuthTenantUnavailable
          | Some t \<Rightarrow> if tr_status t \<noteq> ''ACTIVE'' then Inl AuthTenantUnavailable else Inr (dec_int (tr_authz_revision t))))"

section \<open>Audit events\<close>

text \<open>The insertion of an audit event, whose key must be new.\<close>

definition write_audit_in_tx :: "(string \<Rightarrow> bool) \<Rightarrow> auth_db \<Rightarrow> security_audit_event \<Rightarrow> auth_error + auth_db" where
  "write_audit_in_tx fails db e =
     (if fails ''write security audit in transaction'' then Inl (AuthStore ''write security audit in transaction'')
      else if gget (au_audit db) (sa_event_id e) \<noteq> None then Inl (AuthInvalid ''security audit event already exists'')
      else Inr (db\<lparr>au_audit := gput (sa_event_id e) e (au_audit db)\<rparr>))"

definition write_security_audit ::
  "(string \<Rightarrow> bool) \<Rightarrow> auth_db \<Rightarrow> security_audit_event \<Rightarrow> auth_error option \<times> auth_db" where
  "write_security_audit fails db e =
     (case audit_event_validate e of
        Some err \<Rightarrow> (Some err, db)
      | None \<Rightarrow>
          if fails ''write security audit event'' then (Some (AuthStore ''write security audit event''), db)
          else if gget (au_audit db) (sa_event_id e) \<noteq> None
          then (Some (AuthInvalid ''security audit event already exists''), db)
          else (None, db\<lparr>au_audit := gput (sa_event_id e) e (au_audit db)\<rparr>))"

definition audit_selected :: "audit_query \<Rightarrow> security_audit_event \<Rightarrow> bool" where
  "audit_selected q e \<longleftrightarrow>
     sa_tenant_id e = aq_tenant_id q \<and> sa_occurred_at e \<ge> aq_occurred_after q \<and> sa_occurred_at e \<le> aq_occurred_before q \<and>
     (aq_event_types q = [] \<or> sa_event_type e \<in> set (aq_event_types q)) \<and>
     (aq_outcomes q = [] \<or> sa_outcome e \<in> set (aq_outcomes q)) \<and>
     opt_all (\<lambda>(t, i). sa_occurred_at e < t \<or> sa_occurred_at e = t \<and> sa_event_id e < i) (aq_cursor q)"

definition list_security_audit ::
  "(string \<Rightarrow> bool) \<Rightarrow> auth_db \<Rightarrow> audit_query \<Rightarrow> auth_error + security_audit_event list" where
  "list_security_audit fails db q =
     (case audit_query_validate q of
        Some e \<Rightarrow> Inl e
      | None \<Rightarrow>
          if fails ''query security audit events'' then Inl (AuthStore ''query security audit events'')
          else
            (let es = take (nat (aq_limit q)) (rev (sort_key (\<lambda>e. (sa_occurred_at e, sa_event_id e))
                   (filter (audit_selected q) (map snd (au_audit db)))))
             in if list_all (\<lambda>e. audit_event_validate e = None) es then Inr es
                else Inl (AuthInvalid ''stored security audit event is invalid'')))"

section \<open>Bootstrapping and administration\<close>

text \<open>
  The insertion of a membership, which replaces the columns of an existing row by \<open>merge\<close>, and
  refers to an existing tenant and principal.
\<close>

definition upsert_membership ::
  "auth_db \<Rightarrow> string \<Rightarrow> string \<Rightarrow> grant_row \<Rightarrow> (grant_row \<Rightarrow> grant_row) \<Rightarrow> auth_db option" where
  "upsert_membership db tenant i new merge =
     (if char_count (gr_granted_by new) > 256 then None
      else case gget (au_memberships db) (tenant, i) of
        Some old \<Rightarrow> Some (db\<lparr>au_memberships := gput (tenant, i) (merge old) (au_memberships db)\<rparr>)
      | None \<Rightarrow>
          if gget (au_tenants db) tenant = None \<or> gget (au_principals db) i = None then None
          else Some (db\<lparr>au_memberships := gput (tenant, i) new (au_memberships db)\<rparr>))"

definition bootstrap_tenant ::
  "(string \<Rightarrow> bool) \<Rightarrow> (string \<Rightarrow> string option) \<Rightarrow> (string \<Rightarrow> bool) \<Rightarrow> string \<Rightarrow> instant \<Rightarrow> string \<Rightarrow> string \<Rightarrow> string \<Rightarrow>
   external_identity \<Rightarrow> auth_db \<Rightarrow> auth_error option \<times> auth_db" where
  "bootstrap_tenant uuid_ok uuid_cast fails uid now tenant ns display x db =
     (if \<not> uuid_ok tenant \<or> ns = [] \<or> xi_issuer x = [] \<or> xi_subject x = []
      then (Some (AuthInvalid ''bootstrap tenant identity is invalid''), db)
      else if fails ''begin tenant bootstrap'' then (Some (AuthStore ''begin tenant bootstrap''), db)
      else case (if fails ''bootstrap principal'' then None else insert_principal uuid_cast db uid x now) of
        None \<Rightarrow> (Some (AuthStore ''bootstrap principal''), db)
      | Some db1 \<Rightarrow>
         (case (if fails ''resolve bootstrap principal'' then None else principal_with db1 (xi_issuer x) (xi_subject x),
                if fails ''bootstrap tenant'' then None else uuid_cast tenant) of
            (None, _) \<Rightarrow> (Some (AuthStore ''resolve bootstrap principal''), db)
          | (_, None) \<Rightarrow> (Some (AuthStore ''bootstrap tenant''), db)
          | (Some (i, _), Some c) \<Rightarrow>
              if char_count ns > 63 \<or> char_count display > 256 \<or>
                 gget (au_tenants db1) c = None \<and> list_ex (\<lambda>(_, t). tr_namespace t = ns) (au_tenants db1)
              then (Some (AuthStore ''bootstrap tenant''), db)
              else
                (let db2 = (if gget (au_tenants db1) c \<noteq> None then db1
                       else db1\<lparr>au_tenants := gput c \<lparr>tr_namespace = ns, tr_display_name = display, tr_status = ''ACTIVE'',
                         tr_authz_revision = 1, tr_created_at = now, tr_updated_at = now\<rparr> (au_tenants db1)\<rparr>)
                 in case (if fails ''bootstrap tenant administrator'' then None
                          else upsert_membership db2 c i \<lparr>gr_role_id = ''tenant_admin'', gr_status = ''ACTIVE'',
                            gr_granted_by = ''bootstrap'', gr_granted_at = now\<rparr> (\<lambda>old. old)) of
                      None \<Rightarrow> (Some (AuthStore ''bootstrap tenant administrator''), db)
                    | Some db3 \<Rightarrow>
                        if fails ''commit tenant bootstrap'' then (Some (AuthStore ''commit tenant bootstrap''), db)
                        else (None, db3))))"

definition upsert_platform_role :: "auth_db \<Rightarrow> string \<Rightarrow> grant_row \<Rightarrow> auth_db option" where
  "upsert_platform_role db i g =
     (if char_count (gr_granted_by g) > 256 \<or> gget (au_principals db) i = None then None
      else Some (db\<lparr>au_platform_roles := gput (i, gr_role_id g) g (au_platform_roles db)\<rparr>))"

definition bootstrap_platform_admin ::
  "(string \<Rightarrow> bool) \<Rightarrow> instant \<Rightarrow> external_identity \<Rightarrow> auth_db \<Rightarrow> auth_error option \<times> auth_db" where
  "bootstrap_platform_admin fails now x db =
     (case validate_external_identity x of
        Some e \<Rightarrow> (Some e, db)
      | None \<Rightarrow>
          if fails ''begin platform-admin bootstrap'' then (Some (AuthStore ''begin platform-admin bootstrap''), db)
          else if fails ''read bootstrap principal'' then (Some (AuthStore ''read bootstrap principal''), db)
          else
         (case principal_with db (xi_issuer x) (xi_subject x) of
            None \<Rightarrow> (Some (AuthInvalid ''principal has not authenticated yet''), db)
          | Some (i, _) \<Rightarrow>
             (case (if fails ''grant platform administrator'' then None
                    else upsert_platform_role db i \<lparr>gr_role_id = ''platform_admin'', gr_status = ''ACTIVE'',
                      gr_granted_by = ''bootstrap'', gr_granted_at = now\<rparr>) of
                None \<Rightarrow> (Some (AuthStore ''grant platform administrator''), db)
              | Some db' \<Rightarrow>
                  if fails ''commit platform-admin bootstrap'' then (Some (AuthStore ''commit platform-admin bootstrap''), db)
                  else (None, db'))))"

definition set_principal_status ::
  "(string \<Rightarrow> bool) \<Rightarrow> (string \<Rightarrow> string option) \<Rightarrow> (string \<Rightarrow> bool) \<Rightarrow> instant \<Rightarrow> string \<Rightarrow> string \<Rightarrow> auth_db \<Rightarrow>
   auth_error option \<times> auth_db" where
  "set_principal_status uuid_ok uuid_cast fails now i status db =
     (if \<not> uuid_ok i then (Some AuthUnauthenticated, db)
      else if status \<noteq> ''ACTIVE'' \<and> status \<noteq> ''DISABLED''
      then (Some (AuthInvalid ''principal status must be ACTIVE or DISABLED''), db)
      else case (if fails ''update principal status'' then None else uuid_cast i) of
        None \<Rightarrow> (Some (AuthStore ''update principal status''), db)
      | Some c \<Rightarrow>
         (case gget (au_principals db) c of
            None \<Rightarrow> (Some AuthUnauthenticated, db)
          | Some r \<Rightarrow> (None, db\<lparr>au_principals := gput c (r\<lparr>pr_status := status, pr_updated_at := now\<rparr>) (au_principals db)\<rparr>)))"

definition set_tenant_status ::
  "(string \<Rightarrow> bool) \<Rightarrow> (string \<Rightarrow> string option) \<Rightarrow> (string \<Rightarrow> bool) \<Rightarrow> instant \<Rightarrow> string \<Rightarrow> string \<Rightarrow> auth_db \<Rightarrow>
   auth_error option \<times> auth_db" where
  "set_tenant_status uuid_ok uuid_cast fails now tenant status db =
     (if \<not> uuid_ok tenant then (Some AuthTenantUnavailable, db)
      else if status \<noteq> ''ACTIVE'' \<and> status \<noteq> ''SUSPENDED''
      then (Some (AuthInvalid ''tenant status must be ACTIVE or SUSPENDED''), db)
      else case (if fails ''update tenant status'' then None else uuid_cast tenant) of
        None \<Rightarrow> (Some (AuthStore ''update tenant status''), db)
      | Some c \<Rightarrow>
         (case gget (au_tenants db) c of
            None \<Rightarrow> (Some AuthTenantUnavailable, db)
          | Some t \<Rightarrow> (None, db\<lparr>au_tenants := gput c (t\<lparr>tr_status := status, tr_updated_at := now\<rparr>) (au_tenants db)\<rparr>)))"

section \<open>Reading tenants and members\<close>

definition load_tenant_members ::
  "(string \<Rightarrow> bool) \<Rightarrow> (string \<Rightarrow> string option) \<Rightarrow> (string \<Rightarrow> bool) \<Rightarrow> auth_db \<Rightarrow> string \<Rightarrow> auth_error + tenant_member list" where
  "load_tenant_members uuid_ok uuid_cast fails db tenant =
     (if \<not> uuid_ok tenant then Inl AuthTenantUnavailable
      else case (if fails ''load tenant members'' then None else uuid_cast tenant) of
        None \<Rightarrow> Inl (AuthStore ''load tenant members'')
      | Some c \<Rightarrow> Inr (sort_key tm_principal_id (map (\<lambda>((_, i), g).
            \<lparr>tm_principal_id = i, tm_role = gr_role_id g, tm_status = gr_status g\<rparr>)
          (filter (\<lambda>((t, _), _). t = c) (au_memberships db)))))"

definition read_tenant_in_tx ::
  "(string \<Rightarrow> bool) \<Rightarrow> auth_db \<Rightarrow> string \<Rightarrow> string \<Rightarrow> auth_error + tenant_view" where
  "read_tenant_in_tx fails db tenant c =
     (if fails ''read tenant in transaction'' then Inl (AuthStore ''read tenant in transaction'')
      else case gget (au_tenants db) c of
        None \<Rightarrow> Inl AuthTenantUnavailable
      | Some t \<Rightarrow>
          if fails ''read tenant members in transaction'' then Inl (AuthStore ''read tenant members in transaction'')
          else Inr \<lparr>tv_tenant_id = tenant, tv_namespace = tr_namespace t, tv_display_name = tr_display_name t,
            tv_status = tr_status t, tv_authz_revision = tr_authz_revision t,
            tv_members = sort_key tm_principal_id (map (\<lambda>((_, i), g).
                \<lparr>tm_principal_id = i, tm_role = gr_role_id g, tm_status = gr_status g\<rparr>)
              (filter (\<lambda>((t, _), _). t = c) (au_memberships db)))\<rparr>)"

text \<open>\<open>ReadTenant\<close> runs the same two queries outside a transaction and returns the canonical identifier.\<close>

definition read_tenant ::
  "(string \<Rightarrow> bool) \<Rightarrow> (string \<Rightarrow> string option) \<Rightarrow> (string \<Rightarrow> bool) \<Rightarrow> auth_db \<Rightarrow> auth_db \<Rightarrow> string \<Rightarrow> auth_error + tenant_view" where
  "read_tenant uuid_ok uuid_cast fails db1 db2 tenant =
     (if \<not> uuid_ok tenant then Inl AuthTenantUnavailable
      else case (if fails ''read tenant'' then None else uuid_cast tenant) of
        None \<Rightarrow> Inl (AuthStore ''read tenant'')
      | Some c \<Rightarrow>
         (case gget (au_tenants db1) c of
            None \<Rightarrow> Inl AuthTenantUnavailable
          | Some t \<Rightarrow>
             (case load_tenant_members (\<lambda>_. True) Some fails db2 c of
                Inl e \<Rightarrow> Inl e
              | Inr ms \<Rightarrow> Inr \<lparr>tv_tenant_id = c, tv_namespace = tr_namespace t, tv_display_name = tr_display_name t,
                  tv_status = tr_status t, tv_authz_revision = tr_authz_revision t, tv_members = ms\<rparr>)))"

definition active_tenant_ids :: "auth_db \<Rightarrow> string \<Rightarrow> string list" where
  "active_tenant_ids db i =
     sort (remdups (map (\<lambda>((t, _), _). t) (filter (\<lambda>((_, p), g). p = i \<and> gr_status g = ''ACTIVE'') (au_memberships db))))"

section \<open>Sessions and roles\<close>

text \<open>
  The deletion of the sessions of a principal; with an audit event it is
  \<open>RevokeConsoleSessionsForPrincipal\<close>, without one \<open>RevokeSessionsForPrincipal\<close>.
\<close>

definition revoke_sessions ::
  "(string \<Rightarrow> bool) \<Rightarrow> (string \<Rightarrow> string option) \<Rightarrow> (string \<Rightarrow> bool) \<Rightarrow> string \<Rightarrow> security_audit_event option \<Rightarrow> auth_db \<Rightarrow>
   (auth_error + int \<times> string list) \<times> auth_db" where
  "revoke_sessions uuid_ok uuid_cast fails i audit db =
     (let console = (\<lambda>s. case audit of None \<Rightarrow> s | Some _ \<Rightarrow> ''console '' @ s);
          store = (\<lambda>s. (Inl (AuthStore s), db))
      in if \<not> uuid_ok i then (Inl AuthUnauthenticated, db)
         else case (case audit of None \<Rightarrow> None | Some e \<Rightarrow> audit_event_validate e) of
           Some err \<Rightarrow> (Inl err, db)
         | None \<Rightarrow>
             if fails (''begin revoke '' @ console ''sessions tx'') then store (''begin revoke '' @ console ''sessions tx'')
             else case (if fails ''load tenant ids for revoke'' then None else uuid_cast i) of
               None \<Rightarrow> store ''load tenant ids for revoke''
             | Some c \<Rightarrow>
                 if fails (''revoke principal '' @ console ''sessions'') then store (''revoke principal '' @ console ''sessions'')
                 else
                   (let gone = filter (\<lambda>(_, p). p = c) (au_sessions db);
                        db1 = db\<lparr>au_sessions := filter (\<lambda>(_, p). p \<noteq> c) (au_sessions db)\<rparr>
                    in case (case audit of None \<Rightarrow> Inr db1 | Some e \<Rightarrow> write_audit_in_tx fails db1 e) of
                         Inl err \<Rightarrow> (Inl err, db)
                       | Inr db2 \<Rightarrow>
                           if fails (''commit revoke '' @ console ''sessions tx'') then store (''commit revoke '' @ console ''sessions tx'')
                           else (Inr (int (length gone), active_tenant_ids db c), db2)))"

definition valid_tenant_role :: "string \<Rightarrow> bool" where
  "valid_tenant_role role \<longleftrightarrow> role \<in> set [''tenant_viewer'', ''tenant_operator'', ''tenant_auditor'', ''tenant_admin'']"

definition bump_authz_revision :: "auth_db \<Rightarrow> string \<Rightarrow> instant \<Rightarrow> auth_db option" where
  "bump_authz_revision db c now =
     (case gget (au_tenants db) c of
        None \<Rightarrow> Some db
      | Some t \<Rightarrow>
          if tr_authz_revision t + 1 \<ge> 2 ^ 63 then None
          else Some (db\<lparr>au_tenants := gput c (t\<lparr>tr_authz_revision := tr_authz_revision t + 1, tr_updated_at := now\<rparr>) (au_tenants db)\<rparr>))"

text \<open>
  The rest of a change of a tenant role, after its membership has been written by the statement
  \<open>op\<close>; the error of the end of the transaction names the \<open>action\<close>.
\<close>

definition finish_tenant_role ::
  "(string \<Rightarrow> bool) \<Rightarrow> instant \<Rightarrow> string \<Rightarrow> string \<Rightarrow> string \<Rightarrow> string \<Rightarrow> security_audit_event \<Rightarrow> auth_db \<Rightarrow> auth_db option \<Rightarrow>
   (auth_error + tenant_view) \<times> auth_db" where
  "finish_tenant_role fails now op action tenant c audit db written =
     (case (if fails op then None else written) of
        None \<Rightarrow> (Inl (AuthStore op), db)
      | Some db1 \<Rightarrow>
         (case (if fails ''bump tenant authz revision'' then None else bump_authz_revision db1 c now) of
            None \<Rightarrow> (Inl (AuthStore ''bump tenant authz revision''), db)
          | Some db2 \<Rightarrow>
             (case write_audit_in_tx fails db2 audit of
                Inl e \<Rightarrow> (Inl e, db)
              | Inr db3 \<Rightarrow>
                 (case read_tenant_in_tx fails db3 tenant c of
                    Inl e \<Rightarrow> (Inl e, db)
                  | Inr view \<Rightarrow>
                      if fails (''commit '' @ action) then (Inl (AuthStore (''commit '' @ action)), db) else (Inr view, db3)))))"

definition grant_tenant_role ::
  "(string \<Rightarrow> bool) \<Rightarrow> (string \<Rightarrow> string option) \<Rightarrow> (string \<Rightarrow> bool) \<Rightarrow> instant \<Rightarrow> string \<Rightarrow> string \<Rightarrow> string \<Rightarrow> string \<Rightarrow>
   security_audit_event \<Rightarrow> auth_db \<Rightarrow> (auth_error + tenant_view) \<times> auth_db" where
  "grant_tenant_role uuid_ok uuid_cast fails now tenant i role actor audit db =
     (if \<not> uuid_ok tenant then (Inl AuthTenantUnavailable, db)
      else if \<not> uuid_ok i then (Inl AuthUnauthenticated, db)
      else if \<not> valid_tenant_role role then (Inl (AuthInvalid ''tenant role is not supported''), db)
      else case audit_event_validate audit of
        Some e \<Rightarrow> (Inl e, db)
      | None \<Rightarrow>
          if fails ''begin tenant role grant'' then (Inl (AuthStore ''begin tenant role grant''), db)
          else
            (case (uuid_cast tenant, uuid_cast i) of
               (Some c, Some p) \<Rightarrow>
                 (let g = \<lparr>gr_role_id = role, gr_status = ''ACTIVE'', gr_granted_by = actor, gr_granted_at = now\<rparr>
                  in finish_tenant_role fails now ''upsert tenant membership'' ''tenant role grant'' tenant c audit db
                       (upsert_membership db c p g (\<lambda>_. g)))
             | _ \<Rightarrow> (Inl (AuthStore ''upsert tenant membership''), db)))"

definition revoke_tenant_role ::
  "(string \<Rightarrow> bool) \<Rightarrow> (string \<Rightarrow> string option) \<Rightarrow> (string \<Rightarrow> bool) \<Rightarrow> instant \<Rightarrow> string \<Rightarrow> string \<Rightarrow> string \<Rightarrow>
   security_audit_event \<Rightarrow> auth_db \<Rightarrow> (auth_error + tenant_view) \<times> auth_db" where
  "revoke_tenant_role uuid_ok uuid_cast fails now tenant i actor audit db =
     (if \<not> uuid_ok tenant then (Inl AuthTenantUnavailable, db)
      else if \<not> uuid_ok i then (Inl AuthUnauthenticated, db)
      else case audit_event_validate audit of
        Some e \<Rightarrow> (Inl e, db)
      | None \<Rightarrow>
          if fails ''begin tenant role revoke'' then (Inl (AuthStore ''begin tenant role revoke''), db)
          else
            (case (uuid_cast tenant, uuid_cast i) of
               (Some c, Some p) \<Rightarrow>
                 finish_tenant_role fails now ''disable tenant membership'' ''tenant role revoke'' tenant c audit db
                   (upsert_membership db c p
                     \<lparr>gr_role_id = ''tenant_viewer'', gr_status = ''DISABLED'', gr_granted_by = actor, gr_granted_at = now\<rparr>
                     (\<lambda>old. old\<lparr>gr_status := ''DISABLED'', gr_granted_by := actor, gr_granted_at := now\<rparr>))
             | _ \<Rightarrow> (Inl (AuthStore ''disable tenant membership''), db)))"

text \<open>\<open>GrantPlatformRole\<close> and \<open>RevokePlatformRole\<close>, which differ in the status they write and the texts of their errors.\<close>

definition change_platform_role ::
  "(string \<Rightarrow> bool) \<Rightarrow> (string \<Rightarrow> string option) \<Rightarrow> (string \<Rightarrow> bool) \<Rightarrow> bool \<Rightarrow> instant \<Rightarrow> string \<Rightarrow> string \<Rightarrow> string \<Rightarrow>
   security_audit_event \<Rightarrow> auth_db \<Rightarrow> (auth_error + platform_role_grant) \<times> auth_db" where
  "change_platform_role uuid_ok uuid_cast fails active now i role actor audit db =
     (let verb = (if active then ''grant'' else ''revoke'');
          begin_text = ''begin platform role '' @ verb;
          write_text = verb @ '' platform role'';
          commit_text = ''commit platform role '' @ verb
      in if \<not> uuid_ok i then (Inl AuthUnauthenticated, db)
         else if role \<noteq> ''platform_admin'' then (Inl (AuthInvalid ''platform role is not supported''), db)
         else case audit_event_validate audit of
           Some e \<Rightarrow> (Inl e, db)
         | None \<Rightarrow>
             if fails begin_text then (Inl (AuthStore begin_text), db)
             else
               (case (if fails write_text then None
                      else case uuid_cast i of
                        None \<Rightarrow> None
                      | Some c \<Rightarrow> upsert_platform_role db c \<lparr>gr_role_id = role,
                          gr_status = (if active then ''ACTIVE'' else ''DISABLED''), gr_granted_by = actor, gr_granted_at = now\<rparr>) of
                  None \<Rightarrow> (Inl (AuthStore write_text), db)
                | Some db1 \<Rightarrow>
                   (case write_audit_in_tx fails db1 audit of
                      Inl e \<Rightarrow> (Inl e, db)
                    | Inr db2 \<Rightarrow>
                        if fails commit_text then (Inl (AuthStore commit_text), db)
                        else (Inr \<lparr>pg_principal_id = i, pg_role = role, pg_active = active, pg_granted_at = now,
                                pg_granted_by = actor\<rparr>, db2))))"

section \<open>Steps of other requests\<close>

text \<open>Every operation of the repository that writes, with any arguments.\<close>

inductive auth_step :: "(string \<Rightarrow> bool) \<Rightarrow> (string \<Rightarrow> string option) \<Rightarrow> auth_db \<Rightarrow> auth_db \<Rightarrow> bool"
  for uuid_ok :: "string \<Rightarrow> bool" and uuid_cast :: "string \<Rightarrow> string option" where
  principal_step: "insert_principal uuid_cast d uid x now = Some d' \<Longrightarrow> auth_step uuid_ok uuid_cast d d'"
| audit_step: "write_security_audit fails d e = (r, d') \<Longrightarrow> auth_step uuid_ok uuid_cast d d'"
| tenant_step: "bootstrap_tenant uuid_ok uuid_cast fails uid now tenant ns display x d = (r, d') \<Longrightarrow> auth_step uuid_ok uuid_cast d d'"
| platform_admin_step: "bootstrap_platform_admin fails now x d = (r, d') \<Longrightarrow> auth_step uuid_ok uuid_cast d d'"
| principal_status_step:
    "set_principal_status uuid_ok uuid_cast fails now i status d = (r, d') \<Longrightarrow> auth_step uuid_ok uuid_cast d d'"
| tenant_status_step:
    "set_tenant_status uuid_ok uuid_cast fails now tenant status d = (r, d') \<Longrightarrow> auth_step uuid_ok uuid_cast d d'"
| sessions_step: "revoke_sessions uuid_ok uuid_cast fails i audit d = (r', d') \<Longrightarrow> auth_step uuid_ok uuid_cast d d'"
| grant_step:
    "grant_tenant_role uuid_ok uuid_cast fails now tenant i role actor e d = (r'', d') \<Longrightarrow> auth_step uuid_ok uuid_cast d d'"
| revoke_step:
    "revoke_tenant_role uuid_ok uuid_cast fails now tenant i actor e d = (r'', d') \<Longrightarrow> auth_step uuid_ok uuid_cast d d'"
| platform_role_step:
    "change_platform_role uuid_ok uuid_cast fails active now i role actor e d = (r3, d') \<Longrightarrow> auth_step uuid_ok uuid_cast d d'"

definition auth_wf :: "auth_db \<Rightarrow> bool" where
  "auth_wf d \<longleftrightarrow>
     gwf (au_principals d) \<and> gwf (au_tenants d) \<and> gwf (au_memberships d) \<and>
     list_all (\<lambda>(_, g). valid_tenant_role (gr_role_id g)) (au_memberships d)"

text \<open>
  What no operation undoes: a tenant stays, its revision does not decrease, and while its revision is
  the same its memberships are.
\<close>

definition authz_later :: "auth_db \<Rightarrow> auth_db \<Rightarrow> bool" where
  "authz_later d d' \<longleftrightarrow>
     (\<forall>k t. gget (au_tenants d) k = Some t \<longrightarrow>
        (\<exists>t'. gget (au_tenants d') k = Some t' \<and> tr_authz_revision t \<le> tr_authz_revision t' \<and>
           (tr_authz_revision t' = tr_authz_revision t \<longrightarrow>
              (\<forall>p g. gget (au_memberships d) (k, p) = Some g \<longrightarrow> gget (au_memberships d') (k, p) = Some g))))"

lemma authz_later_refl [simp]: "authz_later d d"
  by (auto simp: authz_later_def)

lemma authz_later_trans:
  assumes "authz_later a b" and "authz_later b c"
  shows "authz_later a c"
  unfolding authz_later_def
proof (intro allI impI)
  fix k t assume "gget (au_tenants a) k = Some t"
  then obtain t1 where 1: "gget (au_tenants b) k = Some t1" "tr_authz_revision t \<le> tr_authz_revision t1"
    "tr_authz_revision t1 = tr_authz_revision t \<longrightarrow>
       (\<forall>p g. gget (au_memberships a) (k, p) = Some g \<longrightarrow> gget (au_memberships b) (k, p) = Some g)"
    using assms(1) unfolding authz_later_def by blast
  then obtain t2 where 2: "gget (au_tenants c) k = Some t2" "tr_authz_revision t1 \<le> tr_authz_revision t2"
    "tr_authz_revision t2 = tr_authz_revision t1 \<longrightarrow>
       (\<forall>p g. gget (au_memberships b) (k, p) = Some g \<longrightarrow> gget (au_memberships c) (k, p) = Some g)"
    using assms(2) unfolding authz_later_def by blast
  show "\<exists>t'. gget (au_tenants c) k = Some t' \<and> tr_authz_revision t \<le> tr_authz_revision t' \<and>
      (tr_authz_revision t' = tr_authz_revision t \<longrightarrow>
         (\<forall>p g. gget (au_memberships a) (k, p) = Some g \<longrightarrow> gget (au_memberships c) (k, p) = Some g))"
    using 1 2 by auto
qed

lemma authz_later_same:
  "au_tenants d' = au_tenants d \<Longrightarrow> au_memberships d' = au_memberships d \<Longrightarrow> authz_later d d'"
  by (auto simp: authz_later_def)

lemma auth_wf_same:
  "auth_wf d \<Longrightarrow> au_tenants d' = au_tenants d \<Longrightarrow> au_memberships d' = au_memberships d \<Longrightarrow>
   gwf (au_principals d') \<Longrightarrow> auth_wf d'"
  by (simp add: auth_wf_def)

lemma insert_principal_keeps:
  assumes "insert_principal uuid_cast d uid x now = Some d'"
  shows "au_tenants d' = au_tenants d" and "au_memberships d' = au_memberships d"
    and "gwf (au_principals d) \<Longrightarrow> gwf (au_principals d')"
  using assms by (auto simp: insert_principal_def split: option.splits if_splits)

lemma upsert_membership_keeps:
  assumes "upsert_membership d k i g merge = Some d'"
  shows "au_tenants d' = au_tenants d" and "au_principals d' = au_principals d"
    and "\<exists>v. au_memberships d' = gput (k, i) v (au_memberships d) \<and>
           (v = g \<or> (\<exists>old. gget (au_memberships d) (k, i) = Some old \<and> v = merge old))"
  using assms by (auto simp: upsert_membership_def split: option.splits if_splits)

lemma upsert_membership_wf:
  assumes "upsert_membership d k i g merge = Some d'" and "auth_wf d" and "valid_tenant_role (gr_role_id g)"
    and "\<And>old. valid_tenant_role (gr_role_id old) \<Longrightarrow> valid_tenant_role (gr_role_id (merge old))"
  shows "auth_wf d'"
proof -
  obtain v where v: "au_memberships d' = gput (k, i) v (au_memberships d)"
      "v = g \<or> (\<exists>old. gget (au_memberships d) (k, i) = Some old \<and> v = merge old)"
    using upsert_membership_keeps(3)[OF assms(1)] by blast
  have "valid_tenant_role (gr_role_id v)"
    using v(2) assms(2-4) by (auto simp: auth_wf_def list_all_iff dest: gget_in_set)
  then show ?thesis
    using assms(2) v(1) upsert_membership_keeps(1,2)[OF assms(1)] by (simp add: auth_wf_def list_all_gput)
qed

lemma write_audit_keeps:
  assumes "write_audit_in_tx fails d e = Inr d'"
  shows "au_tenants d' = au_tenants d" and "au_memberships d' = au_memberships d" and "au_principals d' = au_principals d"
  using assms by (auto simp: write_audit_in_tx_def split: if_splits)

text \<open>A change of a tenant role commits the membership and a higher revision together, or nothing.\<close>

lemma finish_tenant_role_cases:
  assumes "finish_tenant_role fails now op action tenant c audit d written = (r, d')"
  shows "d' = d \<or> (\<exists>d1 t. written = Some d1 \<and> gget (au_tenants d1) c = Some t \<and>
     au_tenants d' = gput c (t\<lparr>tr_authz_revision := tr_authz_revision t + 1, tr_updated_at := now\<rparr>) (au_tenants d1) \<and>
     au_memberships d' = au_memberships d1 \<and> au_principals d' = au_principals d1)"
  using assms write_audit_keeps
  by (fastforce simp: finish_tenant_role_def bump_authz_revision_def read_tenant_in_tx_def
      split: option.splits if_splits sum.splits)

lemma finish_tenant_role_later:
  assumes "finish_tenant_role fails now op action tenant c audit d (upsert_membership d c i g merge) = (r, d')"
  shows "authz_later d d'"
proof -
  consider "d' = d" | d1 t where "upsert_membership d c i g merge = Some d1" "gget (au_tenants d1) c = Some t"
      "au_tenants d' = gput c (t\<lparr>tr_authz_revision := tr_authz_revision t + 1, tr_updated_at := now\<rparr>) (au_tenants d1)"
      "au_memberships d' = au_memberships d1"
    using finish_tenant_role_cases[OF assms] by blast
  then show ?thesis
  proof cases
    case 2
    then show ?thesis
      using upsert_membership_keeps(1,3)[OF 2(1)] by (auto simp: authz_later_def)
  qed simp
qed

lemma finish_tenant_role_wf:
  assumes "finish_tenant_role fails now op action tenant c audit d (upsert_membership d c i g merge) = (r, d')"
    and "auth_wf d" and "valid_tenant_role (gr_role_id g)"
    and "\<And>old. valid_tenant_role (gr_role_id old) \<Longrightarrow> valid_tenant_role (gr_role_id (merge old))"
  shows "auth_wf d'"
proof -
  consider "d' = d" | d1 t where "upsert_membership d c i g merge = Some d1" 
      "au_tenants d' = gput c (t\<lparr>tr_authz_revision := tr_authz_revision t + 1, tr_updated_at := now\<rparr>) (au_tenants d1)"
      "au_memberships d' = au_memberships d1" "au_principals d' = au_principals d1"
    using finish_tenant_role_cases[OF assms(1)] by blast
  then show ?thesis
  proof cases
    case 2
    then show ?thesis
      using upsert_membership_wf[OF 2(1) assms(2-4)] by (simp add: auth_wf_def)
  qed (simp add: assms(2))
qed

lemma grant_tenant_role_keeps:
  assumes "grant_tenant_role uuid_ok uuid_cast fails now tenant i role actor e d = (r, d')"
  shows "authz_later d d'" and "auth_wf d \<Longrightarrow> auth_wf d'"
  using assms
  by (auto simp: grant_tenant_role_def Let_def split: if_splits option.splits
      elim!: finish_tenant_role_later finish_tenant_role_wf)

lemma revoke_tenant_role_keeps:
  assumes "revoke_tenant_role uuid_ok uuid_cast fails now tenant i actor e d = (r, d')"
  shows "authz_later d d'" and "auth_wf d \<Longrightarrow> auth_wf d'"
  using assms
  by (auto simp: revoke_tenant_role_def valid_tenant_role_def split: if_splits option.splits
      elim!: finish_tenant_role_later finish_tenant_role_wf)

lemma bootstrap_tenant_cases:
  assumes "bootstrap_tenant uuid_ok uuid_cast fails uid now tenant ns display x d = (r, d')"
  shows "d' = d \<or> (\<exists>d1 d2 c i t. insert_principal uuid_cast d uid x now = Some d1 \<and>
     (d2 = d1 \<or> gget (au_tenants d1) c = None \<and> d2 = d1\<lparr>au_tenants := gput c t (au_tenants d1)\<rparr>) \<and>
     upsert_membership d2 c i \<lparr>gr_role_id = ''tenant_admin'', gr_status = ''ACTIVE'',
       gr_granted_by = ''bootstrap'', gr_granted_at = now\<rparr> (\<lambda>old. old) = Some d')"
  using assms unfolding bootstrap_tenant_def Let_def
  by (auto split: if_splits option.splits prod.splits)

lemma upsert_membership_new_later:
  assumes "upsert_membership d k i g (\<lambda>old. old) = Some d'"
  shows "authz_later d d'"
  using assms by (auto simp: authz_later_def upsert_membership_def split: option.splits if_splits)

lemma bootstrap_tenant_keeps:
  assumes "bootstrap_tenant uuid_ok uuid_cast fails uid now tenant ns display x d = (r, d')"
  shows "authz_later d d'" and "auth_wf d \<Longrightarrow> auth_wf d'"
proof -
  let ?g = "\<lparr>gr_role_id = ''tenant_admin'', gr_status = ''ACTIVE'', gr_granted_by = ''bootstrap'', gr_granted_at = now\<rparr>"
  consider "d' = d" | d1 d2 c i t where "insert_principal uuid_cast d uid x now = Some d1"
      "d2 = d1 \<or> gget (au_tenants d1) c = None \<and> d2 = d1\<lparr>au_tenants := gput c t (au_tenants d1)\<rparr>"
      "upsert_membership d2 c i ?g (\<lambda>old. old) = Some d'"
    using bootstrap_tenant_cases[OF assms] by blast
  then have "authz_later d d' \<and> (auth_wf d \<longrightarrow> auth_wf d')"
  proof cases
    case 2
    note new = insert_principal_keeps[OF 2(1)]
    have "authz_later d d1"
      using new by (simp add: authz_later_same)
    moreover have "authz_later d1 d2"
      using 2(2) by (auto simp: authz_later_def)
    moreover have "authz_later d2 d'"
      by (rule upsert_membership_new_later[OF 2(3)])
    moreover have "auth_wf d2" if "auth_wf d"
      using 2(2) new that by (auto simp: auth_wf_def)
    then have "auth_wf d'" if "auth_wf d"
      using upsert_membership_wf[OF 2(3)] that by (simp add: valid_tenant_role_def)
    ultimately show ?thesis
      using authz_later_trans by blast
  qed simp
  then show "authz_later d d'" and "auth_wf d \<Longrightarrow> auth_wf d'"
    by auto
qed

lemma set_tenant_status_keeps:
  assumes "set_tenant_status uuid_ok uuid_cast fails now tenant status d = (r, d')"
  shows "authz_later d d'" and "auth_wf d \<Longrightarrow> auth_wf d'"
  using assms by (auto simp: set_tenant_status_def authz_later_def auth_wf_def split: if_splits option.splits)

text \<open>The other operations leave tenants and memberships alone.\<close>

lemma other_operations_keep:
  shows "write_security_audit fails d e = (r, d') \<Longrightarrow>
      au_tenants d' = au_tenants d \<and> au_memberships d' = au_memberships d \<and> au_principals d' = au_principals d"
    and "bootstrap_platform_admin fails now x d = (r, d') \<Longrightarrow>
      au_tenants d' = au_tenants d \<and> au_memberships d' = au_memberships d \<and> au_principals d' = au_principals d"
    and "revoke_sessions uuid_ok uuid_cast fails i audit d = (r', d') \<Longrightarrow>
      au_tenants d' = au_tenants d \<and> au_memberships d' = au_memberships d \<and> au_principals d' = au_principals d"
    and "change_platform_role uuid_ok uuid_cast fails active now i role actor e d = (r3, d') \<Longrightarrow>
      au_tenants d' = au_tenants d \<and> au_memberships d' = au_memberships d \<and> au_principals d' = au_principals d"
    and "set_principal_status uuid_ok uuid_cast fails now i status d = (r, d') \<Longrightarrow>
      au_tenants d' = au_tenants d \<and> au_memberships d' = au_memberships d \<and> (gwf (au_principals d) \<longrightarrow> gwf (au_principals d'))"
  by (auto simp: write_security_audit_def bootstrap_platform_admin_def upsert_platform_role_def revoke_sessions_def
      change_platform_role_def set_principal_status_def Let_def
      split: if_splits option.splits sum.splits dest: write_audit_keeps)

lemma auth_step_keeps:
  assumes "auth_step uuid_ok uuid_cast d d'"
  shows "authz_later d d'" and "auth_wf d \<Longrightarrow> auth_wf d'"
proof -
  have "authz_later d d' \<and> (auth_wf d \<longrightarrow> auth_wf d')"
    using assms
  proof cases
    case principal_step
    then show ?thesis
      using insert_principal_keeps[OF principal_step] by (auto intro: authz_later_same simp: auth_wf_def)
  next
    case tenant_step
    then show ?thesis
      using bootstrap_tenant_keeps[OF tenant_step] by simp
  next
    case tenant_status_step
    then show ?thesis
      using set_tenant_status_keeps[OF tenant_status_step] by simp
  next
    case grant_step
    then show ?thesis
      using grant_tenant_role_keeps[OF grant_step] by simp
  next
    case revoke_step
    then show ?thesis
      using revoke_tenant_role_keeps[OF revoke_step] by simp
  qed (auto dest!: other_operations_keep intro: authz_later_same simp: auth_wf_def)
  then show "authz_later d d'" and "auth_wf d \<Longrightarrow> auth_wf d'"
    by auto
qed

text \<open>
  The contract the authorizer relies on: a store of grants with a revision per tenant. A grant read
  with a revision holds for as long as the revision does.
\<close>

locale authz_store =
  fixes step :: "'d \<Rightarrow> 'd \<Rightarrow> bool"
    and revision :: "'d \<Rightarrow> 'k \<Rightarrow> int option"
    and grant :: "'d \<Rightarrow> 'k \<Rightarrow> 'p \<Rightarrow> 'g option"
  assumes step_revision: "step d d' \<Longrightarrow> revision d k = Some r \<Longrightarrow> \<exists>r'. revision d' k = Some r' \<and> r \<le> r'"
    and step_grant: "step d d' \<Longrightarrow> revision d k = Some r \<Longrightarrow> revision d' k = Some r \<Longrightarrow> grant d k p = Some g \<Longrightarrow>
      grant d' k p = Some g"
begin

lemma reach_revision: "step\<^sup>*\<^sup>* d d' \<Longrightarrow> revision d k = Some r \<Longrightarrow> \<exists>r'. revision d' k = Some r' \<and> r \<le> r'"
proof (induction rule: rtranclp_induct)
  case (step y z)
  then obtain r1 where "revision y k = Some r1" "r \<le> r1"
    by blast
  then show ?case
    using step_revision[OF step(2)] order_trans by blast
qed simp

lemma grant_current:
  assumes "step\<^sup>*\<^sup>* d d'" and "revision d k = Some r" and "revision d' k = Some r" and "grant d k p = Some g"
  shows "grant d' k p = Some g"
  using assms(1,3)
proof (induction rule: rtranclp_induct)
  case base
  then show ?case
    by (simp add: assms(4))
next
  case (step y z)
  obtain r1 where r1: "revision y k = Some r1" "r \<le> r1"
    using reach_revision[OF step(1) assms(2)] by blast
  have "r1 \<le> r"
    using step_revision[OF step(2) r1(1)] step(4) by auto
  then have same: "revision y k = Some r"
    using r1 by simp
  show ?case
    by (rule step_grant[OF step(2) same step(4) step(3)[OF same]])
qed

end

interpretation roles: authz_store "auth_step uuid_ok uuid_cast"
  "\<lambda>d k. map_option tr_authz_revision (gget (au_tenants d) k)" "\<lambda>d k p. gget (au_memberships d) (k, p)"
  for uuid_ok uuid_cast
proof unfold_locales
  fix d d' :: auth_db and k r
  assume "auth_step uuid_ok uuid_cast d d'" "map_option tr_authz_revision (gget (au_tenants d) k) = Some r"
  then show "\<exists>r'. map_option tr_authz_revision (gget (au_tenants d') k) = Some r' \<and> r \<le> r'"
    using auth_step_keeps(1) unfolding authz_later_def by fastforce
next
  fix d d' :: auth_db and k r p g
  assume "auth_step uuid_ok uuid_cast d d'" "map_option tr_authz_revision (gget (au_tenants d) k) = Some r"
    "map_option tr_authz_revision (gget (au_tenants d') k) = Some r" "gget (au_memberships d) (k, p) = Some g"
  then show "gget (au_memberships d') (k, p) = Some g"
    using auth_step_keeps(1) unfolding authz_later_def by fastforce
qed

lemma auth_reach_wf: "(auth_step uuid_ok uuid_cast)\<^sup>*\<^sup>* d d' \<Longrightarrow> auth_wf d \<Longrightarrow> auth_wf d'"
  by (induction rule: rtranclp_induct) (auto dest: auth_step_keeps(2))

section \<open>What a resolved principal holds\<close>

lemma scan_memberships_rows:
  "scan_memberships ms rows = Inr ms' \<Longrightarrow> gget ms' k = Some m \<Longrightarrow>
   gget ms k = Some m \<or> (\<exists>t g. (k, t, g) \<in> set rows \<and> mb_active m = (tr_status t = ''ACTIVE'' \<and> gr_status g = ''ACTIVE'') \<and>
     set (mb_permissions m) = set (permissions_for_role (gr_role_id g)) \<and> mb_policy_revision m = dec_int (tr_authz_revision t))"
proof (induction ms rows rule: scan_memberships.induct)
  case (2 ms tenant t g rows)
  then show ?case
    by (fastforce simp: new_membership_def split: sum.splits if_splits)
qed simp

lemma scan_memberships_gwf: "scan_memberships ms rows = Inr ms' \<Longrightarrow> gwf ms \<Longrightarrow> gwf ms'"
  by (induction ms rows rule: scan_memberships.induct) (auto split: sum.splits)

lemma scan_platform_tenants_keeps:
  "scan_platform_tenants ms rows = Inr ms' \<Longrightarrow> gget ms k = Some m \<Longrightarrow> gget ms' k = Some m"
  by (induction ms rows rule: scan_platform_tenants.induct) (fastforce split: sum.splits if_splits)+

lemma membership_rows_set:
  assumes "auth_wf d" and "(k, t, g) \<in> set (membership_rows d i)"
  shows "gget (au_memberships d) (k, i) = Some g" and "gget (au_tenants d) k = Some t"
proof -
  have "gwf (au_memberships d)"
    using assms(1) by (simp add: auth_wf_def)
  then show "gget (au_memberships d) (k, i) = Some g" and "gget (au_tenants d) k = Some t"
    using assms(2) by (auto simp: membership_rows_def map_filter_def gwf_in_set_iff split: if_splits)
qed

lemma load_platform_role_cases:
  assumes "load_platform_role fails d3 d4 p = Inr q"
  shows "pc_id q = pc_id p"
    and "pc_platform_admin q \<Longrightarrow> platform_admin_row d3 (pc_id p)"
    and "\<not> pc_platform_admin q \<Longrightarrow> pc_memberships q = pc_memberships p"
    and "gget (pc_memberships p) k = Some m \<Longrightarrow> gget (pc_memberships q) k = Some m"
  using assms by (auto simp: load_platform_role_def scan_platform_tenants_keeps split: if_splits sum.splits)

lemma insert_principal_reach:
  "insert_principal uuid_cast d uid x now = Some d' \<Longrightarrow> (auth_step uuid_ok uuid_cast)\<^sup>*\<^sup>* d d'"
  by (blast intro: auth_step.principal_step)

text \<open>
  The principal that a resolution returns carries the rows of one moment \<open>d2\<close> of the resolution, and
  is a platform administrator only by a row of a later moment \<open>d3\<close>.
\<close>

lemma resolve_or_create_cases:
  assumes "resolve_or_create_principal uuid_cast fails others uid now x d = (Inr p, d')"
  obtains d0 where "insert_principal uuid_cast (others 0 d) uid x now = Some d0" and "d' = others 1 d0"
      and "pc_memberships p = []" and "\<not> pc_platform_admin p" and "\<not> pc_active p"
  | d0 p0 ms s where "insert_principal uuid_cast (others 0 d) uid x now = Some d0"
      and "scan_memberships [] (membership_rows (others 2 (others 1 d0)) (pc_id p0)) = Inr ms"
      and "load_platform_role fails (others 3 (others 2 (others 1 d0))) (others 4 (others 3 (others 2 (others 1 d0))))
        (p0\<lparr>pc_memberships := ms\<rparr>) = Inr p"
      and "d' = others 4 (others 3 (others 2 (others 1 d0)))"
      and "principal_with (others 1 d0) (xi_issuer x) (xi_subject x) = Some (pc_id p0, s)"
proof -
  obtain d0 where d0: "insert_principal uuid_cast (others 0 d) uid x now = Some d0"
    using assms by (auto simp: resolve_or_create_principal_def Let_def split: if_splits option.splits)
  obtain i r where ir: "principal_with (others 1 d0) (xi_issuer x) (xi_subject x) = Some (i, r)"
      "\<not> fails ''read OIDC principal''"
    using assms d0 by (auto simp: resolve_or_create_principal_def Let_def split: if_splits option.splits)
  show ?thesis
  proof (cases "pr_status r = ''ACTIVE''")
    case True
    let ?p0 = "\<lparr>pc_id = i, pc_issuer = pr_issuer r, pc_subject = pr_subject r, pc_active = True,
      pc_service = False, pc_platform_admin = False, pc_policy_revision = ''principal:'' @ i, pc_memberships = []\<rparr>"
    let ?d2 = "others 2 (others 1 d0)"
    note run = assms[unfolded resolve_or_create_principal_def Let_def]
    show ?thesis
    proof (cases "scan_memberships [] (membership_rows ?d2 i)")
      case (Inl e)
      then show ?thesis
        using run d0 ir True by (simp split: if_splits)
    next
      case (Inr ms)
      have loaded: "load_platform_role fails (others 3 ?d2) (others 4 (others 3 ?d2)) (?p0\<lparr>pc_memberships := ms\<rparr>) = Inr p \<and>
          others 4 (others 3 ?d2) = d'"
        using run d0 ir True Inr by (auto split: if_splits)
      show ?thesis
        by (rule that(2)[OF d0 _ conjunct1[OF loaded] conjunct2[OF loaded, symmetric]]) (use Inr ir(1) in simp_all)
    qed
  next
    case False
    show ?thesis
      by (rule that(1)[of d0])
        (use assms d0 ir False in \<open>auto simp: resolve_or_create_principal_def Let_def split: if_splits\<close>)
  qed
qed

text \<open>
  The principal that a resolution returns carries the rows of one moment \<open>d2\<close> of the resolution, and
  is a platform administrator only by a row of a later moment \<open>d3\<close>.
\<close>

lemma resolved_principal:
  assumes resolve: "resolve_or_create_principal uuid_cast fails others uid now x d = (Inr p, d')"
    and wf: "auth_wf d"
    and others: "\<And>n c. (auth_step uuid_ok uuid_cast)\<^sup>*\<^sup>* c (others n c)"
  obtains d2 d3 where "(auth_step uuid_ok uuid_cast)\<^sup>*\<^sup>* d d2" and "(auth_step uuid_ok uuid_cast)\<^sup>*\<^sup>* d2 d3" and "(auth_step uuid_ok uuid_cast)\<^sup>*\<^sup>* d3 d'" and "auth_wf d2"
    and "pc_platform_admin p \<Longrightarrow> platform_admin_row d3 (pc_id p)"
    and "\<And>k m. (k, m) \<in> set (pc_memberships p) \<Longrightarrow> \<not> pc_platform_admin p \<Longrightarrow>
      \<exists>t g. gget (au_memberships d2) (k, pc_id p) = Some g \<and> gget (au_tenants d2) k = Some t \<and>
        mb_active m = (tr_status t = ''ACTIVE'' \<and> gr_status g = ''ACTIVE'') \<and>
        set (mb_permissions m) = set (permissions_for_role (gr_role_id g)) \<and>
        mb_policy_revision m = dec_int (tr_authz_revision t)"
proof -
  let ?reach = "(auth_step uuid_ok uuid_cast)\<^sup>*\<^sup>*"
  have started: "?reach d (others 1 d0)" if "insert_principal uuid_cast (others 0 d) uid x now = Some d0" for d0
    by (rule rtranclp_trans[OF others rtranclp_trans[OF insert_principal_reach[OF that] others]])
  show ?thesis
    using resolve
  proof (cases rule: resolve_or_create_cases)
    case (1 d0)
    have "?reach d d'"
      unfolding 1(2) by (rule started[OF 1(1)])
    then show ?thesis
      using that[of d' d'] auth_reach_wf[OF _ wf] 1 by simp
  next
    case (2 d0 p0 ms s)
    let ?d2 = "others 2 (others 1 d0)"
    let ?d3 = "others 3 ?d2"
    have reach: "?reach d ?d2"
      by (rule rtranclp_trans[OF started[OF 2(1)] others])
    note wf2 = auth_reach_wf[OF reach wf] and load = load_platform_role_cases[OF 2(3)]
    show ?thesis
    proof (rule that[of ?d2 ?d3, OF reach others _ wf2])
      show "?reach ?d3 d'"
        using others 2(4) by simp
      show "platform_admin_row ?d3 (pc_id p)" if "pc_platform_admin p"
        using load(1,2) that by simp
      fix k m assume "(k, m) \<in> set (pc_memberships p)" "\<not> pc_platform_admin p"
      then have "gget ms k = Some m"
        using load(3) gwf_in_set_iff[OF scan_memberships_gwf[OF 2(2) gwf_Nil]] by simp
      from scan_memberships_rows[OF 2(2) this] show "\<exists>t g. gget (au_memberships ?d2) (k, pc_id p) = Some g \<and>
          gget (au_tenants ?d2) k = Some t \<and> mb_active m = (tr_status t = ''ACTIVE'' \<and> gr_status g = ''ACTIVE'') \<and>
          set (mb_permissions m) = set (permissions_for_role (gr_role_id g)) \<and>
          mb_policy_revision m = dec_int (tr_authz_revision t)"
        using membership_rows_set[OF wf2] load(1) by fastforce
    qed
  qed
qed

end
