(* ===== verification/AuthInterceptor.thy ===== *)
theory AuthInterceptor
  imports AuthRepository
begin

text \<open>
  The deny-by-default policy of the API server: the registry and the unary interceptor of
  \<open>control-plane/api-server/internal/authn/interceptor.go\<close>, the tenant envelope of
  \<open>tenant_metadata.go\<close>, and the bearer authenticator of \<open>control-plane/auth/authentication.go\<close>. A call
  of the interceptor gives what the client or the handler sees, the observed metrics and the audit
  events it tries to write. The validation of a token is an argument; the check that no dependency is
  nil is left out.
\<close>

section \<open>Requests and policies\<close>

datatype validation_purpose = PurposeCreate | PurposeUpdate | PurposeStart | PurposeOther

text \<open>What the policies read of a request: the getters its type has.\<close>

record api_request =
  rq_namespace :: "string option"
  rq_tenant_id :: "string option"
  rq_purpose :: "validation_purpose option"

datatype policy_scope = JobScope | TenantIdScope | SelfScope

datatype policy_permission = FixedPermission string | ValidationPermission

type_synonym rpc_policy = "policy_permission \<times> policy_scope"

fun policy_permission_of :: "policy_permission \<Rightarrow> api_request \<Rightarrow> string option" where
  "policy_permission_of (FixedPermission p) rq = (if p = [] then None else Some p)"
| "policy_permission_of ValidationPermission rq =
     (case rq_purpose rq of
        Some PurposeCreate \<Rightarrow> Some ''jobs.create''
      | Some PurposeUpdate \<Rightarrow> Some ''jobs.update''
      | Some PurposeStart \<Rightarrow> Some ''jobs.start''
      | _ \<Rightarrow> None)"

fun policy_scope_of :: "policy_scope \<Rightarrow> api_request \<Rightarrow> string option" where
  "policy_scope_of JobScope rq = (case rq_namespace rq of None \<Rightarrow> None | Some s \<Rightarrow> if blank s then None else Some s)"
| "policy_scope_of TenantIdScope rq = (case rq_tenant_id rq of None \<Rightarrow> None | Some s \<Rightarrow> if blank s then None else Some s)"
| "policy_scope_of SelfScope rq = None"

record registry_policies =
  rg_policies :: "(string, rpc_policy) gomap"
  rg_public_methods :: "string list"

definition full_method :: "string \<Rightarrow> string \<Rightarrow> string" where
  "full_method service rpc = ''/'' @ service @ ''/'' @ rpc"

definition control_methods :: "string \<Rightarrow> policy_scope \<Rightarrow> (string \<times> policy_permission) list \<Rightarrow> (string, rpc_policy) gomap" where
  "control_methods service scope rpcs =
     map (\<lambda>(rpc, p). (full_method (''astra.control.v1.'' @ service) rpc, (p, scope))) rpcs"

definition new_policy_registry :: registry_policies where
  "new_policy_registry = \<lparr>rg_policies =
     control_methods ''JobService'' JobScope
       [(''CreateJob'', FixedPermission ''jobs.create''), (''GetJob'', FixedPermission ''jobs.read''),
        (''ListJobs'', FixedPermission ''jobs.read''), (''UpdateJob'', FixedPermission ''jobs.update''),
        (''DeleteJob'', FixedPermission ''jobs.delete''), (''StartJob'', FixedPermission ''jobs.start''),
        (''StopJob'', FixedPermission ''jobs.stop''), (''GetJobStatus'', FixedPermission ''jobs.read'')] @
     control_methods ''JobValidationService'' JobScope [(''ValidateJobSpec'', ValidationPermission)] @
     control_methods ''ConnectorCatalogService'' TenantIdScope
       [(''ListConnectorDescriptors'', FixedPermission ''connectors.read''),
        (''GetConnectorDescriptor'', FixedPermission ''connectors.read'')] @
     control_methods ''ConnectionService'' TenantIdScope
       [(''CreateConnection'', FixedPermission ''connections.create''), (''GetConnection'', FixedPermission ''connections.read''),
        (''ListConnections'', FixedPermission ''connections.read''), (''UpdateConnection'', FixedPermission ''connections.update''),
        (''RotateConnection'', FixedPermission ''connections.rotate''),
        (''EnableConnection'', FixedPermission ''connections.disable''),
        (''DisableConnection'', FixedPermission ''connections.disable''),
        (''DeleteConnection'', FixedPermission ''connections.delete''), (''TestConnection'', FixedPermission ''connections.test''),
        (''GetConnectionTest'', FixedPermission ''connections.test'')] @
     control_methods ''AuditService'' TenantIdScope [(''ListAuditEvents'', FixedPermission ''audit.read'')] @
     control_methods ''IdentityService'' SelfScope
       [(''GetCurrentPrincipal'', FixedPermission ''diagnostics.read''), (''ListTenants'', FixedPermission ''diagnostics.read'')] @
     control_methods ''AccessService'' TenantIdScope
       [(''ListMembers'', FixedPermission ''members.read''), (''GrantTenantRole'', FixedPermission ''members.manage''),
        (''RevokeTenantRole'', FixedPermission ''members.manage'')] @
     control_methods ''AccessService'' SelfScope
       [(''ListRoles'', FixedPermission ''members.read''), (''GrantPlatformRole'', FixedPermission ''platform.roles.manage''),
        (''RevokePlatformRole'', FixedPermission ''platform.roles.manage''),
        (''RevokeConsoleSession'', FixedPermission ''platform.roles.manage'')] @
     control_methods ''RegionTopologyService'' SelfScope [(''GetRegionTopology'', FixedPermission ''diagnostics.read'')] @
     control_methods ''ReplicationService'' SelfScope
       [(''PushCheckpoint'', FixedPermission ''diagnostics.read''),
        (''ReportReplicationStatus'', FixedPermission ''diagnostics.read'')] @
     control_methods ''RegionPromotionService'' SelfScope
       [(''PromoteRegion'', FixedPermission ''diagnostics.read''), (''GetPromotionStatus'', FixedPermission ''diagnostics.read'')] @
     control_methods ''RegionRecoveryService'' SelfScope [(''RecoverForPromotion'', FixedPermission ''diagnostics.read'')],
     rg_public_methods = []\<rparr>"

text \<open>A service description lists the unary methods and the streams of a service apart.\<close>

record service_desc =
  sd_service_name :: string
  sd_methods :: "string list"
  sd_streams :: "string list"

definition validate_services :: "registry_policies \<Rightarrow> service_desc list \<Rightarrow> string option" where
  "validate_services r services =
     (let registered = concat (map (\<lambda>s. map (full_method (sd_service_name s)) (sd_methods s)) services)
      in case find (\<lambda>m. gget (rg_policies r) m = None) registered of
           Some m \<Rightarrow> Some (''public gRPC method '' @ m @ '' has no authorization policy'')
         | None \<Rightarrow>
            (case find (\<lambda>m. m \<notin> set registered) (map fst (rg_policies r)) of
               Some m \<Rightarrow> Some (''authorization policy '' @ m @ '' has no registered public method'')
             | None \<Rightarrow> None))"

definition public_method :: "registry_policies \<Rightarrow> string \<Rightarrow> registry_policies" where
  "public_method r m = r\<lparr>rg_public_methods := List.insert m (rg_public_methods r)\<rparr>"

definition require_public_method :: "registry_policies \<Rightarrow> string \<Rightarrow> bool" where
  "require_public_method r m \<longleftrightarrow> m \<in> set (rg_public_methods r)"

section \<open>Authentication\<close>

text \<open>Metadata: the values of a key.\<close>

type_synonym metadata = "string \<Rightarrow> string list"

definition bearer_token :: "metadata \<Rightarrow> string option" where
  "bearer_token md =
     (case md ''authorization'' of
        [v] \<Rightarrow>
          (let scheme = takeWhile (\<lambda>c. c \<noteq> CHR '' '') v;
               rest = dropWhile (\<lambda>c. c \<noteq> CHR '' '') v
           in if length v > 20 * 1024 \<or> rest = [] \<or> scheme \<noteq> ''Bearer'' \<or> blank (tl rest) then None else Some (tl rest))
      | _ \<Rightarrow> None)"

definition request_id_from_metadata :: "metadata \<Rightarrow> string" where
  "request_id_from_metadata md =
     (case md ''x-request-id'' of
        [v] \<Rightarrow> if length v > 0 \<and> length v \<le> 128 then v else ''missing-request-id''
      | _ \<Rightarrow> ''missing-request-id'')"

definition bearer_authenticate ::
  "(string \<Rightarrow> auth_error + external_identity) \<Rightarrow> (external_identity \<Rightarrow> auth_error + principal) \<Rightarrow> string \<Rightarrow>
   auth_error + principal" where
  "bearer_authenticate validate_token resolve token =
     (case validate_token token of
        Inl _ \<Rightarrow> Inl AuthUnauthenticated
      | Inr x \<Rightarrow>
         (case resolve x of
            Inl e \<Rightarrow> Inl e
          | Inr p \<Rightarrow> if \<not> pc_active p then Inl AuthUnauthenticated else Inr p))"

section \<open>The interceptor\<close>

datatype tenant_envelope = EnvelopeAbsent | EnvelopeInvalid | EnvelopeTenant string

definition job_tenant_id_from_metadata :: "(string \<Rightarrow> bool) \<Rightarrow> metadata \<Rightarrow> tenant_envelope" where
  "job_tenant_id_from_metadata uuid_ok md =
     (case md ''x-astra-tenant-id'' of
        [] \<Rightarrow> EnvelopeAbsent
      | [v] \<Rightarrow> if uuid_ok (trim_space v) then EnvelopeTenant (trim_space v) else EnvelopeInvalid
      | _ \<Rightarrow> EnvelopeInvalid)"

definition principal_has_permission :: "principal \<Rightarrow> string \<Rightarrow> bool" where
  "principal_has_permission p permission \<longleftrightarrow>
     pc_platform_admin p \<or> list_ex (\<lambda>(_, m). mb_active m \<and> membership_has m permission) (pc_memberships p)"

definition auth_metric_outcome :: "auth_error \<Rightarrow> string" where
  "auth_metric_outcome e =
     (if err_is e AuthPolicyStale then ''failure''
      else if e = AuthPermissionDenied \<or> err_is e AuthTenantUnavailable \<or> err_is e AuthUnauthenticated then ''rejected''
      else ''failure'')"

definition denial_outcome :: "auth_error \<Rightarrow> string" where
  "denial_outcome e =
     (if err_is e AuthPolicyStale then ''POLICY_STALE''
      else if err_is e AuthTenantUnavailable then ''TENANT_DENIED''
      else ''PERMISSION_DENIED'')"

datatype grpc_code = CodePermissionDenied | CodeUnauthenticated | CodeInternal | CodeInvalidArgument

text \<open>
  A call: its method, its metadata and request, the identifier for an audit event, and the readings of
  the clock at the start, at the observation and at the audit event.
\<close>

record rpc_call =
  rc_full_method :: string
  rc_metadata :: metadata
  rc_request :: api_request
  rc_event_id :: string
  rc_started_at :: instant
  rc_observed_at :: instant
  rc_audited_at :: instant

text \<open>
  What a call comes to: a status for the client, or the call of the handler with the principal and
  the tenant its context carries; the observations (tenant, outcome, request identifier, duration)
  and the audit events handed to the writer, whose error the code ignores.
\<close>

datatype unary_result = Denied grpc_code | HandlerCalled "principal option" "string option"

record unary_run =
  un_result :: unary_result
  un_observed :: "(string \<times> string \<times> string \<times> int) list"
  un_audited :: "security_audit_event list"

definition observe_auth_decision :: "rpc_call \<Rightarrow> string \<Rightarrow> string \<Rightarrow> string \<times> string \<times> string \<times> int" where
  "observe_auth_decision c tenant outcome =
     (tenant, outcome, request_id_from_metadata (rc_metadata c), max 0 (rc_observed_at c - rc_started_at c))"

definition audit_denied :: "rpc_call \<Rightarrow> string \<Rightarrow> string \<Rightarrow> string \<Rightarrow> security_audit_event" where
  "audit_denied c principal_id tenant outcome =
     \<lparr>sa_event_id = rc_event_id c, sa_event_type = ''authorization.denied'',
      sa_actor_id = (if principal_id = [] then ''anonymous'' else principal_id), sa_tenant_id = tenant,
      sa_request_id = request_id_from_metadata (rc_metadata c), sa_outcome = outcome,
      sa_attributes = [(''method'', rc_full_method c)], sa_occurred_at = rc_audited_at c\<rparr>"

text \<open>A denial observes an outcome and audits another, for a principal that may be unknown.\<close>

definition denied :: "rpc_call \<Rightarrow> grpc_code \<Rightarrow> string \<Rightarrow> string \<Rightarrow> (string \<times> string \<times> string) option \<Rightarrow> unary_run" where
  "denied c code tenant outcome audit =
     \<lparr>un_result = Denied code, un_observed = [observe_auth_decision c tenant outcome],
      un_audited = (case audit of None \<Rightarrow> [] | Some (i, k, text) \<Rightarrow> [audit_denied c i k text])\<rparr>"

definition handled :: "rpc_call \<Rightarrow> principal \<Rightarrow> string option \<Rightarrow> string \<Rightarrow> unary_run" where
  "handled c p carried tenant =
     \<lparr>un_result = HandlerCalled (Some p) carried, un_observed = [observe_auth_decision c tenant ''success''], un_audited = []\<rparr>"

definition with_job_tenant_id :: "(string \<Rightarrow> bool) \<Rightarrow> string \<Rightarrow> string option" where
  "with_job_tenant_id uuid_ok tenant = (if uuid_ok tenant then Some tenant else None)"

text \<open>The outcome audited when the envelope does not fit the tenant.\<close>

definition reconcile_tenant_metadata :: "(string \<Rightarrow> bool) \<Rightarrow> metadata \<Rightarrow> string \<Rightarrow> string option" where
  "reconcile_tenant_metadata uuid_ok md resolved =
     (case job_tenant_id_from_metadata uuid_ok md of
        EnvelopeInvalid \<Rightarrow> Some ''TENANT_ENVELOPE_INVALID''
      | EnvelopeAbsent \<Rightarrow> None
      | EnvelopeTenant declared \<Rightarrow> if declared \<noteq> resolved then Some ''TENANT_DENIED'' else None)"

text \<open>The part of \<open>Unary\<close> from the scope of a request on.\<close>

definition unary_scoped ::
  "(string \<Rightarrow> bool) \<Rightarrow> (principal \<Rightarrow> string \<Rightarrow> string \<Rightarrow> auth_error + decision) \<Rightarrow> rpc_call \<Rightarrow> principal \<Rightarrow> string \<Rightarrow>
   policy_scope \<Rightarrow> unary_run" where
  "unary_scoped uuid_ok authorize c p permission source =
     (case policy_scope_of source (rc_request c) of
        None \<Rightarrow> denied c CodeInvalidArgument ''_unknown'' ''rejected'' (Some (pc_id p, [], ''INVALID_SCOPE''))
      | Some scope \<Rightarrow>
         (case membership_for_scope p scope of
            None \<Rightarrow> denied c CodePermissionDenied ''_unknown'' ''rejected'' (Some (pc_id p, [], ''TENANT_DENIED''))
          | Some m \<Rightarrow>
             (case reconcile_tenant_metadata uuid_ok (rc_metadata c) (mb_tenant_id m) of
                Some text \<Rightarrow> denied c CodePermissionDenied (mb_tenant_id m) ''rejected'' (Some (pc_id p, mb_tenant_id m, text))
              | None \<Rightarrow>
                 (case authorize p (mb_tenant_id m) permission of
                    Inl e \<Rightarrow> denied c CodePermissionDenied (mb_tenant_id m) (auth_metric_outcome e)
                      (Some (pc_id p, mb_tenant_id m, denial_outcome e))
                  | Inr _ \<Rightarrow> handled c p (with_job_tenant_id uuid_ok (mb_tenant_id m)) (mb_tenant_id m)))))"

definition unary ::
  "(string \<Rightarrow> bool) \<Rightarrow> registry_policies \<Rightarrow> (string \<Rightarrow> auth_error + principal) \<Rightarrow>
   (principal \<Rightarrow> string \<Rightarrow> string \<Rightarrow> auth_error + decision) \<Rightarrow> rpc_call \<Rightarrow> unary_run" where
  "unary uuid_ok r authenticate authorize c =
     (if require_public_method r (rc_full_method c)
      then \<lparr>un_result = HandlerCalled None None, un_observed = [], un_audited = []\<rparr>
      else case gget (rg_policies r) (rc_full_method c) of
        None \<Rightarrow> denied c CodePermissionDenied ''_unknown'' ''failure'' (Some ([], [], ''UNMAPPED_METHOD''))
      | Some (permission_source, scope_source) \<Rightarrow>
         (case bearer_token (rc_metadata c) of
            None \<Rightarrow> denied c CodeUnauthenticated ''_unknown'' ''rejected'' (Some ([], [], ''UNAUTHENTICATED''))
          | Some token \<Rightarrow>
             (case authenticate token of
                Inl e \<Rightarrow>
                  if \<not> err_is e AuthUnauthenticated
                  then denied c CodeInternal ''_unknown'' ''failure'' (Some ([], [], ''UNAUTHENTICATED''))
                  else denied c CodeUnauthenticated ''_unknown'' ''rejected'' (Some ([], [], ''UNAUTHENTICATED''))
              | Inr p \<Rightarrow>
                 (case policy_permission_of permission_source (rc_request c) of
                    None \<Rightarrow> denied c CodeInvalidArgument ''_unknown'' ''rejected'' (Some (pc_id p, [], ''INVALID_POLICY_INPUT''))
                  | Some permission \<Rightarrow>
                     (case with_principal p of
                        Inl _ \<Rightarrow> denied c CodeInternal ''_unknown'' ''failure'' None
                      | Inr carried \<Rightarrow>
                          if scope_source = SelfScope then
                            if \<not> principal_has_permission p permission
                            then denied c CodePermissionDenied ''_platform'' ''rejected'' (Some (pc_id p, [], ''PERMISSION_DENIED''))
                            else handled c carried None ''_platform''
                          else unary_scoped uuid_ok authorize c carried permission scope_source)))))"

section \<open>The interceptor of the server\<close>

text \<open>
  The wiring of \<open>cmd/server/main.go\<close> for OIDC: the bearer authenticator and the authorizer on the
  repository. The authorizer reads the revision after the resolution of the principal and after what
  other requests do then, \<open>others 5\<close>.
\<close>

definition after_authentication ::
  "(string \<Rightarrow> string option) \<Rightarrow> (string \<Rightarrow> bool) \<Rightarrow> (nat \<Rightarrow> auth_db \<Rightarrow> auth_db) \<Rightarrow> string \<Rightarrow> instant \<Rightarrow>
   (string \<Rightarrow> auth_error + external_identity) \<Rightarrow> auth_db \<Rightarrow> rpc_call \<Rightarrow> auth_db" where
  "after_authentication uuid_cast fails others uid now validate_token d c =
     (case bearer_token (rc_metadata c) of
        None \<Rightarrow> d
      | Some token \<Rightarrow>
         (case validate_token token of
            Inl _ \<Rightarrow> d
          | Inr x \<Rightarrow> others 5 (snd (resolve_or_create_principal uuid_cast fails others uid now x d))))"

definition oidc_unary ::
  "(string \<Rightarrow> bool) \<Rightarrow> (string \<Rightarrow> string option) \<Rightarrow> (string \<Rightarrow> bool) \<Rightarrow> (nat \<Rightarrow> auth_db \<Rightarrow> auth_db) \<Rightarrow> string \<Rightarrow> instant \<Rightarrow>
   (string \<Rightarrow> auth_error + external_identity) \<Rightarrow> auth_db \<Rightarrow> rpc_call \<Rightarrow> unary_run" where
  "oidc_unary uuid_ok uuid_cast fails others uid now validate_token d c =
     unary uuid_ok new_policy_registry
       (bearer_authenticate validate_token (\<lambda>x. fst (resolve_or_create_principal uuid_cast fails others uid now x d)))
       (\<lambda>p. context_authorize
         (Some (current_policy_revision uuid_cast fails (after_authentication uuid_cast fails others uid now validate_token d c)))
         (Some p)) c"

text \<open>The services that the server registers, from their generated descriptions.\<close>

definition control_services :: "service_desc list" where
  "control_services = map (\<lambda>(name, methods, streams).
      \<lparr>sd_service_name = ''astra.control.v1.'' @ name, sd_methods = methods, sd_streams = streams\<rparr>)
     [(''JobService'', [''CreateJob'', ''GetJob'', ''ListJobs'', ''UpdateJob'', ''DeleteJob'', ''StartJob'', ''StopJob'',
        ''GetJobStatus''], []),
      (''JobValidationService'', [''ValidateJobSpec''], []),
      (''ConnectorCatalogService'', [''ListConnectorDescriptors'', ''GetConnectorDescriptor''], []),
      (''ConnectionService'', [''CreateConnection'', ''GetConnection'', ''ListConnections'', ''UpdateConnection'',
        ''RotateConnection'', ''EnableConnection'', ''DisableConnection'', ''DeleteConnection'', ''TestConnection'',
        ''GetConnectionTest''], []),
      (''AuditService'', [''ListAuditEvents''], []),
      (''IdentityService'', [''GetCurrentPrincipal'', ''ListTenants''], []),
      (''AccessService'', [''ListMembers'', ''GrantTenantRole'', ''RevokeTenantRole'', ''ListRoles'', ''GrantPlatformRole'',
        ''RevokePlatformRole'', ''RevokeConsoleSession''], []),
      (''RegionTopologyService'', [''GetRegionTopology''], [''StreamTopologyUpdates'']),
      (''ReplicationService'', [''PushCheckpoint'', ''ReportReplicationStatus''], [''StreamCheckpoints'']),
      (''RegionPromotionService'', [''PromoteRegion'', ''GetPromotionStatus''], []),
      (''RegionRecoveryService'', [''RecoverForPromotion''], [])]"

section \<open>What the interceptor admits\<close>

lemma unary_handled:
  assumes "un_result (unary uuid_ok r authenticate authorize c) = HandlerCalled p carried"
    and "rg_public_methods r = []"
  obtains source scope token q permission where "gget (rg_policies r) (rc_full_method c) = Some (source, scope)"
    and "bearer_token (rc_metadata c) = Some token" and "authenticate token = Inr q"
    and "policy_permission_of source (rc_request c) = Some permission" and "with_principal q = Inr q" and "p = Some q"
    and "scope = SelfScope \<Longrightarrow> carried = None \<and> principal_has_permission q permission"
    and "scope \<noteq> SelfScope \<Longrightarrow> \<exists>tenant e. carried = with_job_tenant_id uuid_ok tenant \<and> authorize q tenant permission = Inr e"
proof -
  note step = assms unary_def denied_def require_public_method_def
  obtain source scope where 1: "gget (rg_policies r) (rc_full_method c) = Some (source, scope)"
    using step by (cases "gget (rg_policies r) (rc_full_method c)") auto
  obtain token where 2: "bearer_token (rc_metadata c) = Some token"
    using step 1 by (cases "bearer_token (rc_metadata c)") auto
  obtain q where 3: "authenticate token = Inr q"
    using step 1 2 by (cases "authenticate token") (auto split: if_splits)
  obtain permission where 4: "policy_permission_of source (rc_request c) = Some permission"
    using step 1 2 3 by (cases "policy_permission_of source (rc_request c)") auto
  have 5: "with_principal q = Inr q"
    using step 1 2 3 4 by (auto simp: with_principal_def split: if_splits)
  note run = assms(1)[unfolded unary_def require_public_method_def assms(2)]
  have "p = Some q"
    using run 1 2 3 4 5
    by (auto simp: unary_scoped_def denied_def handled_def split: if_splits option.splits sum.splits)
  moreover have "carried = None \<and> principal_has_permission q permission" if "scope = SelfScope"
    using run 1 2 3 4 5 that by (auto simp: denied_def handled_def split: if_splits)
  moreover have "\<exists>tenant e. carried = with_job_tenant_id uuid_ok tenant \<and> authorize q tenant permission = Inr e"
    if "scope \<noteq> SelfScope"
    using run 1 2 3 4 5 that
    by (auto simp: unary_scoped_def denied_def handled_def split: if_splits option.splits sum.splits)
  ultimately show ?thesis
    using that 1 2 3 4 5 by blast
qed

lemma no_public_methods [simp]: "rg_public_methods new_policy_registry = []"
  by (simp add: new_policy_registry_def)

lemma context_authorize_granted:
  assumes "context_authorize (Some current) (Some p) tenant permission = Inr e"
  obtains m where "gget (pc_memberships p) tenant = Some m" and "mb_active m" and "membership_has m permission"
    and "current tenant = Inr (policy_revision_of p m)"
  using assms by (auto simp: context_authorize_def Let_def split: if_splits option.splits sum.splits)

text \<open>The principal a handler gets from the server, and the moments of its resolution.\<close>

lemma oidc_principal:
  assumes "bearer_token (rc_metadata c) = Some token"
    and "bearer_authenticate validate_token (\<lambda>x. fst (resolve_or_create_principal uuid_cast fails others uid now x d)) token = Inr q"
    and wf: "auth_wf d"
    and others: "\<And>n e. (auth_step uuid_ok uuid_cast)\<^sup>*\<^sup>* e (others n e)"
  obtains d2 d3 where "(auth_step uuid_ok uuid_cast)\<^sup>*\<^sup>* d d2" and "(auth_step uuid_ok uuid_cast)\<^sup>*\<^sup>* d2 d3"
    and "(auth_step uuid_ok uuid_cast)\<^sup>*\<^sup>* d3 (after_authentication uuid_cast fails others uid now validate_token d c)"
    and "auth_wf d2" and "pc_active q"
    and "pc_platform_admin q \<Longrightarrow> platform_admin_row d3 (pc_id q)"
    and "\<And>k m. (k, m) \<in> set (pc_memberships q) \<Longrightarrow> \<not> pc_platform_admin q \<Longrightarrow>
      \<exists>t g. gget (au_memberships d2) (k, pc_id q) = Some g \<and> gget (au_tenants d2) k = Some t \<and>
        mb_active m = (tr_status t = ''ACTIVE'' \<and> gr_status g = ''ACTIVE'') \<and>
        set (mb_permissions m) = set (permissions_for_role (gr_role_id g)) \<and>
        mb_policy_revision m = dec_int (tr_authz_revision t)"
proof -
  obtain x where x: "validate_token token = Inr x"
      "fst (resolve_or_create_principal uuid_cast fails others uid now x d) = Inr q" "pc_active q"
    using assms(2) by (auto simp: bearer_authenticate_def split: sum.splits if_splits)
  define d' where "d' = snd (resolve_or_create_principal uuid_cast fails others uid now x d)"
  have resolve: "resolve_or_create_principal uuid_cast fails others uid now x d = (Inr q, d')"
    using x(2) by (simp add: d'_def prod_eq_iff)
  have after: "after_authentication uuid_cast fails others uid now validate_token d c = others 5 d'"
    using assms(1) x(1) by (simp add: after_authentication_def d'_def)
  show ?thesis
    by (rule resolved_principal[OF resolve wf others])
      (rule that, assumption, assumption, unfold after, erule rtranclp_trans[OF _ others], use x(3) in auto)
qed

lemma granted_now:
  assumes reach: "(auth_step uuid_ok uuid_cast)\<^sup>*\<^sup>* d2 dc"
    and current: "current_policy_revision uuid_cast fails dc tenant = Inr (policy_revision_of q m)"
    and cast: "uuid_cast tenant = Some tenant"
  obtains t where "gget (au_tenants dc) tenant = Some t" and "tr_status t = ''ACTIVE''"
    and "\<And>t2 g. gget (au_tenants d2) tenant = Some t2 \<Longrightarrow> mb_policy_revision m = dec_int (tr_authz_revision t2) \<Longrightarrow>
      gget (au_memberships d2) (tenant, i) = Some g \<Longrightarrow> gget (au_memberships dc) (tenant, i) = Some g"
proof -
  obtain t where t: "gget (au_tenants dc) tenant = Some t" "tr_status t = ''ACTIVE''"
      "dec_int (tr_authz_revision t) = policy_revision_of q m"
    using current cast by (auto simp: current_policy_revision_def split: if_splits option.splits)
  have "gget (au_memberships dc) (tenant, i) = Some g"
    if "gget (au_tenants d2) tenant = Some t2" "mb_policy_revision m = dec_int (tr_authz_revision t2)"
      "gget (au_memberships d2) (tenant, i) = Some g" for t2 g
  proof -
    have "tr_authz_revision t2 = tr_authz_revision t"
      using that(2) t(3) dec_int_inject by (simp add: policy_revision_of_def)
    then show ?thesis
      using roles.grant_current[OF reach, of tenant "tr_authz_revision t"] that(1,3) t(1) by simp
  qed
  then show ?thesis
    using that t(1,2) by blast
qed

lemma oidc_handled:
  assumes "un_result (oidc_unary uuid_ok uuid_cast fails others uid now validate_token d c) = HandlerCalled p carried"
    and "gget (rg_policies new_policy_registry) (rc_full_method c) = Some (source, scope)"
  obtains token q permission where "bearer_token (rc_metadata c) = Some token"
    and "bearer_authenticate validate_token
      (\<lambda>x. fst (resolve_or_create_principal uuid_cast fails others uid now x d)) token = Inr q"
    and "policy_permission_of source (rc_request c) = Some permission" and "p = Some q" and "with_principal q = Inr q"
    and "scope = SelfScope \<Longrightarrow> carried = None \<and> principal_has_permission q permission"
    and "scope \<noteq> SelfScope \<Longrightarrow> \<exists>tenant m. carried = with_job_tenant_id uuid_ok tenant \<and> tenant_id_pattern tenant \<and>
      gget (pc_memberships q) tenant = Some m \<and> mb_active m \<and> membership_has m permission \<and>
      current_policy_revision uuid_cast fails (after_authentication uuid_cast fails others uid now validate_token d c) tenant =
        Inr (policy_revision_of q m)"
  using assms(1)[unfolded oidc_unary_def] no_public_methods
proof (cases rule: unary_handled)
  case (1 source' scope' token q permission)
  have scoped: "\<exists>tenant m. carried = with_job_tenant_id uuid_ok tenant \<and> tenant_id_pattern tenant \<and>
      gget (pc_memberships q) tenant = Some m \<and> mb_active m \<and> membership_has m permission \<and>
      current_policy_revision uuid_cast fails (after_authentication uuid_cast fails others uid now validate_token d c) tenant =
        Inr (policy_revision_of q m)" if other: "scope \<noteq> SelfScope"
  proof -
    obtain tenant e where e: "carried = with_job_tenant_id uuid_ok tenant" "context_authorize (Some (current_policy_revision uuid_cast
        fails (after_authentication uuid_cast fails others uid now validate_token d c))) (Some q) tenant permission = Inr e"
      using 1(1,8) assms(2) other by auto
    obtain m where m: "gget (pc_memberships q) tenant = Some m" "mb_active m" "membership_has m permission"
        "current_policy_revision uuid_cast fails (after_authentication uuid_cast fails others uid now validate_token d c) tenant =
          Inr (policy_revision_of q m)"
      by (rule context_authorize_granted[OF e(2)])
    have "tenant_id_pattern tenant"
      using 1(5) m(1) by (auto simp: with_principal_def list_ex_iff split: if_splits dest: gget_in_set)
    then show ?thesis
      using e(1) m by blast
  qed
  show ?thesis
    by (rule that[OF 1(2,3) _ 1(6,5) _ scoped]) (use 1 assms(2) in auto)
qed

section \<open>A sample\<close>

text \<open>
  A tenant with an operator, a platform administrator, their tokens, and the calls of a method. The
  identifiers are their own canonical texts and no statement fails.
\<close>

definition sample_identity :: "string \<Rightarrow> external_identity" where
  "sample_identity token = \<lparr>xi_issuer = ''https://id.example'', xi_subject = token\<rparr>"

definition sample_auth_db :: auth_db where
  "sample_auth_db = \<lparr>
     au_principals = map (\<lambda>(i, subject). (i, \<lparr>pr_issuer = ''https://id.example'', pr_subject = subject, pr_status = ''ACTIVE'',
       pr_created_at = 1, pr_updated_at = 1\<rparr>)) [(''p1'', ''operator''), (''p2'', ''admin'')],
     au_tenants = [(''11111111-1111-4111-8111-111111111111'', \<lparr>tr_namespace = ''team'', tr_display_name = ''Team'',
       tr_status = ''ACTIVE'', tr_authz_revision = 3, tr_created_at = 1, tr_updated_at = 1\<rparr>)],
     au_memberships = [((''11111111-1111-4111-8111-111111111111'', ''p1''), \<lparr>gr_role_id = ''tenant_operator'',
       gr_status = ''ACTIVE'', gr_granted_by = ''bootstrap'', gr_granted_at = 1\<rparr>)],
     au_platform_roles = [((''p2'', ''platform_admin''), \<lparr>gr_role_id = ''platform_admin'', gr_status = ''ACTIVE'',
       gr_granted_by = ''bootstrap'', gr_granted_at = 1\<rparr>)],
     au_sessions = [], au_audit = []\<rparr>"

definition sample_call :: "string \<Rightarrow> string \<Rightarrow> string \<Rightarrow> rpc_call" where
  "sample_call service rpc token = \<lparr>rc_full_method = full_method (''astra.control.v1.'' @ service) rpc,
     rc_metadata = (\<lambda>k. if k = ''authorization'' then [''Bearer '' @ token] else []),
     rc_request = \<lparr>rq_namespace = Some ''team'', rq_tenant_id = None, rq_purpose = None\<rparr>,
     rc_event_id = ''event'', rc_started_at = 1, rc_observed_at = 2, rc_audited_at = 2\<rparr>"

abbreviation sample_unary :: "rpc_call \<Rightarrow> unary_run" where
  "sample_unary c \<equiv> oidc_unary (\<lambda>_. True) Some (\<lambda>_. False) (\<lambda>_ e. e) ''p3'' 5 (\<lambda>t. Inr (sample_identity t)) sample_auth_db c"

abbreviation sample_resolution :: "external_identity \<Rightarrow> auth_error + principal" where
  "sample_resolution x \<equiv> fst (resolve_or_create_principal Some (\<lambda>_. False) (\<lambda>_ e. e) ''p3'' 5 x sample_auth_db)"

abbreviation sample_checked_db :: "rpc_call \<Rightarrow> auth_db" where
  "sample_checked_db c \<equiv> after_authentication Some (\<lambda>_. False) (\<lambda>_ e. e) ''p3'' 5 (\<lambda>t. Inr (sample_identity t)) sample_auth_db c"

definition sample_principal :: "string \<Rightarrow> string \<Rightarrow> bool \<Rightarrow> string \<Rightarrow> string list \<Rightarrow> principal" where
  "sample_principal i subject admin role permissions =
     \<lparr>pc_id = i, pc_issuer = ''https://id.example'', pc_subject = subject, pc_active = True, pc_service = False,
      pc_platform_admin = admin, pc_policy_revision = ''principal:'' @ i,
      pc_memberships = [(''11111111-1111-4111-8111-111111111111'', \<lparr>mb_tenant_id = ''11111111-1111-4111-8111-111111111111'',
        mb_tenant_namespace = ''team'', mb_tenant_display_name = ''Team'', mb_role = role, mb_active = True,
        mb_policy_revision = ''3'', mb_permissions = permissions\<rparr>)]\<rparr>"

definition sample_operator :: principal where
  "sample_operator = sample_principal ''p1'' ''operator'' False ''tenant_operator''
     [''connections.read'', ''connections.test'', ''connections.use'', ''connectors.read'', ''jobs.create'',
      ''jobs.read'', ''jobs.start'', ''jobs.stop'', ''jobs.update'']"

definition sample_admin :: principal where
  "sample_admin = sample_principal ''p2'' ''admin'' True ''platform_admin''
     [''audit.read'', ''connections.create'', ''connections.delete'', ''connections.disable'', ''connections.read'',
      ''connections.rotate'', ''connections.test'', ''connections.update'', ''connections.use'', ''connectors.read'',
      ''diagnostics.read'', ''jobs.create'', ''jobs.delete'', ''jobs.read'', ''jobs.start'', ''jobs.stop'', ''jobs.update'',
      ''members.manage'', ''members.read'', ''platform.roles.manage'', ''tenants.create'']"

lemma sample_auth_wf: "auth_wf sample_auth_db"
  by code_simp

lemma sample_principal_resolved:
  "sample_resolution (sample_identity ''operator'') = Inr sample_operator"
  "sample_resolution (sample_identity ''admin'') = Inr sample_admin"
  by code_simp+

lemma sample_principals:
  "with_principal sample_operator = Inr sample_operator" "with_principal sample_admin = Inr sample_admin"
  "\<not> principal_has_permission sample_operator ''diagnostics.read''"
  "principal_has_permission sample_admin ''diagnostics.read''"
  "pc_active sample_operator" "pc_active sample_admin"
  by code_simp+

lemma sample_bearer_token:
  "bearer_token (rc_metadata (sample_call service rpc ''operator'')) = Some ''operator''"
  "bearer_token (rc_metadata (sample_call service rpc ''admin'')) = Some ''admin''"
proof -
  have "\<not> blank ''operator''" "\<not> blank ''admin''"
    by code_simp+
  then show "bearer_token (rc_metadata (sample_call service rpc ''operator'')) = Some ''operator''"
    and "bearer_token (rc_metadata (sample_call service rpc ''admin'')) = Some ''admin''"
    by (simp_all add: bearer_token_def sample_call_def)
qed

lemma sample_policies:
  "gget (rg_policies new_policy_registry) (rc_full_method (sample_call ''JobService'' ''CreateJob'' token)) =
     Some (FixedPermission ''jobs.create'', JobScope)"
  "gget (rg_policies new_policy_registry) (rc_full_method (sample_call ''RegionPromotionService'' ''PromoteRegion'' token)) =
     Some (FixedPermission ''diagnostics.read'', SelfScope)"
  "gget (rg_policies new_policy_registry) (rc_full_method (sample_call ''IdentityService'' ''GetCurrentPrincipal'' token)) =
     Some (FixedPermission ''diagnostics.read'', SelfScope)"
  by (simp_all add: new_policy_registry_def control_methods_def full_method_def sample_call_def)

lemmas sample_evaluation =
  oidc_unary_def unary_def require_public_method_def bearer_authenticate_def handled_def denied_def
  sample_policies sample_bearer_token sample_principal_resolved sample_principals

lemma sample_scoped:
  "un_result (unary_scoped (\<lambda>_. True) (\<lambda>p. context_authorize (Some (current_policy_revision Some (\<lambda>_. False)
     (sample_checked_db (sample_call ''JobService'' ''CreateJob'' ''operator'')))) (Some p))
     (sample_call ''JobService'' ''CreateJob'' ''operator'') sample_operator ''jobs.create'' JobScope) =
   HandlerCalled (Some sample_operator) (Some ''11111111-1111-4111-8111-111111111111'')"
  by code_simp

lemma sample_tenant_call:
  "un_result (sample_unary (sample_call ''JobService'' ''CreateJob'' ''operator'')) =
   HandlerCalled (Some sample_operator) (Some ''11111111-1111-4111-8111-111111111111'')"
  using sample_scoped by (simp add: sample_evaluation)

lemma sample_platform_call:
  "un_result (sample_unary (sample_call ''RegionPromotionService'' ''PromoteRegion'' ''admin'')) =
   HandlerCalled (Some sample_admin) None"
  by (simp add: sample_evaluation)

text \<open>A member of a tenant is denied the methods of the platform, and so its own identity.\<close>

lemma sample_operator_denied:
  "un_result (sample_unary (sample_call ''IdentityService'' ''GetCurrentPrincipal'' ''operator'')) = Denied CodePermissionDenied"
  by (simp add: sample_evaluation)

section \<open>Authorization of requests\<close>

text \<open>
  C1. A request for a tenant that reaches its handler is authorized at the moment of the check,
  whatever other requests did in between: the tenant of its context is active then, and the principal
  has an active membership of it then whose role grants the permission of the policy, or was an
  administrator of the platform at some moment of the request.
\<close>

theorem tenant_request_authorized:
  assumes wf: "auth_wf d"
    and others: "\<And>n e. (auth_step uuid_ok uuid_cast)\<^sup>*\<^sup>* e (others n e)"
    and canonical: "\<And>s. tenant_id_pattern s \<Longrightarrow> uuid_ok s \<and> uuid_cast s = Some s"
    and policy: "gget (rg_policies new_policy_registry) (rc_full_method c) = Some (source, scope)" "scope \<noteq> SelfScope"
    and run: "un_result (oidc_unary uuid_ok uuid_cast fails others uid now validate_token d c) = HandlerCalled p carried"
    and check: "dc = after_authentication uuid_cast fails others uid now validate_token d c"
  shows "\<exists>q permission tenant t. p = Some q \<and> pc_active q \<and> carried = Some tenant \<and>
    policy_permission_of source (rc_request c) = Some permission \<and>
    gget (au_tenants dc) tenant = Some t \<and> tr_status t = ''ACTIVE'' \<and>
    ((\<exists>g. gget (au_memberships dc) (tenant, pc_id q) = Some g \<and> gr_status g = ''ACTIVE'' \<and>
        permission \<in> set (permissions_for_role (gr_role_id g))) \<or>
     (\<exists>d3. (auth_step uuid_ok uuid_cast)\<^sup>*\<^sup>* d d3 \<and> (auth_step uuid_ok uuid_cast)\<^sup>*\<^sup>* d3 dc \<and> platform_admin_row d3 (pc_id q)))"
proof -
  obtain token q permission where q: "bearer_token (rc_metadata c) = Some token"
      "bearer_authenticate validate_token (\<lambda>x. fst (resolve_or_create_principal uuid_cast fails others uid now x d)) token = Inr q"
      "policy_permission_of source (rc_request c) = Some permission" "p = Some q"
      "\<exists>tenant m. carried = with_job_tenant_id uuid_ok tenant \<and> tenant_id_pattern tenant \<and>
        gget (pc_memberships q) tenant = Some m \<and> mb_active m \<and> membership_has m permission \<and>
        current_policy_revision uuid_cast fails dc tenant = Inr (policy_revision_of q m)"
    unfolding check using policy(2) by (rule_tac oidc_handled[OF run policy(1)]) blast
  then obtain tenant m where m: "carried = with_job_tenant_id uuid_ok tenant" "tenant_id_pattern tenant"
      "gget (pc_memberships q) tenant = Some m" "mb_active m" "membership_has m permission"
      "current_policy_revision uuid_cast fails dc tenant = Inr (policy_revision_of q m)"
    by blast
  then have cast: "uuid_cast tenant = Some tenant" and carried: "carried = Some tenant"
    using canonical by (auto simp: with_job_tenant_id_def)
  obtain d2 d3 where moments: "(auth_step uuid_ok uuid_cast)\<^sup>*\<^sup>* d d2" "(auth_step uuid_ok uuid_cast)\<^sup>*\<^sup>* d2 d3"
      "(auth_step uuid_ok uuid_cast)\<^sup>*\<^sup>* d3 dc" "pc_active q" "pc_platform_admin q \<Longrightarrow> platform_admin_row d3 (pc_id q)"
    and rows: "\<not> pc_platform_admin q \<Longrightarrow>
      \<exists>t g. gget (au_memberships d2) (tenant, pc_id q) = Some g \<and> gget (au_tenants d2) tenant = Some t \<and>
        mb_active m = (tr_status t = ''ACTIVE'' \<and> gr_status g = ''ACTIVE'') \<and>
        set (mb_permissions m) = set (permissions_for_role (gr_role_id g)) \<and>
        mb_policy_revision m = dec_int (tr_authz_revision t)"
    unfolding check by (rule oidc_principal[OF q(1,2) wf others]) (use gget_in_set[OF m(3)] in blast)
  obtain t where t: "gget (au_tenants dc) tenant = Some t" "tr_status t = ''ACTIVE''"
      "\<And>t2 g. gget (au_tenants d2) tenant = Some t2 \<Longrightarrow> mb_policy_revision m = dec_int (tr_authz_revision t2) \<Longrightarrow>
        gget (au_memberships d2) (tenant, pc_id q) = Some g \<Longrightarrow> gget (au_memberships dc) (tenant, pc_id q) = Some g"
    by (rule granted_now[OF rtranclp_trans[OF moments(2,3)] m(6) cast, where i = "pc_id q"]) blast
  have "(\<exists>g. gget (au_memberships dc) (tenant, pc_id q) = Some g \<and> gr_status g = ''ACTIVE'' \<and>
        permission \<in> set (permissions_for_role (gr_role_id g))) \<or>
     (\<exists>d3. (auth_step uuid_ok uuid_cast)\<^sup>*\<^sup>* d d3 \<and> (auth_step uuid_ok uuid_cast)\<^sup>*\<^sup>* d3 dc \<and> platform_admin_row d3 (pc_id q))"
  proof (cases "pc_platform_admin q")
    case True
    then show ?thesis
      using moments rtranclp_trans[OF moments(1,2)] by blast
  next
    case False
    then show ?thesis
      using rows t(3) m(4,5) by (fastforce simp: membership_has_def)
  qed
  then show ?thesis
    using q(3,4) carried t(1,2) moments(4) by blast
qed

theorem tenant_request_authorized_witness:
  "\<exists>q permission tenant t. Some sample_operator = Some q \<and> pc_active q \<and>
    Some ''11111111-1111-4111-8111-111111111111'' = Some tenant \<and>
    policy_permission_of (FixedPermission ''jobs.create'') (rc_request (sample_call ''JobService'' ''CreateJob'' ''operator'')) = Some permission \<and>
    gget (au_tenants (sample_checked_db (sample_call ''JobService'' ''CreateJob'' ''operator''))) tenant = Some t \<and> tr_status t = ''ACTIVE''"
proof -
  have "JobScope \<noteq> SelfScope"
    by simp
  note tenant_request_authorized[OF sample_auth_wf _ _ sample_policies(1) this sample_tenant_call refl]
  then show ?thesis
    by blast
qed

lemma self_scope_permissions:
  assumes "gget (rg_policies new_policy_registry) rpc = Some (source, SelfScope)"
    and "rpc \<noteq> full_method ''astra.control.v1.AccessService'' ''ListRoles''"
    and "policy_permission_of source rq = Some permission"
  shows "permission \<in> {''tenants.create'', ''platform.roles.manage'', ''diagnostics.read''}"
proof -
  have "list_all (\<lambda>(rpc, source, scope). scope \<noteq> SelfScope \<or>
      rpc = full_method ''astra.control.v1.AccessService'' ''ListRoles'' \<or>
      source = FixedPermission ''platform.roles.manage'' \<or> source = FixedPermission ''diagnostics.read'')
    (rg_policies new_policy_registry)"
    by code_simp
  then show ?thesis
    using gget_in_set[OF assms(1)] assms(2,3) by (auto simp: list_all_iff)
qed

lemma identity_policies:
  "gget (rg_policies new_policy_registry) (full_method ''astra.control.v1.IdentityService'' ''GetCurrentPrincipal'') =
     Some (FixedPermission ''diagnostics.read'', SelfScope)"
  "gget (rg_policies new_policy_registry) (full_method ''astra.control.v1.IdentityService'' ''ListTenants'') =
     Some (FixedPermission ''diagnostics.read'', SelfScope)"
  "gget (rg_policies new_policy_registry) (full_method ''astra.control.v1.AccessService'' ''ListRoles'') =
     Some (FixedPermission ''members.read'', SelfScope)"
  by (simp_all add: new_policy_registry_def control_methods_def full_method_def)

text \<open>A principal that the server resolves has the permissions of the platform from that role alone.\<close>

lemma platform_permission_admin:
  fixes c :: rpc_call
  assumes token: "bearer_token (rc_metadata c) = Some token"
    and q: "bearer_authenticate validate_token (\<lambda>x. fst (resolve_or_create_principal uuid_cast fails others uid now x d)) token = Inr q"
    and wf: "auth_wf d"
    and others: "\<And>n e. (auth_step uuid_ok uuid_cast)\<^sup>*\<^sup>* e (others n e)"
    and permission: "permission \<in> {''tenants.create'', ''platform.roles.manage'', ''diagnostics.read''}"
  shows "principal_has_permission q permission \<longleftrightarrow> pc_platform_admin q"
proof (cases "pc_platform_admin q")
  case False
  obtain d2 where wf2: "auth_wf d2"
    and rows: "\<And>k m. (k, m) \<in> set (pc_memberships q) \<Longrightarrow> \<not> pc_platform_admin q \<Longrightarrow>
      \<exists>g. gget (au_memberships d2) (k, pc_id q) = Some g \<and> set (mb_permissions m) = set (permissions_for_role (gr_role_id g))"
    by (rule oidc_principal[OF token q wf others]) blast
  have "permission \<notin> set (mb_permissions m)" if km: "(k, m) \<in> set (pc_memberships q)" for k m
  proof -
    obtain g where g: "gget (au_memberships d2) (k, pc_id q) = Some g"
        "set (mb_permissions m) = set (permissions_for_role (gr_role_id g))"
      using rows[OF km False] by blast
    have "gr_role_id g \<noteq> ''platform_admin''"
      using wf2 gget_in_set[OF g(1)] by (auto simp: auth_wf_def list_all_iff valid_tenant_role_def)
    then show ?thesis
      using g(2) tenant_roles_not_platform permission by blast
  qed
  then show ?thesis
    using False by (auto simp: principal_has_permission_def list_ex_iff membership_has_def)
qed (simp add: principal_has_permission_def)

text \<open>
  C13. The methods that administer the platform (platform roles, console sessions, topology,
  replication, promotion and recovery) reach their handlers only for a principal that has the role
  of platform administrator at some moment of the request: no role of a tenant, whatever its
  memberships, admits a principal to them. These are the methods without a tenant, apart from the
  three that the documents give to every principal.
\<close>

theorem platform_request_authorized:
  assumes wf: "auth_wf d"
    and others: "\<And>n e. (auth_step uuid_ok uuid_cast)\<^sup>*\<^sup>* e (others n e)"
    and policy: "gget (rg_policies new_policy_registry) (rc_full_method c) = Some (source, SelfScope)"
      "rc_full_method c \<noteq> full_method ''astra.control.v1.IdentityService'' ''GetCurrentPrincipal''"
      "rc_full_method c \<noteq> full_method ''astra.control.v1.IdentityService'' ''ListTenants''"
      "rc_full_method c \<noteq> full_method ''astra.control.v1.AccessService'' ''ListRoles''"
    and run: "un_result (oidc_unary uuid_ok uuid_cast fails others uid now validate_token d c) = HandlerCalled p carried"
  shows "\<exists>q d3. p = Some q \<and> pc_platform_admin q \<and> carried = None \<and> (auth_step uuid_ok uuid_cast)\<^sup>*\<^sup>* d d3 \<and>
    (auth_step uuid_ok uuid_cast)\<^sup>*\<^sup>* d3 (after_authentication uuid_cast fails others uid now validate_token d c) \<and>
    platform_admin_row d3 (pc_id q)"
proof -
  obtain token q permission where q: "bearer_token (rc_metadata c) = Some token"
      "bearer_authenticate validate_token (\<lambda>x. fst (resolve_or_create_principal uuid_cast fails others uid now x d)) token = Inr q"
      "policy_permission_of source (rc_request c) = Some permission" "p = Some q"
      "carried = None" "principal_has_permission q permission"
    by (rule oidc_handled[OF run policy(1)]) blast
  have "pc_platform_admin q"
    using platform_permission_admin[OF q(1,2) wf others self_scope_permissions[OF policy(1,4) q(3)]] q(6) by simp
  moreover obtain d2 d3 where moments: "(auth_step uuid_ok uuid_cast)\<^sup>*\<^sup>* d d2" "(auth_step uuid_ok uuid_cast)\<^sup>*\<^sup>* d2 d3"
      "(auth_step uuid_ok uuid_cast)\<^sup>*\<^sup>* d3 (after_authentication uuid_cast fails others uid now validate_token d c)"
      "pc_platform_admin q \<Longrightarrow> platform_admin_row d3 (pc_id q)"
    by (rule oidc_principal[OF q(1,2) wf others]) blast
  ultimately show ?thesis
    using q(4,5) rtranclp_trans[OF moments(1,2)] by blast
qed

theorem platform_request_authorized_witness:
  "pc_platform_admin sample_admin \<and> (\<exists>d3. (auth_step (\<lambda>_. True) Some)\<^sup>*\<^sup>* sample_auth_db d3 \<and> platform_admin_row d3 (pc_id sample_admin))"
proof -
  let ?rpc = "rc_full_method (sample_call ''RegionPromotionService'' ''PromoteRegion'' ''admin'')"
  have "?rpc \<noteq> full_method ''astra.control.v1.IdentityService'' ''GetCurrentPrincipal''"
    "?rpc \<noteq> full_method ''astra.control.v1.IdentityService'' ''ListTenants''"
    "?rpc \<noteq> full_method ''astra.control.v1.AccessService'' ''ListRoles''"
    by (simp_all add: sample_call_def full_method_def)
  note platform_request_authorized[OF sample_auth_wf _ sample_policies(2) this sample_platform_call]
  then show ?thesis
    by blast
qed

text \<open>
  C31. The three methods that the authorization matrix gives to any authenticated active principal
  (the current principal, its tenants, the list of roles) are not given to it. For a request whose
  token authenticates a principal that can be carried, whatever other requests do meanwhile: the first two
  call their handlers for platform administrators and answer everyone else with permission denied;
  the third asks for a membership with the permission to read members. So a member of a tenant
  without further roles cannot ask who it is or which tenants are its own.
\<close>

theorem identity_methods_refused:
  assumes wf: "auth_wf d"
    and others: "\<And>n e. (auth_step uuid_ok uuid_cast)\<^sup>*\<^sup>* e (others n e)"
    and rpc: "rc_full_method c \<in> {full_method ''astra.control.v1.IdentityService'' ''GetCurrentPrincipal'',
      full_method ''astra.control.v1.IdentityService'' ''ListTenants'', full_method ''astra.control.v1.AccessService'' ''ListRoles''}"
    and token: "bearer_token (rc_metadata c) = Some token"
    and q: "bearer_authenticate validate_token (\<lambda>x. fst (resolve_or_create_principal uuid_cast fails others uid now x d)) token = Inr q"
      "with_principal q = Inr q"
  shows "un_result (oidc_unary uuid_ok uuid_cast fails others uid now validate_token d c) =
    (if pc_platform_admin q \<or> rc_full_method c = full_method ''astra.control.v1.AccessService'' ''ListRoles'' \<and>
          list_ex (\<lambda>(_, m). mb_active m \<and> membership_has m ''members.read'') (pc_memberships q)
     then HandlerCalled (Some q) None else Denied CodePermissionDenied)"
proof -
  let ?roles = "full_method ''astra.control.v1.AccessService'' ''ListRoles''"
  let ?permission = "if rc_full_method c = ?roles then ''members.read'' else ''diagnostics.read''"
  have "gget (rg_policies new_policy_registry) (rc_full_method c) = Some (FixedPermission ?permission, SelfScope)"
  proof (cases "rc_full_method c = ?roles")
    case True
    then show ?thesis using identity_policies(3) by simp
  next
    case False
    then show ?thesis using rpc identity_policies(1,2) by auto
  qed
  then have "un_result (oidc_unary uuid_ok uuid_cast fails others uid now validate_token d c) =
      (if principal_has_permission q ?permission then HandlerCalled (Some q) None else Denied CodePermissionDenied)"
    using token q by (simp add: oidc_unary_def unary_def require_public_method_def handled_def denied_def del: not_None_eq)
  moreover have "principal_has_permission q ''diagnostics.read'' \<longleftrightarrow> pc_platform_admin q"
    by (rule platform_permission_admin[OF token q(1) wf others]) simp
  ultimately show ?thesis
    by (simp add: principal_has_permission_def [of q "''members.read''"])
qed

theorem identity_methods_refused_witness:
  "un_result (sample_unary (sample_call ''IdentityService'' ''GetCurrentPrincipal'' ''operator'')) = Denied CodePermissionDenied"
proof -
  let ?c = "sample_call ''IdentityService'' ''GetCurrentPrincipal'' ''operator''"
  have "rc_full_method ?c = full_method ''astra.control.v1.IdentityService'' ''GetCurrentPrincipal''"
    by (simp add: sample_call_def)
  moreover have "bearer_authenticate (\<lambda>t. Inr (sample_identity t)) sample_resolution ''operator'' = Inr sample_operator"
    by (simp add: bearer_authenticate_def sample_principal_resolved sample_principals)
  moreover have "\<not> pc_platform_admin sample_operator"
    "full_method ''astra.control.v1.IdentityService'' ''GetCurrentPrincipal'' \<noteq> full_method ''astra.control.v1.AccessService'' ''ListRoles''"
    by (simp_all add: sample_operator_def sample_principal_def full_method_def)
  ultimately show ?thesis
    using identity_methods_refused[OF sample_auth_wf, of "\<lambda>_. True" Some "\<lambda>_ e. e" ?c "''operator''"
        "\<lambda>t. Inr (sample_identity t)" "\<lambda>_. False" "''p3''" 5 sample_operator]
    by (simp add: sample_bearer_token sample_principals)
qed

definition unary_methods :: "service_desc list \<Rightarrow> string set" where
  "unary_methods services = (\<Union>s \<in> set services. full_method (sd_service_name s) ` set (sd_methods s))"

lemma unary_methods_list:
  "unary_methods services = set (concat (map (\<lambda>s. map (full_method (sd_service_name s)) (sd_methods s)) services))"
  by (auto simp: unary_methods_def)

text \<open>
  C38. The check of a server at its start, for any policies and services: it passes exactly if the
  methods with a policy are the unary methods of the services, so that no unary method is left without
  one. Streams are outside of it on both sides: it asks for no policy of a stream, and it passes only
  if a stream (whose name is not that of a unary method as well) has none.
\<close>

theorem streams_have_no_policy:
  assumes "s \<in> set services" and "stream \<in> set (sd_streams s)"
    and "full_method (sd_service_name s) stream \<notin> unary_methods services"
  shows "(validate_services r services = None \<longleftrightarrow> fst ` set (rg_policies r) = unary_methods services) \<and>
    (validate_services r services = None \<longrightarrow> gget (rg_policies r) (full_method (sd_service_name s) stream) = None)"
proof -
  let ?u = "concat (map (\<lambda>s. map (full_method (sd_service_name s)) (sd_methods s)) services)"
  have "validate_services r services = None \<longleftrightarrow>
      find (\<lambda>m. gget (rg_policies r) m = None) ?u = None \<and> find (\<lambda>m. m \<notin> set ?u) (map fst (rg_policies r)) = None"
    by (simp add: validate_services_def Let_def split: option.split)
  also have "\<dots> \<longleftrightarrow> set ?u \<subseteq> fst ` set (rg_policies r) \<and> fst ` set (rg_policies r) \<subseteq> set ?u"
    unfolding find_None_iff map_of_eq_None_iff set_map by blast
  finally have "validate_services r services = None \<longleftrightarrow> fst ` set (rg_policies r) = unary_methods services"
    unfolding unary_methods_list by blast
  then show ?thesis
    using assms(3) by (simp add: map_of_eq_None_iff)
qed

theorem streams_have_no_policy_witness:
  "validate_services new_policy_registry control_services = None \<and>
   gget (rg_policies new_policy_registry) ''/astra.control.v1.RegionTopologyService/StreamTopologyUpdates'' = None"
proof -
  let ?s = "\<lparr>sd_service_name = ''astra.control.v1.RegionTopologyService'', sd_methods = [''GetRegionTopology''],
    sd_streams = [''StreamTopologyUpdates'']\<rparr>"
  have valid: "validate_services new_policy_registry control_services = None" by code_simp
  have "?s \<in> set control_services" by (simp add: control_services_def)
  moreover have "full_method (sd_service_name ?s) ''StreamTopologyUpdates'' \<notin> unary_methods control_services"
    by (simp add: control_services_def unary_methods_def full_method_def)
  ultimately show ?thesis
    using streams_have_no_policy [of ?s control_services "''StreamTopologyUpdates''" new_policy_registry] valid
    by (simp add: full_method_def)
qed

section \<open>Tenants whose identifier the principals cannot carry\<close>

lemma scan_memberships_odd:
  "(k, t, g) \<in> set rows \<Longrightarrow> \<not> tenant_id_pattern k \<Longrightarrow> \<exists>e. scan_memberships ms rows = Inl e"
  by (induction ms rows rule: scan_memberships.induct) (auto simp: new_membership_def split: sum.splits)

lemma scan_platform_tenants_odd:
  "(k, t) \<in> set rows \<Longrightarrow> \<not> tenant_id_pattern k \<Longrightarrow> gget ms k = None \<Longrightarrow> \<exists>e. scan_platform_tenants ms rows = Inl e"
proof (induction ms rows rule: scan_platform_tenants.induct)
  case (2 ms tenant s rows)
  show ?case
  proof (cases "gget ms tenant \<noteq> None \<or> \<not> tenant_id_pattern tenant")
    case True
    then show ?thesis
      using 2 by (auto simp: new_membership_def)
  next
    case False
    then obtain m where "new_membership tenant True (permissions_for_role ''platform_admin'') = Inr m"
      by (auto simp: new_membership_def role_permissions_not_blank)
    moreover have "k \<noteq> tenant"
      using 2(4) False by blast
    ultimately show ?thesis
      using 2 False by auto
  qed
qed simp

lemma bootstrapped_tenant:
  assumes "bootstrap_tenant uuid_ok uuid_cast fails uid now tenant ns display x d = (None, d')"
    and "uuid_cast tenant = Some c" and "gget (au_tenants d) c = None"
  obtains t i s g where "gget (au_tenants d') c = Some t" and "tr_status t = ''ACTIVE''"
    and "principal_with d' (xi_issuer x) (xi_subject x) = Some (i, s)" and "gget (au_memberships d') (c, i) = Some g"
proof -
  note run = assms(1)[unfolded bootstrap_tenant_def Let_def]
  obtain d1 where d1: "insert_principal uuid_cast d uid x now = Some d1"
    using run by (auto split: if_splits option.splits)
  obtain i s where i: "principal_with d1 (xi_issuer x) (xi_subject x) = Some (i, s)"
    using run d1 by (auto split: if_splits option.splits)
  have none: "gget (au_tenants d1) c = None"
    using assms(3) insert_principal_keeps(1)[OF d1] by simp
  let ?t = "\<lparr>tr_namespace = ns, tr_display_name = display, tr_status = ''ACTIVE'', tr_authz_revision = 1,
    tr_created_at = now, tr_updated_at = now\<rparr>"
  let ?g = "\<lparr>gr_role_id = ''tenant_admin'', gr_status = ''ACTIVE'', gr_granted_by = ''bootstrap'', gr_granted_at = now\<rparr>"
  have written: "upsert_membership (d1\<lparr>au_tenants := gput c ?t (au_tenants d1)\<rparr>) c i ?g (\<lambda>old. old) = Some d'"
    using run d1 i assms(2) none by (auto split: if_splits option.splits)
  note kept = upsert_membership_keeps[OF written]
  obtain v where v: "au_memberships d' = gput (c, i) v (au_memberships d1)"
    using kept(3) by auto
  show ?thesis
    by (rule that[of ?t i s v]) (use kept(1,2) v i in \<open>simp_all add: principal_with_def\<close>)
qed

text \<open>A principal with a membership of the tenant, or one that administers the platform, is not resolved as active.\<close>

lemma odd_tenant_resolution:
  assumes "principal_with d (xi_issuer y) (xi_subject y) = Some (i, s)"
    and "gget (au_tenants d) c = Some t" and "tr_status t = ''ACTIVE''" and odd: "\<not> tenant_id_pattern c"
    and who: "(\<exists>g. gget (au_memberships d) (c, i) = Some g) \<or> platform_admin_row d i"
    and resolve: "resolve_or_create_principal uuid_cast fails (\<lambda>_ e. e) uid now y d = (Inr q, d')"
  shows "\<not> pc_active q"
  using resolve
proof (cases rule: resolve_or_create_cases)
  case (2 d0 p0 ms s')
  have d0: "d0 = d"
    using 2(1) assms(1) by (auto simp: insert_principal_def split: option.splits if_splits)
  have i: "pc_id p0 = i"
    using 2(5) assms(1) d0 by simp
  have no_row: "(c, t', g) \<notin> set (membership_rows d i)" for t' g
    using scan_memberships_odd[OF _ odd] 2(2) d0 i by (metis Inl_Inr_False)
  have "(c, t, g) \<in> set (membership_rows d i)" if "gget (au_memberships d) (c, i) = Some g" for g
    using gget_in_set[OF that] assms(2) by (force simp: membership_rows_def map_filter_def)
  then have admin: "platform_admin_row d i"
    using who no_row by blast
  have "gget ms c = None"
    using scan_memberships_rows[OF 2(2), of c] no_row d0 i by (cases "gget ms c") auto
  moreover have "(c, t) \<in> set (sort_key fst (filter (\<lambda>(_, t). tr_status t = ''ACTIVE'') (au_tenants d)))"
    using gget_in_set[OF assms(2)] assms(3) by simp
  ultimately obtain e where
    "scan_platform_tenants ms (sort_key fst (filter (\<lambda>(_, t). tr_status t = ''ACTIVE'') (au_tenants d))) = Inl e"
    using scan_platform_tenants_odd[OF _ odd] by blast
  then have False
    using 2(3) d0 i admin by (simp add: load_platform_role_def split: if_splits)
  then show ?thesis ..
qed simp

text \<open>
  C39. The creation of a tenant accepts every identifier that \<open>uuid.Parse\<close> does, the resolution of a
  principal only those of the versions 1 to 5. After a tenant with another one has been created, say
  of version 7, neither its administrator nor any administrator of the platform authenticates.
\<close>

theorem odd_tenant_locks_out:
  assumes boot: "bootstrap_tenant uuid_ok uuid_cast fails uid now tenant ns display x d = (None, d')"
    and c: "uuid_cast tenant = Some c" "\<not> tenant_id_pattern c" "gget (au_tenants d) c = None"
    and who: "y = x \<or> (\<exists>i s. principal_with d' (xi_issuer y) (xi_subject y) = Some (i, s) \<and> platform_admin_row d' i)"
    and token: "validate_token token = Inr y"
  shows "\<exists>e. bearer_authenticate validate_token
    (\<lambda>y. fst (resolve_or_create_principal uuid_cast fails' (\<lambda>_ e. e) uid' now' y d')) token = Inl e"
proof -
  obtain t i s g where t: "gget (au_tenants d') c = Some t" "tr_status t = ''ACTIVE''"
      "principal_with d' (xi_issuer x) (xi_subject x) = Some (i, s)" "gget (au_memberships d') (c, i) = Some g"
    by (rule bootstrapped_tenant[OF boot c(1,3)])
  obtain i' s' where y: "principal_with d' (xi_issuer y) (xi_subject y) = Some (i', s')"
      "(\<exists>g. gget (au_memberships d') (c, i') = Some g) \<or> platform_admin_row d' i'"
    using who t(3,4) by blast
  show ?thesis
  proof (cases "fst (resolve_or_create_principal uuid_cast fails' (\<lambda>_ e. e) uid' now' y d')")
    case (Inr q)
    then have "\<not> pc_active q"
      using odd_tenant_resolution[OF y(1) t(1,2) c(2) y(2)] by (metis prod.collapse)
    then show ?thesis
      using token Inr by (simp add: bearer_authenticate_def)
  qed (use token in \<open>simp add: bearer_authenticate_def\<close>)
qed

theorem odd_tenant_locks_out_witness:
  "\<exists>e. bearer_authenticate (\<lambda>t. Inr (sample_identity t))
    (\<lambda>y. fst (resolve_or_create_principal Some (\<lambda>_. False) (\<lambda>_ e. e) ''p4'' 7 y
      (snd (bootstrap_tenant (\<lambda>_. True) Some (\<lambda>_. False) ''p3'' 5 ''01890a5d-ac96-774b-bcce-b302099a8057'' ''next'' ''Next''
        (sample_identity ''owner'') sample_auth_db)))) ''admin'' = Inl e"
proof -
  let ?run = "bootstrap_tenant (\<lambda>_. True) Some (\<lambda>_. False) ''p3'' 5 ''01890a5d-ac96-774b-bcce-b302099a8057'' ''next'' ''Next''
    (sample_identity ''owner'') sample_auth_db"
  have "fst ?run = None" and odd: "\<not> tenant_id_pattern ''01890a5d-ac96-774b-bcce-b302099a8057''"
      and fresh: "gget (au_tenants sample_auth_db) ''01890a5d-ac96-774b-bcce-b302099a8057'' = None"
    by code_simp+
  then have boot: "?run = (None, snd ?run)"
    by (simp add: prod_eq_iff)
  have "map_option fst (principal_with (snd ?run) (xi_issuer (sample_identity ''admin'')) (xi_subject (sample_identity ''admin''))) =
      Some ''p2'' \<and> platform_admin_row (snd ?run) ''p2''"
    by code_simp
  then have who: "\<exists>i s. principal_with (snd ?run) (xi_issuer (sample_identity ''admin'')) (xi_subject (sample_identity ''admin'')) =
      Some (i, s) \<and> platform_admin_row (snd ?run) i"
    by auto
  show ?thesis
    by (rule odd_tenant_locks_out[OF boot refl odd fresh disjI2[OF who],
          where validate_token = "\<lambda>t. Inr (sample_identity t)" and token = "''admin''"]) simp
qed

end
