(* ===== verification/JobModel.thy ===== *)
theory JobModel
  imports Prelude
begin

text \<open>
  The job aggregate of \<open>control-plane/job\<close>: \<open>model.go\<close> (data and validation) and
  \<open>lifecycle.go\<close> (the operations that move a job between states).

  A job is a value: \<open>Clone\<close>, which protects a Go caller from aliasing, is the identity here.
  A string-typed enumeration is a datatype with one further constructor for every string that
  is none of its constants. \<open>uuid.Parse\<close> is third-party code and the parameter \<open>uuid_ok\<close>.
\<close>

section \<open>Data\<close>

datatype job_error =
    ErrInvalidTransition
  | ErrStaleEpoch
  | ErrNotFound
  | ErrAlreadyExists
  | ErrConflict
  | InvalidJob string
  | PanicSliceBounds

record key =
  namespace :: string
  name :: string

record connector_spec =
  connector :: string
  connection_ref :: string
  connector_options :: "(string, string) gomap"

record transform_spec =
  transform_type :: string
  transform_options :: "(string, string) gomap"

datatype delivery_guarantee =
    DeliveryAtMostOnce | DeliveryAtLeastOnce | DeliveryExactlyOnce | DeliveryOther string

record spec =
  spec_source :: connector_spec
  spec_sink :: connector_spec
  spec_transforms :: "transform_spec list"
  spec_guarantee :: delivery_guarantee
  spec_max_batch_records :: int

datatype desired_state = DesiredStopped | DesiredRunning | DesiredOther string

datatype job_state =
    StateCreated | StateInitializing | StateRunning | StateCanceling | StateCanceled
  | StateFinished | StateFailed | StateOther string

record checkpoint =
  checkpoint_id :: int
  checkpoint_timestamp :: instant
  checkpoint_state_size :: int
  checkpoint_duration_ms :: int

record failure =
  failure_reason :: string
  failure_root_cause :: string
  failure_timestamp :: instant
  failure_host :: string

record status =
  desired :: desired_state
  job_state :: job_state
  epoch :: int
  restart_count :: int
  start_time :: "instant option"
  end_time :: "instant option"
  last_checkpoint :: "checkpoint option"
  status_failure :: "failure option"

record job =
  job_key :: key
  job_uid :: string
  job_version :: int
  job_spec :: spec
  job_status :: status
  job_created_at :: instant
  job_updated_at :: instant

section \<open>Validation\<close>

definition terminal :: "job_state \<Rightarrow> bool" where
  "terminal s \<longleftrightarrow> s = StateCanceled \<or> s = StateFinished \<or> s = StateFailed"

definition active :: "job_state \<Rightarrow> bool" where
  "active s \<longleftrightarrow> s = StateInitializing \<or> s = StateRunning \<or> s = StateCanceling"

definition validate_dns_label :: "string \<Rightarrow> string \<Rightarrow> job_error option" where
  "validate_dns_label field v =
     fail_if (length v = 0 \<or> length v > 63 \<or> \<not> dns_label v)
       (InvalidJob (field @ '' must be a lowercase DNS label''))"

definition key_validate :: "key \<Rightarrow> job_error option" where
  [validation_defs]: "key_validate k =
     first_err [validate_dns_label ''namespace'' (namespace k), validate_dns_label ''name'' (name k)]"

definition new_key :: "string \<Rightarrow> string \<Rightarrow> job_error + key" where
  "new_key ns n =
     (let k = \<lparr>namespace = ns, name = n\<rparr>
      in case key_validate k of Some e \<Rightarrow> Inl e | None \<Rightarrow> Inr k)"

definition validate_options :: "string \<Rightarrow> (string, string) gomap \<Rightarrow> job_error option" where
  "validate_options field options =
     first_err (map (\<lambda>(k, _). fail_if (blank k) (InvalidJob (field @ '' option key must not be blank''))) options)"

definition validate_connector :: "string \<Rightarrow> connector_spec \<Rightarrow> job_error option" where
  "validate_connector field c =
     first_err
       [fail_if (length (connector c) > 128 \<or> \<not> connector_name (connector c))
          (InvalidJob (field @ '' connector has an invalid canonical name'')),
        validate_options field (connector_options c)]"

definition validate_transform :: "transform_spec \<Rightarrow> job_error option" where
  "validate_transform t =
     first_err
       [fail_if (blank (transform_type t)) (InvalidJob ''transform type must not be blank''),
        validate_options ''transform'' (transform_options t)]"

fun supported_guarantee :: "delivery_guarantee \<Rightarrow> bool" where
  "supported_guarantee (DeliveryOther _) = False"
| "supported_guarantee _ = True"

definition spec_validate :: "spec \<Rightarrow> job_error option" where
  "spec_validate s =
     first_err
       [validate_connector ''source'' (spec_source s),
        validate_connector ''sink'' (spec_sink s),
        first_err (map validate_transform (spec_transforms s)),
        fail_if (\<not> supported_guarantee (spec_guarantee s)) (InvalidJob ''unsupported delivery guarantee''),
        fail_if (spec_max_batch_records s \<le> 0) (InvalidJob ''maxBatchRecords must be positive'')]"

fun supported_desired :: "desired_state \<Rightarrow> bool" where
  "supported_desired (DesiredOther _) = False"
| "supported_desired _ = True"

fun supported_state :: "job_state \<Rightarrow> bool" where
  "supported_state (StateOther _) = False"
| "supported_state _ = True"

definition failure_ok :: "failure \<Rightarrow> bool" where
  "failure_ok f \<longleftrightarrow> \<not> blank (failure_reason f) \<and> \<not> is_zero (failure_timestamp f)"

definition checkpoint_ok :: "checkpoint \<Rightarrow> bool" where
  "checkpoint_ok c \<longleftrightarrow> \<not> (checkpoint_id c < 0 \<or> is_zero (checkpoint_timestamp c) \<or>
     checkpoint_state_size c < 0 \<or> checkpoint_duration_ms c < 0)"

definition status_validate :: "status \<Rightarrow> job_error option" where
  [validation_defs]: "status_validate s =
     first_err
       [fail_if (\<not> supported_desired (desired s)) (InvalidJob ''unsupported desired state''),
        fail_if (\<not> supported_state (job_state s)) (InvalidJob ''unsupported job state''),
        fail_if (epoch s < 0 \<or> restart_count s < 0)
          (InvalidJob ''epoch and restartCount must not be negative''),
        fail_if (job_state s = StateCreated \<and> epoch s \<noteq> 0)
          (InvalidJob ''created job must have epoch zero''),
        fail_if (job_state s \<noteq> StateCreated \<and> epoch s = 0)
          (InvalidJob ''non-created job must have a positive epoch''),
        fail_if ((job_state s = StateInitializing \<or> job_state s = StateRunning) \<noteq> (desired s = DesiredRunning))
          (InvalidJob ''desired state must be RUNNING exactly for initializing or running jobs''),
        fail_if (epoch s = 0 \<and> start_time s \<noteq> None \<or> epoch s > 0 \<and> start_time s = None)
          (InvalidJob ''startTime must be present exactly when an execution epoch exists''),
        fail_if (terminal (job_state s) \<noteq> (end_time s \<noteq> None))
          (InvalidJob ''endTime must be present exactly for terminal states''),
        fail_if ((job_state s = StateFailed) \<noteq> (status_failure s \<noteq> None))
          (InvalidJob ''failure details must be present exactly for FAILED state''),
        fail_if (\<not> opt_all failure_ok (status_failure s))
          (InvalidJob ''failure reason and timestamp must be set''),
        fail_if (\<not> opt_all checkpoint_ok (last_checkpoint s))
          (InvalidJob ''checkpoint values must not be negative and timestamp must be set'')]"

definition job_validate :: "(string \<Rightarrow> bool) \<Rightarrow> job \<Rightarrow> job_error option" where
  [validation_defs]: "job_validate uuid_ok j =
     first_err
       [key_validate (job_key j),
        fail_if (\<not> uuid_ok (job_uid j)) (InvalidJob ''uid must be a UUID''),
        fail_if (job_version j \<le> 0) (InvalidJob ''version must be positive''),
        spec_validate (job_spec j),
        status_validate (job_status j),
        fail_if (is_zero (job_created_at j) \<or> is_zero (job_updated_at j))
          (InvalidJob ''job timestamps must be set''),
        fail_if (job_updated_at j < job_created_at j)
          (InvalidJob ''updatedAt must not precede createdAt'')]"

section \<open>Lifecycle\<close>

definition initial_status :: status where
  "initial_status = \<lparr>desired = DesiredStopped, job_state = StateCreated, epoch = 0,
     restart_count = 0, start_time = None, end_time = None, last_checkpoint = None,
     status_failure = None\<rparr>"

definition new_job :: "(string \<Rightarrow> bool) \<Rightarrow> key \<Rightarrow> string \<Rightarrow> spec \<Rightarrow> instant \<Rightarrow> job_error + job" where
  "new_job uuid_ok k uid sp now =
     (case first_err [key_validate k, fail_if (\<not> uuid_ok uid) (InvalidJob ''uid must be a UUID''),
                      spec_validate sp] of
        Some e \<Rightarrow> Inl e
      | None \<Rightarrow> Inr \<lparr>job_key = k, job_uid = uid, job_version = 1, job_spec = sp,
                     job_status = initial_status, job_created_at = now, job_updated_at = now\<rparr>)"

definition replace_spec :: "job \<Rightarrow> spec \<Rightarrow> instant \<Rightarrow> job_error + job" where
  [effect_defs]: "replace_spec j sp now =
     (case spec_validate sp of
        Some e \<Rightarrow> Inl e
      | None \<Rightarrow>
          if active (job_state (job_status j)) then Inl ErrInvalidTransition
          else Inr (j\<lparr>job_spec := sp, job_updated_at := now\<rparr>))"

definition deletable :: "job \<Rightarrow> job_error option" where
  "deletable j = fail_if (active (job_state (job_status j))) ErrInvalidTransition"

definition validate_epoch_monotonicity :: "job \<Rightarrow> job \<Rightarrow> job_error option" where
  "validate_epoch_monotonicity current candidate =
     fail_if (epoch (job_status candidate) < epoch (job_status current)) ErrStaleEpoch"

definition start_status :: "status \<Rightarrow> instant \<Rightarrow> status" where
  "start_status s now =
     s\<lparr>restart_count := (if epoch s > 0 then wrap32 (restart_count s + 1) else restart_count s),
       epoch := wrap64 (epoch s + 1), desired := DesiredRunning, job_state := StateInitializing,
       start_time := Some now, end_time := None, status_failure := None\<rparr>"

definition start_job :: "job \<Rightarrow> instant \<Rightarrow> job" where
  "start_job j now = j\<lparr>job_status := start_status (job_status j) now, job_updated_at := now\<rparr>"

definition request_start :: "job \<Rightarrow> instant \<Rightarrow> job_error + job \<times> bool" where
  [effect_defs]: "request_start j now =
     (let s = job_status j in
      if desired s = DesiredRunning \<and> (job_state s = StateInitializing \<or> job_state s = StateRunning)
      then Inr (j, False)
      else case job_state s of
        StateCreated \<Rightarrow> Inr (start_job j now, True)
      | StateCanceled \<Rightarrow> Inr (start_job j now, True)
      | StateFinished \<Rightarrow> Inr (start_job j now, True)
      | StateFailed \<Rightarrow> Inr (start_job j now, True)
      | StateInitializing \<Rightarrow>
          if desired s = DesiredRunning then Inr (j, False) else Inr (start_job j now, True)
      | StateRunning \<Rightarrow>
          if desired s = DesiredRunning then Inr (j, False) else Inr (start_job j now, True)
      | _ \<Rightarrow> Inl ErrInvalidTransition)"

definition request_stop :: "job \<Rightarrow> instant \<Rightarrow> job_error + job \<times> bool" where
  [effect_defs]: "request_stop j now =
     (let s = job_status j;
          canceling = j\<lparr>job_status := s\<lparr>desired := DesiredStopped, job_state := StateCanceling\<rparr>,
                        job_updated_at := now\<rparr>;
          stopped = j\<lparr>job_status := s\<lparr>desired := DesiredStopped\<rparr>, job_updated_at := now\<rparr>
      in
      if desired s = DesiredStopped then Inr (j, False)
      else case job_state s of
        StateInitializing \<Rightarrow> Inr (canceling, True)
      | StateRunning \<Rightarrow> Inr (canceling, True)
      | StateCanceled \<Rightarrow> Inr (stopped, True)
      | StateFinished \<Rightarrow> Inr (stopped, True)
      | StateFailed \<Rightarrow> Inr (stopped, True)
      | _ \<Rightarrow> Inl ErrInvalidTransition)"

fun allowed_transition :: "job_state \<Rightarrow> job_state \<Rightarrow> bool" where
  "allowed_transition StateInitializing n = (n = StateRunning \<or> n = StateFailed)"
| "allowed_transition StateRunning n = (n = StateFinished \<or> n = StateFailed)"
| "allowed_transition StateCanceling n = (n = StateCanceled \<or> n = StateFailed)"
| "allowed_transition _ n = False"

definition advance_status :: "status \<Rightarrow> job_state \<Rightarrow> failure option \<Rightarrow> instant \<Rightarrow> status" where
  "advance_status s st fl now =
     (let s1 = s\<lparr>job_state := st, status_failure := None\<rparr>;
          s2 = (if st = StateRunning then s1\<lparr>end_time := None\<rparr> else s1);
          s3 = (if terminal st then s2\<lparr>desired := DesiredStopped, end_time := Some now\<rparr> else s2)
      in if fl \<noteq> None then s3\<lparr>status_failure := fl\<rparr> else s3)"

definition advance ::
  "job \<Rightarrow> int \<Rightarrow> job_state \<Rightarrow> failure option \<Rightarrow> instant \<Rightarrow> job_error + job \<times> bool" where
  [effect_defs]: "advance j ep st fl now =
     (let s = job_status j in
      if ep \<noteq> epoch s then Inl ErrStaleEpoch
      else if st = job_state s then Inr (j, False)
      else if \<not> allowed_transition (job_state s) st then Inl ErrInvalidTransition
      else if st = StateFailed \<and> fl = None then Inl ErrInvalidTransition
      else if st \<noteq> StateFailed \<and> fl \<noteq> None then Inl ErrInvalidTransition
      else Inr (j\<lparr>job_status := advance_status s st fl now, job_updated_at := now\<rparr>, True))"

text \<open>
  The lifecycle calls that the job service, the controller and the scheduler make, with any
  arguments. A call that fails leaves its caller with the job it had.
\<close>

datatype lifecycle_call =
    CallReplaceSpec spec instant
  | CallStart instant
  | CallStop instant
  | CallAdvance int job_state "failure option" instant

fun lifecycle_result :: "job \<Rightarrow> lifecycle_call \<Rightarrow> job_error + job \<times> bool" where
  "lifecycle_result j (CallReplaceSpec sp now) =
     (case replace_spec j sp now of Inl e \<Rightarrow> Inl e | Inr j' \<Rightarrow> Inr (j', True))"
| "lifecycle_result j (CallStart now) = request_start j now"
| "lifecycle_result j (CallStop now) = request_stop j now"
| "lifecycle_result j (CallAdvance ep st fl now) = advance j ep st fl now"

text \<open>The calls of a sequence that succeed: the job before, the call, whether it changed the job, the job after.\<close>

fun lifecycle_trace :: "job \<Rightarrow> lifecycle_call list \<Rightarrow> (job \<times> lifecycle_call \<times> bool \<times> job) list" where
  "lifecycle_trace j [] = []"
| "lifecycle_trace j (c # cs) =
     (case lifecycle_result j c of
        Inl _ \<Rightarrow> lifecycle_trace j cs
      | Inr (j', changed) \<Rightarrow> (j, c, changed, j') # lifecycle_trace j' cs)"

text \<open>
  What the code leaves to its callers: a clock that is set and not behind the creation of the job, a
  reported failure with a reason and a time, and counters below the largest value of their type.
\<close>

definition clock_ok :: "job \<Rightarrow> instant \<Rightarrow> bool" where
  "clock_ok j now \<longleftrightarrow> job_created_at j \<le> now \<and> \<not> is_zero now"

definition counters_ok :: "status \<Rightarrow> bool" where
  "counters_ok s \<longleftrightarrow> epoch s < 2 ^ 63 - 1 \<and> (0 < epoch s \<longrightarrow> restart_count s < 2 ^ 31 - 1)"

fun proper_call :: "job \<Rightarrow> lifecycle_call \<Rightarrow> bool" where
  "proper_call j (CallReplaceSpec sp now) \<longleftrightarrow> clock_ok j now"
| "proper_call j (CallStart now) \<longleftrightarrow> clock_ok j now \<and> counters_ok (job_status j)"
| "proper_call j (CallStop now) \<longleftrightarrow> clock_ok j now"
| "proper_call j (CallAdvance ep st fl now) \<longleftrightarrow> clock_ok j now \<and> opt_all failure_ok fl"

text \<open>One call as a step. A start at the largest \<open>int64\<close> epoch, where the counter wraps around, is none.\<close>

inductive job_step :: "job \<Rightarrow> job \<Rightarrow> bool" where
  step_replace: "replace_spec j sp now = Inr j' \<Longrightarrow> job_step j j'"
| step_start: "request_start j now = Inr (j', changed) \<Longrightarrow> epoch (job_status j) < 2 ^ 63 - 1 \<Longrightarrow> job_step j j'"
| step_stop: "request_stop j now = Inr (j', changed) \<Longrightarrow> job_step j j'"
| step_advance: "advance j ep st fl now = Inr (j', changed) \<Longrightarrow> job_step j j'"

abbreviation job_steps :: "job \<Rightarrow> job \<Rightarrow> bool" where
  "job_steps \<equiv> job_step\<^sup>*\<^sup>*"

inductive_cases job_stepE: "job_step j j'"

section \<open>Lemmas\<close>

abbreviation job_ok :: "(string \<Rightarrow> bool) \<Rightarrow> job \<Rightarrow> bool" where
  "job_ok uuid_ok j \<equiv> job_validate uuid_ok j = None"

abbreviation status_ok :: "status \<Rightarrow> bool" where
  "status_ok s \<equiv> status_validate s = None"

lemma supported_desired_iff:
  "supported_desired d \<longleftrightarrow> d = DesiredStopped \<or> d = DesiredRunning"
  by (cases d) simp_all

lemma new_job_ok:
  "new_job u k uid sp now = Inr j \<Longrightarrow> \<not> is_zero now \<Longrightarrow> job_ok u j"
  by (auto simp: new_job_def job_validate_def status_validate_def initial_status_def terminal_def
      split: option.splits)

lemma start_status_ok:
  assumes "status_ok s" and "int64_range (epoch s)" and "int32_range (restart_count s)"
  shows "status_ok (start_status s now) \<longleftrightarrow> counters_ok s"
proof (cases "counters_ok s")
  case True
  with assms(1) show ?thesis
    by (simp add: counters_ok_def status_validate_def start_status_def wrap64_Suc wrap32_Suc terminal_def)
next
  case False
  then have "wrap64 (epoch s + 1) < 0 \<or> 0 < epoch s \<and> wrap32 (restart_count s + 1) < 0"
    using wrap64_over [OF assms(2)] wrap32_over [OF assms(3)] unfolding counters_ok_def by blast
  with False show ?thesis
    by (auto simp: status_validate_def start_status_def)
qed

lemma advance_status_ok:
  assumes "status_ok s" and "allowed_transition (job_state s) st"
    and "(st = StateFailed) = (fl \<noteq> None)"
  shows "status_ok (advance_status s st fl now) \<longleftrightarrow> opt_all failure_ok fl"
  using assms
  by (cases "job_state s"; cases st; cases fl)
    (auto simp: status_validate_def advance_status_def terminal_def Let_def)

lemma request_start_cases:
  assumes "request_start j now = Inr (j', changed)"
  obtains (unchanged) "j' = j" and "\<not> changed" and "desired (job_status j) = DesiredRunning"
  | (started) "j' = start_job j now" and "changed"
      "job_state (job_status j) \<noteq> StateCanceling" "supported_state (job_state (job_status j))"
  using assms by (cases "job_state (job_status j)")
    (auto simp: request_start_def Let_def split: if_splits)

lemma request_stop_cases:
  assumes "request_stop j now = Inr (j', changed)" and "status_ok (job_status j)"
  obtains (unchanged) "j' = j" and "\<not> changed" and "desired (job_status j) = DesiredStopped"
  | (canceling) "j' = j\<lparr>job_status := (job_status j)\<lparr>desired := DesiredStopped,
        job_state := StateCanceling\<rparr>, job_updated_at := now\<rparr>" and "changed"
      and "job_state (job_status j) = StateInitializing \<or> job_state (job_status j) = StateRunning"
  using assms by (cases "job_state (job_status j)")
    (auto simp: request_stop_def status_validate_def supported_desired_iff terminal_def Let_def
      split: if_splits)

lemma advance_cases:
  assumes "advance j ep st fl now = Inr (j', changed)"
  obtains (unchanged) "j' = j" and "\<not> changed" and "ep = epoch (job_status j)"
  | (advanced) "j' = j\<lparr>job_status := advance_status (job_status j) st fl now, job_updated_at := now\<rparr>"
      and "changed" and "ep = epoch (job_status j)"
      and "allowed_transition (job_state (job_status j)) st" and "(st = StateFailed) = (fl \<noteq> None)"
  using assms by (auto simp: advance_def Let_def split: if_splits)

lemma advance_status_simps [simp]:
  "epoch (advance_status s st fl now) = epoch s"
  "job_state (advance_status s st fl now) = st"
  "restart_count (advance_status s st fl now) = restart_count s"
  "start_time (advance_status s st fl now) = start_time s"
  by (simp_all add: advance_status_def Let_def)

lemma start_status_simps [simp]:
  "job_state (start_status s now) = StateInitializing"
  "desired (start_status s now) = DesiredRunning"
  "epoch (start_status s now) = wrap64 (epoch s + 1)"
  by (simp_all add: start_status_def)

lemma stop_status_ok:
  "status_ok s \<Longrightarrow> job_state s = StateInitializing \<or> job_state s = StateRunning \<Longrightarrow>
     status_ok (s\<lparr>desired := DesiredStopped, job_state := StateCanceling\<rparr>)"
  by (auto simp: status_validate_def terminal_def)

lemma job_ok_status: "job_ok u j \<Longrightarrow> status_ok (job_status j)"
  by (simp add: job_validate_def)

lemma job_ok_update:
  assumes "job_ok u j"
  shows "job_ok u (j\<lparr>job_status := s, job_updated_at := now\<rparr>) \<longleftrightarrow> status_ok s \<and> clock_ok j now"
  using assms by (auto simp: job_validate_def clock_ok_def)

text \<open>The counters of a job that stay in the range of their Go types.\<close>

definition counters_typed :: "job \<Rightarrow> bool" where
  "counters_typed j \<longleftrightarrow> int64_range (epoch (job_status j)) \<and> int32_range (restart_count (job_status j))"

lemma lifecycle_typed:
  assumes "lifecycle_result j c = Inr (j', changed)" and "counters_typed j"
  shows "counters_typed j'"
  using assms
proof (cases c)
  case (CallReplaceSpec sp now)
  with assms show ?thesis
    by (auto simp: counters_typed_def replace_spec_def split: option.splits if_splits)
next
  case (CallStart now)
  then have "request_start j now = Inr (j', changed)" using assms(1) by simp
  then show ?thesis
    by (cases rule: request_start_cases)
      (use assms(2) in \<open>simp_all add: counters_typed_def start_job_def start_status_def\<close>)
next
  case (CallStop now)
  with assms show ?thesis
    by (auto simp: counters_typed_def request_stop_def Let_def split: if_splits job_state.splits)
next
  case (CallAdvance ep st fl now)
  then have "advance j ep st fl now = Inr (j', changed)" using assms(1) by simp
  then show ?thesis
    by (cases rule: advance_cases) (use assms(2) in \<open>simp_all add: counters_typed_def\<close>)
qed

text \<open>A call on a valid job gives a valid job if it changes nothing or is proper, and only then.\<close>

lemma lifecycle_result_ok:
  assumes "lifecycle_result j c = Inr (j', changed)" and "job_ok u j" and "counters_typed j"
  shows "job_ok u j' \<longleftrightarrow> (changed \<longrightarrow> proper_call j c)"
proof (cases c)
  case (CallReplaceSpec sp now)
  with assms show ?thesis
    by (auto simp: replace_spec_def job_validate_def clock_ok_def split: option.splits if_splits)
next
  case (CallStart now)
  then have "request_start j now = Inr (j', changed)" using assms(1) by simp
  then show ?thesis
    by (cases rule: request_start_cases)
      (use CallStart assms(2,3) in \<open>auto simp: start_job_def job_ok_update start_status_ok job_ok_status counters_typed_def\<close>)
next
  case (CallStop now)
  then have "request_stop j now = Inr (j', changed)" using assms(1) by simp
  then show ?thesis
    using job_ok_status [OF assms(2)]
    by (cases rule: request_stop_cases)
      (use CallStop assms(2) in \<open>simp_all add: job_ok_update stop_status_ok job_ok_status\<close>)
next
  case (CallAdvance ep st fl now)
  then have "advance j ep st fl now = Inr (j', changed)" using assms(1) by simp
  then show ?thesis
    by (cases rule: advance_cases)
      (use CallAdvance assms(2) in \<open>auto simp: job_ok_update advance_status_ok job_ok_status\<close>)
qed

lemma lifecycle_trace_ok:
  assumes "job_ok u j" and "counters_typed j"
  shows "list_all (\<lambda>(_, _, _, j'). job_ok u j') (lifecycle_trace j cs) \<longleftrightarrow>
    list_all (\<lambda>(j', c, changed, _). changed \<longrightarrow> proper_call j' c) (lifecycle_trace j cs)"
  using assms
proof (induction cs arbitrary: j)
  case (Cons c cs)
  show ?case
  proof (cases "lifecycle_result j c")
    case (Inr q)
    then obtain j' changed where q: "lifecycle_result j c = Inr (j', changed)" by (cases q) auto
    note ok = lifecycle_result_ok [OF q Cons.prems] and typed = lifecycle_typed [OF q Cons.prems(2)]
    show ?thesis
      using ok Cons.IH [OF _ typed] by (cases "job_ok u j'") (simp_all add: q)
  qed (use Cons in simp)
qed simp

text \<open>What of a valid status every call keeps, also one with improper arguments.\<close>

definition status_core :: "status \<Rightarrow> bool" where
  "status_core s \<longleftrightarrow> 0 \<le> epoch s \<and> supported_desired (desired s) \<and>
     (job_state s = StateInitializing \<or> job_state s = StateRunning) = (desired s = DesiredRunning)"

lemma status_ok_core: "status_ok s \<Longrightarrow> status_core s"
  by (simp add: status_validate_def status_core_def)

lemma request_stop_core:
  assumes "request_stop j now = Inr (j', changed)" and "status_core (job_status j)"
  obtains (unchanged) "j' = j"
  | (canceling) "j' = j\<lparr>job_status := (job_status j)\<lparr>desired := DesiredStopped,
        job_state := StateCanceling\<rparr>, job_updated_at := now\<rparr>"
      and "job_state (job_status j) = StateInitializing \<or> job_state (job_status j) = StateRunning"
  using assms by (cases "job_state (job_status j)")
    (auto simp: request_stop_def status_core_def supported_desired_iff Let_def split: if_splits)

text \<open>What one lifecycle call does to the epoch and, inside an epoch, to the state.\<close>

lemma job_step_core:
  assumes "job_step j j'" and "status_core (job_status j)"
  shows "status_core (job_status j') \<and> epoch (job_status j) \<le> epoch (job_status j')"
  using assms(1)
proof cases
  case (step_replace sp now)
  with assms(2) show ?thesis by (auto simp: replace_spec_def split: option.splits if_splits)
next
  case (step_start now changed)
  with assms(2) show ?thesis
    by (elim request_start_cases) (simp_all add: start_job_def wrap64_Suc status_core_def)
next
  case (step_stop now changed)
  from step_stop(1) assms(2) show ?thesis
    by (cases rule: request_stop_core) (use assms(2) in \<open>auto simp: status_core_def\<close>)
next
  case (step_advance ep st fl now changed)
  from step_advance(1) show ?thesis
  proof (cases rule: advance_cases)
    case advanced
    then show ?thesis
      using assms(2)
      by (cases "job_state (job_status j)"; cases st)
        (auto simp: status_core_def advance_status_def terminal_def Let_def)
  qed (use assms(2) in simp)
qed

text \<open>A terminal status of an execution is final: within its epoch nothing of it changes.\<close>

lemma job_step_terminal:
  assumes "job_step j j'" and "status_core (job_status j)" and "terminal (job_state (job_status j))"
    and "epoch (job_status j') = epoch (job_status j)"
  shows "job_status j' = job_status j"
  using assms(1)
proof cases
  case (step_replace sp now)
  then show ?thesis by (auto simp: replace_spec_def split: option.splits if_splits)
next
  case (step_start now changed)
  with assms show ?thesis
    by (elim request_start_cases) (auto simp: start_job_def wrap64_Suc status_core_def)
next
  case (step_stop now changed)
  from step_stop(1) assms(2) show ?thesis
    by (cases rule: request_stop_core) (use assms(3) in \<open>auto simp: terminal_def\<close>)
next
  case (step_advance ep st fl now changed)
  with assms(3) show ?thesis
    by (elim advance_cases) (auto simp: terminal_def)
qed

lemma job_steps_epoch:
  assumes "job_steps j j'" and "status_core (job_status j)"
  shows "status_core (job_status j') \<and> epoch (job_status j) \<le> epoch (job_status j') \<and>
    (terminal (job_state (job_status j)) \<and> epoch (job_status j') = epoch (job_status j) \<longrightarrow>
       job_status j' = job_status j)"
  using assms
proof (induction rule: rtranclp_induct)
  case (step y z)
  then have y: "status_core (job_status y)" by blast
  show ?case
    using step.IH [OF step.prems] job_step_core [OF step.hyps(2) y] job_step_terminal [OF step.hyps(2) y]
    by (metis order_antisym order_trans)
qed simp

section \<open>A concrete job\<close>

text \<open>Used to show that the hypotheses of the properties can hold together.\<close>

definition sample_connector :: connector_spec where
  "sample_connector = \<lparr>connector = ''mysql-cdc'', connection_ref = ''orders'',
     connector_options = [(''table'', ''orders'')]\<rparr>"

definition sample_spec :: spec where
  "sample_spec = \<lparr>spec_source = sample_connector, spec_sink = sample_connector,
     spec_transforms = [\<lparr>transform_type = ''project'', transform_options = []\<rparr>],
     spec_guarantee = DeliveryAtLeastOnce, spec_max_batch_records = 1024\<rparr>"

definition sample_key :: key where
  "sample_key = \<lparr>namespace = ''team-a'', name = ''orders-sync''\<rparr>"

definition sample_uid :: string where
  "sample_uid = ''00000000-0000-4000-8000-000000000001''"

definition uuid36 :: "string \<Rightarrow> bool" where
  "uuid36 s \<longleftrightarrow> length s = 36"

definition sample_job :: job where
  "sample_job = \<lparr>job_key = sample_key, job_uid = sample_uid, job_version = 1,
     job_spec = sample_spec, job_status = initial_status, job_created_at = 100,
     job_updated_at = 100\<rparr>"

definition sample_started :: job where
  "sample_started = sample_job\<lparr>job_status := initial_status\<lparr>desired := DesiredRunning,
     job_state := StateInitializing, epoch := 1, start_time := Some 200\<rparr>, job_updated_at := 200\<rparr>"

definition sample_failure :: failure where
  "sample_failure = \<lparr>failure_reason = ''lost'', failure_root_cause = [], failure_timestamp = 300,
     failure_host = []\<rparr>"

definition sample_failed :: job where
  "sample_failed = sample_job\<lparr>job_status := initial_status\<lparr>job_state := StateFailed, epoch := 1,
     start_time := Some 200, end_time := Some 300, status_failure := Some sample_failure\<rparr>,
     job_updated_at := 300\<rparr>"

lemma sample_new: "new_job uuid36 sample_key sample_uid sample_spec 100 = Inr sample_job"
  by code_simp

lemma sample_start: "request_start sample_job 200 = Inr (sample_started, True)"
  by code_simp

lemma sample_fail: "advance sample_started 1 StateFailed (Some sample_failure) 300 = Inr (sample_failed, True)"
  by code_simp

lemma sample_steps: "job_steps sample_job sample_started" "job_steps sample_started sample_failed"
proof -
  have "epoch (job_status sample_job) < 2 ^ 63 - 1"
    by code_simp
  then show "job_steps sample_job sample_started"
    using step_start [OF sample_start] by blast
  show "job_steps sample_started sample_failed"
    using step_advance [OF sample_fail] by blast
qed

lemma sample_failed_ok: "job_ok uuid36 sample_failed"
  by code_simp

definition sample_edited :: job where
  "sample_edited = sample_failed\<lparr>job_spec := sample_spec\<lparr>spec_max_batch_records := 8\<rparr>,
     job_updated_at := 400\<rparr>"

lemma sample_edit_step: "job_steps sample_failed sample_edited"
proof -
  have "replace_spec sample_failed (sample_spec\<lparr>spec_max_batch_records := 8\<rparr>) 400 = Inr sample_edited"
    by code_simp
  then show ?thesis by (blast intro: step_replace)
qed

section \<open>Properties\<close>

text \<open>
  C8. A job that \<open>New\<close> returns is carried through any sequence of \<open>ReplaceSpec\<close>, \<open>RequestStart\<close>,
  \<open>RequestStop\<close> and \<open>Advance\<close> calls with any arguments, of which some may fail. Every job on the way
  passes \<open>Job.Validate\<close> exactly if every call that changed the job was proper: its clock was set and
  not behind the creation of the job, a reported failure had a reason and a time, and no counter was
  at the largest value of its type. So the lifecycle itself never makes a value the repository would
  refuse, and these arguments, which it does not check, are all that its callers must see to.
\<close>

theorem job_lifecycle_valid:
  assumes "new_job uuid_ok k uid sp now = Inr j" and "\<not> is_zero now"
  shows "list_all (\<lambda>(_, _, _, j'). job_validate uuid_ok j' = None) (lifecycle_trace j cs) \<longleftrightarrow>
    list_all (\<lambda>(j', c, changed, _). changed \<longrightarrow> proper_call j' c) (lifecycle_trace j cs)"
proof (rule lifecycle_trace_ok [OF new_job_ok [OF assms]])
  show "counters_typed j"
    using assms(1) by (auto simp: new_job_def counters_typed_def initial_status_def int64_range_def int32_range_def
        split: option.splits)
qed

theorem job_lifecycle_valid_witness:
  "list_all (\<lambda>(_, _, _, j'). job_validate uuid36 j' = None)
     (lifecycle_trace sample_job [CallStart 200, CallAdvance 1 StateFailed (Some sample_failure) 300]) \<and>
   \<not> list_all (\<lambda>(_, _, _, j'). job_validate uuid36 j' = None)
     (lifecycle_trace sample_job [CallStart 200, CallStop 5])"
proof -
  have set: "\<not> is_zero (100 :: instant)"
    by (simp add: is_zero_def)
  have "list_all (\<lambda>(j', c, changed, _). changed \<longrightarrow> proper_call j' c)
      (lifecycle_trace sample_job [CallStart 200, CallAdvance 1 StateFailed (Some sample_failure) 300])"
    and "\<not> list_all (\<lambda>(j', c, changed, _). changed \<longrightarrow> proper_call j' c)
      (lifecycle_trace sample_job [CallStart 200, CallStop 5])"
    by code_simp+
  then show ?thesis
    unfolding job_lifecycle_valid [OF sample_new set] by blast
qed

text \<open>
  C9. Along any sequence of lifecycle calls the epoch never decreases, and the status of a
  finished, failed or canceled execution never changes again unless a restart opens a new
  epoch: a late report of an execution cannot rewrite how it ended.
\<close>

theorem terminal_status_final:
  assumes "job_validate uuid_ok j = None" and "job_steps j j'"
  shows "epoch (job_status j) \<le> epoch (job_status j') \<and>
    (terminal (job_state (job_status j)) \<and> epoch (job_status j') = epoch (job_status j) \<longrightarrow>
       job_status j' = job_status j)"
  using job_steps_epoch [OF assms(2) status_ok_core [OF job_ok_status [OF assms(1)]]] by blast

theorem terminal_status_final_witness:
  "terminal (job_state (job_status sample_failed)) \<and> job_status sample_edited = job_status sample_failed"
proof -
  have "terminal (job_state (job_status sample_failed))"
    "epoch (job_status sample_edited) = epoch (job_status sample_failed)"
    by code_simp+
  then show ?thesis
    using terminal_status_final [OF sample_failed_ok sample_edit_step] by blast
qed

end
