(* ===== verification/JobRepository.thy ===== *)
theory JobRepository
  imports JobModel
begin

text \<open>
  The job repository: the interface of \<open>control-plane/job/repository.go\<close> as a locale, and the
  in-memory implementation of \<open>control-plane/job/memory/repository.go\<close>, which is shown to
  satisfy it. Every method holds the repository's mutex throughout, so a method is one atomic
  step on the table.
\<close>

section \<open>The repository operations\<close>

type_synonym job_table = "(key, job) gomap"

record page =
  page_number :: int
  page_size :: int

record page_result =
  result_jobs :: "job list"
  result_total :: int

definition page_validate :: "page \<Rightarrow> job_error option" where
  "page_validate p =
     fail_if (page_number p \<le> 0 \<or> page_size p \<le> 0) (InvalidJob ''page number and size must be positive'')"

definition repo_create ::
  "(string \<Rightarrow> bool) \<Rightarrow> job_table \<Rightarrow> job \<Rightarrow> (job_error + job) \<times> job_table" where
  [effect_defs]: "repo_create uuid_ok r candidate =
     (case job_validate uuid_ok candidate of
        Some e \<Rightarrow> (Inl e, r)
      | None \<Rightarrow>
          if gget r (job_key candidate) \<noteq> None then (Inl ErrAlreadyExists, r)
          else (Inr candidate, gput (job_key candidate) candidate r))"

definition repo_get :: "job_table \<Rightarrow> key \<Rightarrow> job_error + job" where
  "repo_get r k =
     (case key_validate k of
        Some e \<Rightarrow> Inl e
      | None \<Rightarrow> (case gget r k of None \<Rightarrow> Inl ErrNotFound | Some stored \<Rightarrow> Inr stored))"

definition repo_items :: "job_table \<Rightarrow> string \<Rightarrow> job list" where
  "repo_items r ns =
     sort_key (\<lambda>j. name (job_key j)) (map snd (filter (\<lambda>(k, _). namespace k = ns) r))"

definition repo_list :: "job_table \<Rightarrow> string \<Rightarrow> page \<Rightarrow> job_error + page_result" where
  "repo_list r ns p =
     (case first_err [key_validate \<lparr>namespace = ns, name = ''validation''\<rparr>, page_validate p] of
        Some e \<Rightarrow> Inl e
      | None \<Rightarrow>
          (let items = repo_items r ns;
               total = int (length items);
               start = wrap64 (wrap64 (page_number p - 1) * page_size p)
           in if start \<ge> total then Inr \<lparr>result_jobs = [], result_total = total\<rparr>
              else let stop = min (wrap64 (start + page_size p)) total
              in if start < 0 \<or> stop < start then Inl PanicSliceBounds
                 else Inr \<lparr>result_jobs = take (nat stop - nat start) (drop (nat start) items),
                           result_total = total\<rparr>))"

definition repo_update ::
  "(string \<Rightarrow> bool) \<Rightarrow> job_table \<Rightarrow> job \<Rightarrow> int \<Rightarrow> (job_error + job) \<times> job_table" where
  [effect_defs]: "repo_update uuid_ok r candidate expected =
     (case job_validate uuid_ok candidate of
        Some e \<Rightarrow> (Inl e, r)
      | None \<Rightarrow>
         (case gget r (job_key candidate) of
            None \<Rightarrow> (Inl ErrNotFound, r)
          | Some current \<Rightarrow>
              if job_version current \<noteq> expected then (Inl ErrConflict, r)
              else if job_uid current \<noteq> job_uid candidate \<or>
                      job_created_at current \<noteq> job_created_at candidate
              then (Inl ErrConflict, r)
              else case validate_epoch_monotonicity current candidate of
                Some e \<Rightarrow> (Inl e, r)
              | None \<Rightarrow>
                  (let stored = candidate\<lparr>job_version := wrap64 (job_version current + 1)\<rparr>
                   in (Inr stored, gput (job_key candidate) stored r))))"

definition repo_delete :: "job_table \<Rightarrow> key \<Rightarrow> int \<Rightarrow> job_error option \<times> job_table" where
  [effect_defs]: "repo_delete r k expected =
     (case key_validate k of
        Some e \<Rightarrow> (Some e, r)
      | None \<Rightarrow>
          if expected \<le> 0 then (Some ErrConflict, r)
          else (case gget r k of
                  None \<Rightarrow> (Some ErrNotFound, r)
                | Some current \<Rightarrow>
                    if job_version current \<noteq> expected then (Some ErrConflict, r)
                    else (None, gdel k r)))"

text \<open>What holds of the table between two calls.\<close>

definition repo_inv :: "(string \<Rightarrow> bool) \<Rightarrow> job_table \<Rightarrow> bool" where
  "repo_inv uuid_ok r \<longleftrightarrow> gwf r \<and>
     list_all (\<lambda>(k, j). job_key j = k \<and> int64_range (job_version j) \<and>
       job_validate uuid_ok (j\<lparr>job_version := 1\<rparr>) = None) r"

text \<open>A request a client of the interface can make to change the table.\<close>

datatype repo_op =
    CreateJob job
  | UpdateJob job int
  | DeleteJob key int

fun repo_apply :: "(string \<Rightarrow> bool) \<Rightarrow> job_table \<Rightarrow> repo_op \<Rightarrow> job_table" where
  "repo_apply uuid_ok r (CreateJob c) = snd (repo_create uuid_ok r c)"
| "repo_apply uuid_ok r (UpdateJob c v) = snd (repo_update uuid_ok r c v)"
| "repo_apply uuid_ok r (DeleteJob k v) = snd (repo_delete r k v)"

definition repo_run :: "(string \<Rightarrow> bool) \<Rightarrow> job_table \<Rightarrow> repo_op list \<Rightarrow> job_table" where
  "repo_run uuid_ok r ops = foldl (repo_apply uuid_ok) r ops"

section \<open>The interface\<close>

text \<open>
  What the scheduler and the job service rely on: an update succeeds only against the version it
  read, keeps the job's identity and never lowers its epoch, and a failed update changes nothing.
\<close>

locale job_store =
  fixes get :: "'s \<Rightarrow> key \<Rightarrow> job_error + job"
    and update :: "'s \<Rightarrow> job \<Rightarrow> int \<Rightarrow> (job_error + job) \<times> 's"
    and inv :: "'s \<Rightarrow> bool"
  assumes inv_update: "inv s \<Longrightarrow> inv (snd (update s c v))"
    and get_key: "inv s \<Longrightarrow> get s k = Inr j \<Longrightarrow> job_key j = k"
    and update_fence: "inv s \<Longrightarrow> update s c v = (Inr j, s') \<Longrightarrow>
      \<exists>cur. get s (job_key c) = Inr cur \<and> job_version cur = v \<and> job_uid cur = job_uid c \<and>
        job_created_at cur = job_created_at c \<and>
        epoch (job_status cur) \<le> epoch (job_status c) \<and> j = c\<lparr>job_version := wrap64 (v + 1)\<rparr>"
    and update_get: "inv s \<Longrightarrow> update s c v = (Inr j, s') \<Longrightarrow>
      get s' k = (if k = job_key c then Inr j else get s k)"
    and update_fail: "update s c v = (Inl e, s') \<Longrightarrow> s' = s"
begin

lemma get_after_update:
  assumes "inv s" and "get s k = Inr j"
  shows "\<exists>j'. get (snd (update s c v)) k = Inr j' \<and> job_uid j' = job_uid j \<and>
    epoch (job_status j) \<le> epoch (job_status j')"
proof (cases "fst (update s c v)")
  case (Inl e)
  then have "snd (update s c v) = s" by (metis update_fail prod.collapse)
  with assms show ?thesis by simp
next
  case (Inr u)
  then have u: "update s c v = (Inr u, snd (update s c v))" by (metis prod.collapse)
  from update_fence [OF assms(1) u] update_get [OF assms(1) u, of k] assms(2)
  show ?thesis by (cases "k = job_key c") auto
qed

lemma run_updates_keep:
  assumes "inv s" and "get s k = Inr j"
  shows "\<exists>j'. get (foldl (\<lambda>s (c, v). snd (update s c v)) s us) k = Inr j' \<and> job_uid j' = job_uid j \<and>
    epoch (job_status j) \<le> epoch (job_status j')"
  using assms
proof (induction us arbitrary: s j)
  case Nil
  then show ?case by simp
next
  case (Cons u us)
  obtain c v where u: "u = (c, v)" by (cases u)
  from get_after_update [OF Cons.prems, of c v] obtain j1 where
    "get (snd (update s c v)) k = Inr j1" "job_uid j1 = job_uid j"
    "epoch (job_status j) \<le> epoch (job_status j1)" by blast
  with Cons.IH [OF inv_update [OF Cons.prems(1)]] u show ?case
    by (fastforce intro: order_trans)
qed

lemma stale_version_refused:
  assumes "inv s" and "update s c v = (Inr j, s')" and "job_key d = job_key c"
  shows "\<exists>e. update s' d v = (Inl e, s')"
proof (cases "update s' d v")
  case (Pair res s'')
  show ?thesis
  proof (cases res)
    case (Inl e)
    with Pair show ?thesis using update_fail by blast
  next
    case (Inr i)
    have s': "inv s'" using inv_update [OF assms(1), of c v] assms(2) by simp
    have "get s' (job_key d) = Inr j" and "job_version j = wrap64 (v + 1)"
      using update_get [OF assms(1,2)] update_fence [OF assms(1,2)] assms(3) by auto
    with update_fence [OF s' Pair [unfolded Inr]] have "wrap64 (v + 1) = v" by auto
    then have "(v + 1 + 2 ^ 63) mod 2 ^ 64 = v + 2 ^ 63" by (simp add: wrap64_def)
    then have "(v + 2 ^ 63 + 1) mod 2 ^ 64 = (v + 2 ^ 63) mod 2 ^ 64"
      by (metis add.commute add.left_commute mod_mod_trivial)
    then have "(1 :: int) mod 2 ^ 64 = 0"
      by (metis add.commute add_diff_cancel_left' diff_self mod_0 mod_diff_cong)
    then show ?thesis by simp
  qed
qed

end

section \<open>The in-memory repository implements the interface\<close>

lemma job_validate_version:
  "job_validate u (j\<lparr>job_version := v\<rparr>) = None \<longleftrightarrow>
     0 < v \<and> job_validate u (j\<lparr>job_version := 1\<rparr>) = None"
  by (auto simp: job_validate_def)

lemma job_validate_version_one: "job_validate u j = None \<Longrightarrow> job_validate u (j\<lparr>job_version := 1\<rparr>) = None"
  by (simp add: job_validate_def)

lemma repo_inv_get: "repo_inv u r \<Longrightarrow> gget r k = Some j \<Longrightarrow>
    job_key j = k \<and> int64_range (job_version j) \<and> job_validate u (j\<lparr>job_version := 1\<rparr>) = None"
  by (auto simp: repo_inv_def list_all_iff dest!: gget_in_set)

lemma repo_inv_Nil [simp]: "repo_inv u []"
  by (simp add: repo_inv_def)

lemma list_all_gdel: "list_all P r \<Longrightarrow> list_all P (gdel k r)"
  by (auto simp: list_all_iff AList.delete_eq)

lemma repo_inv_gput:
  "repo_inv u r \<Longrightarrow> job_validate u (j\<lparr>job_version := 1\<rparr>) = None \<Longrightarrow> int64_range (job_version j) \<Longrightarrow>
     repo_inv u (gput (job_key j) j r)"
  by (simp add: repo_inv_def list_all_gput)

lemma repo_inv_update: "repo_inv u r \<Longrightarrow> repo_inv u (snd (repo_update u r c v))"
  using repo_inv_gput [of u r "c\<lparr>job_version := w\<rparr>" for w]
  by (auto simp: repo_update_def Let_def job_validate_version_one split: option.splits)

lemma repo_inv_create:
  "repo_inv u r \<Longrightarrow> int64_range (job_version c) \<Longrightarrow> repo_inv u (snd (repo_create u r c))"
  by (auto simp: repo_create_def repo_inv_gput job_validate_version_one split: option.splits)

lemma repo_inv_delete: "repo_inv u r \<Longrightarrow> repo_inv u (snd (repo_delete r k v))"
  by (auto simp: repo_delete_def repo_inv_def list_all_gdel split: option.splits)

lemma repo_get_Inr: "repo_get r k = Inr j \<longleftrightarrow> key_validate k = None \<and> gget r k = Some j"
  by (auto simp: repo_get_def split: option.splits)

lemma repo_update_Inr:
  "repo_update u r c v = (Inr j, r') \<longleftrightarrow>
     job_validate u c = None \<and> j = c\<lparr>job_version := wrap64 (v + 1)\<rparr> \<and> r' = gput (job_key c) j r \<and>
     (\<exists>cur. gget r (job_key c) = Some cur \<and> job_version cur = v \<and> job_uid cur = job_uid c \<and>
        job_created_at cur = job_created_at c \<and> epoch (job_status cur) \<le> epoch (job_status c))"
  by (auto simp: repo_update_def validate_epoch_monotonicity_def Let_def fail_if_def
      split: option.splits if_splits)

lemma repo_update_Inl: "repo_update u r c v = (Inl e, r') \<Longrightarrow> r' = r"
  by (auto simp: repo_update_def Let_def split: option.splits if_splits)

lemma job_ok_key: "job_validate u j = None \<Longrightarrow> key_validate (job_key j) = None"
  by (simp add: job_validate_def)

interpretation memory_jobs: job_store repo_get "repo_update u" "repo_inv u" for u
proof (unfold_locales, goal_cases)
  case (1 s c v)
  then show ?case by (rule repo_inv_update)
next
  case (2 s k j)
  then show ?case using repo_inv_get by (auto simp: repo_get_Inr)
next
  case (3 s c v j s')
  then show ?case by (auto simp: repo_update_Inr repo_get_Inr job_ok_key)
next
  case (4 s c v j s' k)
  then show ?case
    by (auto simp: repo_update_Inr repo_get_def job_ok_key split: option.splits)
next
  case (5 s c v e s')
  then show ?case by (rule repo_update_Inl)
qed

section \<open>Listing\<close>

lemma repo_items_set:
  "gwf r \<Longrightarrow> set (repo_items r ns) = {j. \<exists>k. gget r k = Some j \<and> namespace k = ns}"
  by (force simp: repo_items_def gwf_in_set_iff)

text \<open>No two jobs of a namespace have one name, so the order of the names is strict.\<close>

lemma repo_items_strict:
  assumes "repo_inv uuid_ok r"
  shows "sorted_wrt (<) (map (\<lambda>j. name (job_key j)) (repo_items r ns))"
proof -
  let ?rows = "filter (\<lambda>(k, _). namespace k = ns) r"
  have key: "job_key j = k" if "(k, j) \<in> set r" for k j
    using repo_inv_get [OF assms] that assms by (auto simp: repo_inv_def gwf_in_set_iff)
  have "distinct (map fst ?rows)"
    using assms by (simp add: repo_inv_def gwf_def distinct_map_filter)
  moreover have "map (\<lambda>j. name (job_key j)) (map snd ?rows) = map name (map fst ?rows)"
    using key by auto
  moreover have "inj_on name (set (map fst ?rows))"
    by (auto simp: inj_on_def intro: key.equality)
  ultimately have "distinct (map (\<lambda>j. name (job_key j)) (map snd ?rows))"
    by (simp only: distinct_map)
  then have "distinct (map (\<lambda>j. name (job_key j)) (repo_items r ns))"
    by (simp only: repo_items_def distinct_map distinct_sort set_sort)
  then show ?thesis
    by (simp add: strict_sorted_iff repo_items_def)
qed

lemma repo_page:
  assumes "page_validate p = None" and "key_validate \<lparr>namespace = ns, name = ''validation''\<rparr> = None"
    and "page_number p * page_size p < 2 ^ 63"
  shows "repo_list r ns p = Inr \<lparr>result_jobs =
      take (nat (page_size p)) (drop (nat (page_number p - 1) * nat (page_size p)) (repo_items r ns)),
    result_total = int (length (repo_items r ns))\<rparr>"
proof -
  let ?n = "page_number p" and ?z = "page_size p" and ?len = "length (repo_items r ns)"
  have n: "0 < ?n" "0 < ?z" using assms(1) by (auto simp: page_validate_def)
  have le: "(?n - 1) * ?z + ?z = ?n * ?z" by (simp add: algebra_simps)
  have nn: "0 \<le> (?n - 1) * ?z" using n by simp
  have "?n \<le> ?n * ?z" using n by (simp add: mult_le_cancel_left1)
  then have "int64_range (?n - 1)" "int64_range ((?n - 1) * ?z)" "int64_range (?n * ?z)"
    using n nn le assms(3) unfolding int64_range_def by linarith+
  then have w: "wrap64 (wrap64 (?n - 1) * ?z) = (?n - 1) * ?z"
    "wrap64 ((?n - 1) * ?z + ?z) = ?n * ?z"
    using le by (simp_all add: wrap64_id)
  have nat: "nat ((?n - 1) * ?z) = nat (?n - 1) * nat ?z" using n by (simp add: nat_mult_distrib)
  have z: "nat (?n * ?z) = nat (?n - 1) * nat ?z + nat ?z"
    using n nn le nat by (metis nat_add_distrib less_imp_le)
  show ?thesis
  proof (cases "(?n - 1) * ?z \<ge> int ?len")
    case True
    then have "drop (nat (?n - 1) * nat ?z) (repo_items r ns) = []" using nat by auto
    with True w assms(1,2) show ?thesis by (simp add: repo_list_def)
  next
    case False
    have "\<not> ?n * ?z \<le> int ?len \<Longrightarrow> ?len \<le> nat (?n - 1) * nat ?z + nat ?z"
      unfolding z [symmetric] by linarith
    with False have "take (nat (min (?n * ?z) (int ?len)) - nat ((?n - 1) * ?z))
        (drop (nat ((?n - 1) * ?z)) (repo_items r ns)) =
      take (nat ?z) (drop (nat (?n - 1) * nat ?z) (repo_items r ns))"
      using n by (auto simp: nat z min_def nat_le_iff)
    moreover have "\<not> ((?n - 1) * ?z < 0 \<or> min (?n * ?z) (int ?len) < (?n - 1) * ?z)"
      using False nn le n by linarith
    ultimately show ?thesis using False w assms(1,2) by (simp add: repo_list_def Let_def)
  qed
qed

lemma take_pages:
  "concat (map (\<lambda>i. take z (drop (i * z) xs)) [0..<k]) = take (k * z) xs"
  by (induction k) (simp_all add: take_add [symmetric] add.commute)

lemma repo_pages:
  assumes "0 < z" and "int k * z < 2 ^ 63"
    and "key_validate \<lparr>namespace = ns, name = ''validation''\<rparr> = None"
  shows "map (\<lambda>n. repo_list r ns \<lparr>page_number = int n, page_size = z\<rparr>) [1..<Suc k] =
    map (\<lambda>i. Inr \<lparr>result_jobs = take (nat z) (drop (i * nat z) (repo_items r ns)),
                 result_total = int (length (repo_items r ns))\<rparr>) [0..<k]"
proof -
  have "repo_list r ns \<lparr>page_number = int (Suc i), page_size = z\<rparr> =
      Inr \<lparr>result_jobs = take (nat z) (drop (i * nat z) (repo_items r ns)),
           result_total = int (length (repo_items r ns))\<rparr>" if "i < k" for i
  proof -
    have "int (Suc i) * z \<le> int k * z" using that assms(1) by (intro mult_right_mono) auto
    then have "page_number \<lparr>page_number = int (Suc i), page_size = z\<rparr> *
        page_size \<lparr>page_number = int (Suc i), page_size = z\<rparr> < 2 ^ 63"
      using assms(2) by simp
    moreover have "page_validate \<lparr>page_number = int (Suc i), page_size = z\<rparr> = None"
      using assms(1) by (simp add: page_validate_def)
    ultimately show ?thesis using repo_page assms(3) by simp
  qed
  moreover have "[1..<Suc k] = map Suc [0..<k]" by (simp add: map_Suc_upt)
  ultimately show ?thesis by simp
qed

section \<open>Properties\<close>

fun op_in_range :: "repo_op \<Rightarrow> bool" where
  "op_in_range (CreateJob c) = int64_range (job_version c)"
| "op_in_range _ = True"

lemma repo_run_inv:
  "repo_inv u r \<Longrightarrow> list_all op_in_range ops \<Longrightarrow> repo_inv u (repo_run u r ops)"
proof (induction ops arbitrary: r)
  case (Cons op ops)
  then have "repo_inv u (repo_apply u r op)"
    by (cases op) (simp_all add: repo_inv_create repo_inv_update repo_inv_delete)
  with Cons show ?case by (simp add: repo_run_def)
qed (simp add: repo_run_def)

text \<open>
  C12. Whatever sequence of \<open>Create\<close>, \<open>Update\<close> and \<open>Delete\<close> calls a repository has served, with
  any arguments, a job it returns is stored under its own key and passes \<open>Job.Validate\<close> as long
  as its version counter has not wrapped.
\<close>

theorem repository_returns_valid_jobs:
  assumes "list_all op_in_range ops" and "repo_get (repo_run uuid_ok [] ops) k = Inr j"
    and "0 < job_version j"
  shows "job_key j = k \<and> job_validate uuid_ok j = None"
proof -
  have "repo_inv uuid_ok (repo_run uuid_ok [] ops)" using assms(1) by (simp add: repo_run_inv)
  with assms(2,3) show ?thesis
    using repo_inv_get job_validate_version [where u = uuid_ok and j = j and v = "job_version j"]
    by (auto simp: repo_get_Inr)
qed

definition sample_ops :: "repo_op list" where
  "sample_ops = [CreateJob sample_job, UpdateJob sample_started 1, UpdateJob sample_job 1,
     UpdateJob sample_failed 2]"

lemma sample_ops_get:
  "repo_get (repo_run uuid36 [] sample_ops) sample_key = Inr (sample_failed\<lparr>job_version := 3\<rparr>)"
  by code_simp

theorem repository_returns_valid_jobs_witness:
  "job_validate uuid36 (sample_failed\<lparr>job_version := 3\<rparr>) = None"
proof -
  have "list_all op_in_range sample_ops" by code_simp
  from repository_returns_valid_jobs [OF this sample_ops_get] show ?thesis by simp
qed

text \<open>
  C10. No lost update: once an \<open>Update\<close> against version \<open>v\<close> has succeeded, every other \<open>Update\<close> of
  that job against \<open>v\<close> is refused and leaves the table as it is.
\<close>

theorem no_lost_update:
  assumes "repo_inv uuid_ok r" and "repo_update uuid_ok r c v = (Inr j, r')"
    and "job_key d = job_key c"
  shows "\<exists>e. repo_update uuid_ok r' d v = (Inl e, r')"
  using assms by (rule memory_jobs.stale_version_refused)

theorem no_lost_update_witness:
  "\<exists>e. repo_update uuid36 [(sample_key, sample_started\<lparr>job_version := 2\<rparr>)] sample_job 1 =
     (Inl e, [(sample_key, sample_started\<lparr>job_version := 2\<rparr>)])"
proof -
  have "repo_inv uuid36 [(sample_key, sample_job)]" by code_simp
  moreover have "repo_update uuid36 [(sample_key, sample_job)] sample_started 1 =
    (Inr (sample_started\<lparr>job_version := 2\<rparr>), [(sample_key, sample_started\<lparr>job_version := 2\<rparr>)])"
    by code_simp
  moreover have "job_key sample_job = job_key sample_started" by code_simp
  ultimately show ?thesis by (rule no_lost_update)
qed

text \<open>
  C11. Along any sequence of updates, a stored job keeps its UID and its execution epoch never
  moves backwards.
\<close>

theorem stored_epoch_monotone:
  assumes "repo_inv uuid_ok r" and "repo_get r k = Inr j"
  shows "\<exists>j'. repo_get (foldl (\<lambda>s (c, v). snd (repo_update uuid_ok s c v)) r us) k = Inr j' \<and>
    job_uid j' = job_uid j \<and> epoch (job_status j) \<le> epoch (job_status j')"
  using assms by (rule memory_jobs.run_updates_keep)

theorem stored_epoch_monotone_witness:
  "\<exists>j'. repo_get (foldl (\<lambda>s (c, v). snd (repo_update uuid36 s c v)) [(sample_key, sample_job)]
      [(sample_started, 1), (sample_job, 2)]) sample_key = Inr j' \<and>
    job_uid j' = sample_uid \<and> 0 \<le> epoch (job_status j')"
proof -
  have "repo_inv uuid36 [(sample_key, sample_job)]" and
    "repo_get [(sample_key, sample_job)] sample_key = Inr sample_job"
    by code_simp+
  moreover have "job_uid sample_job = sample_uid" "epoch (job_status sample_job) = 0"
    by code_simp+
  ultimately show ?thesis
    using stored_epoch_monotone [of uuid36 "[(sample_key, sample_job)]" sample_key sample_job]
    by metis
qed

text \<open>
  C36. Paging loses and repeats nothing, as long as the page arithmetic fits an \<open>int\<close> and \<open>k\<close> pages
  are enough: the pages \<open>1\<close> to \<open>k\<close> of a namespace, put one after the other, are in strictly increasing
  order of names and have exactly the jobs that are stored under the namespace; no page has more than
  \<open>size\<close> jobs, and each states the number of all of them.
\<close>

theorem pages_cover_namespace:
  assumes "repo_inv uuid_ok r" and "key_validate \<lparr>namespace = ns, name = ''validation''\<rparr> = None"
    and "0 < z" and "int k * z < 2 ^ 63" and "length (repo_items r ns) \<le> k * nat z"
  shows "\<exists>pages. map (\<lambda>n. repo_list r ns \<lparr>page_number = int n, page_size = z\<rparr>) [1..<Suc k] =
      map Inr pages \<and>
    sorted_wrt (<) (map (\<lambda>j. name (job_key j)) (concat (map result_jobs pages))) \<and>
    set (concat (map result_jobs pages)) = {j. \<exists>key. gget r key = Some j \<and> namespace key = ns} \<and>
    list_all (\<lambda>page. int (length (result_jobs page)) \<le> z \<and>
      result_total page = int (length (concat (map result_jobs pages)))) pages"
proof -
  let ?page = "\<lambda>i. \<lparr>result_jobs = take (nat z) (drop (i * nat z) (repo_items r ns)),
    result_total = int (length (repo_items r ns))\<rparr>"
  have all: "concat (map result_jobs (map ?page [0..<k])) = repo_items r ns"
    using take_pages [of "nat z" "repo_items r ns" k] assms(5) by (simp add: comp_def)
  have short: "int (min n (nat z)) \<le> z" for n
    using assms(3) by simp
  have "gwf r" using assms(1) by (simp add: repo_inv_def)
  then show ?thesis
    using repo_pages [OF assms(3,4,2)] repo_items_set [of r ns] repo_items_strict [OF assms(1)] short all
    by (intro exI [of _ "map ?page [0..<k]"]) (simp add: list_all_iff)
qed

theorem pages_cover_namespace_witness:
  "\<exists>pages. map (\<lambda>n. repo_list [(sample_key, sample_job)] ''team-a'' \<lparr>page_number = int n, page_size = 5\<rparr>)
      [1..<Suc 2] = map Inr pages \<and>
    sorted_wrt (<) (map (\<lambda>j. name (job_key j)) (concat (map result_jobs pages))) \<and>
    set (concat (map result_jobs pages)) =
      {j. \<exists>key. gget [(sample_key, sample_job)] key = Some j \<and> namespace key = ''team-a''} \<and>
    list_all (\<lambda>page. int (length (result_jobs page)) \<le> 5 \<and>
      result_total page = int (length (concat (map result_jobs pages)))) pages"
proof -
  have "repo_inv uuid36 [(sample_key, sample_job)]"
    and "key_validate \<lparr>namespace = ''team-a'', name = ''validation''\<rparr> = None"
    and "length (repo_items [(sample_key, sample_job)] ''team-a'') \<le> 2 * nat 5"
    by code_simp+
  then show ?thesis by (intro pages_cover_namespace [of uuid36]) simp_all
qed

end
