(* ===== verification/Dispatch.thy ===== *)
theory Dispatch
  imports JobRepository "HOL-Library.Product_Lexorder"
begin

text \<open>
  The scheduler's dispatch table: \<open>control-plane/scheduler/internal/dispatch/dispatch.go\<close> (the
  record a scheduler works on) and \<open>dispatch/postgres/store.go\<close> (the leases, as SQL statements on
  one table).

  The table is the list of its rows. An \<open>UPDATE\<close> maps a function over the rows its \<open>WHERE\<close>
  selects; \<open>Claim\<close>, which runs its statements in one transaction under an advisory lock, is one
  atomic step, and rolls back when a statement fails. The flag \<open>fails\<close> says that the database
  reports an error. Third-party code is a parameter: \<open>uuid_ok\<close> is \<open>uuid.Parse\<close>, \<open>uuid_cast\<close> the
  \<open>::uuid\<close> cast of the database (the canonical text of the value, or nothing when the cast
  fails), and \<open>new_token\<close> what \<open>gen_random_uuid\<close> gives the row it fills. Text columns order by
  bytes.
\<close>

section \<open>Data\<close>

datatype dispatch_error =
    ErrLeaseLost
  | InvalidDispatch string
  | DispatchKeyError job_error
  | DispatchStoreFailed string

datatype phase =
    PhaseClaimed | PhaseStarting | PhaseRunning | PhaseStopping
  | PhaseSucceeded | PhaseFailed | PhaseCanceled | PhaseOther string

record identity =
  id_job_uid :: string
  id_epoch :: int

record dispatch_record =
  dr_identity :: identity
  dr_key :: key
  dr_owner_id :: string
  dr_phase :: phase
  dr_lease_expires_at :: instant
  dr_last_heartbeat_at :: instant
  dr_heartbeat_token :: string
  dr_attempt :: int
  dr_lease_taken_over :: bool
  dr_last_error :: string
  dr_created_at :: instant
  dr_updated_at :: instant

record dispatch_row =
  row_identity :: identity
  row_key :: key
  row_owner :: string
  row_phase :: phase
  row_lease :: instant
  row_heartbeat :: "instant option"
  row_token :: string
  row_attempt :: int
  row_last_error :: string
  row_created_at :: instant
  row_updated_at :: instant

type_synonym dispatch_table = "dispatch_row list"

definition identity_validate :: "identity \<Rightarrow> dispatch_error option" where
  "identity_validate i =
     first_err
       [fail_if (id_job_uid i = []) (InvalidDispatch ''job UID must not be blank''),
        fail_if (id_epoch i \<le> 0) (InvalidDispatch ''execution epoch must be positive'')]"

fun phase_active :: "phase \<Rightarrow> bool" where
  "phase_active PhaseClaimed = True"
| "phase_active PhaseStarting = True"
| "phase_active PhaseRunning = True"
| "phase_active PhaseStopping = True"
| "phase_active _ = False"

definition phase_terminal :: "phase \<Rightarrow> bool" where
  "phase_terminal p \<longleftrightarrow> p = PhaseSucceeded \<or> p = PhaseFailed \<or> p = PhaseCanceled"

text \<open>\<open>phase IN ('CLAIMED', 'STARTING', 'RUNNING')\<close>: the phases in which a heartbeat is expected.\<close>

definition phase_beating :: "phase \<Rightarrow> bool" where
  "phase_beating p \<longleftrightarrow> p = PhaseClaimed \<or> p = PhaseStarting \<or> p = PhaseRunning"

section \<open>Reading a row\<close>

definition scan_any_record :: "(string \<Rightarrow> bool) \<Rightarrow> dispatch_row \<Rightarrow> dispatch_error + dispatch_record" where
  "scan_any_record uuid_ok r =
     (case first_err
        [identity_validate (row_identity r),
         map_option DispatchKeyError (key_validate (row_key r)),
         fail_if (\<not> uuid_ok (row_token r)) (InvalidDispatch ''dispatch heartbeat token must be a UUID'')] of
        Some e \<Rightarrow> Inl e
      | None \<Rightarrow> Inr \<lparr>dr_identity = row_identity r, dr_key = row_key r, dr_owner_id = row_owner r,
          dr_phase = row_phase r, dr_lease_expires_at = row_lease r,
          dr_last_heartbeat_at = (case row_heartbeat r of None \<Rightarrow> 0 | Some t \<Rightarrow> t),
          dr_heartbeat_token = row_token r, dr_attempt = row_attempt r, dr_lease_taken_over = False,
          dr_last_error = row_last_error r, dr_created_at = row_created_at r,
          dr_updated_at = row_updated_at r\<rparr>)"

definition scan_record :: "(string \<Rightarrow> bool) \<Rightarrow> dispatch_row \<Rightarrow> dispatch_error + dispatch_record" where
  "scan_record uuid_ok r =
     (case scan_any_record uuid_ok r of
        Inl e \<Rightarrow> Inl e
      | Inr d \<Rightarrow> if \<not> phase_active (dr_phase d)
                 then Inl (InvalidDispatch ''claimed dispatch has invalid phase'') else Inr d)"

fun scan_all :: "('r \<Rightarrow> 'e + 'd) \<Rightarrow> 'r list \<Rightarrow> 'e + 'd list" where
  "scan_all f [] = Inr []"
| "scan_all f (r # rs) =
     (case f r of
        Inl e \<Rightarrow> Inl e
      | Inr d \<Rightarrow> (case scan_all f rs of Inl e \<Rightarrow> Inl e | Inr ds \<Rightarrow> Inr (d # ds)))"

section \<open>Claiming work\<close>

definition sql_update :: "('r \<Rightarrow> bool) \<Rightarrow> ('r \<Rightarrow> 'r) \<Rightarrow> 'r list \<Rightarrow> 'r list" where
  "sql_update P f t = map (\<lambda>r. if P r then f r else r) t"

definition sql_count :: "('r \<Rightarrow> bool) \<Rightarrow> 'r list \<Rightarrow> int" where
  "sql_count P t = int (length (filter P t))"

abbreviation row_active :: "dispatch_row \<Rightarrow> bool" where
  "row_active r \<equiv> phase_active (row_phase r)"

definition renewable :: "string \<Rightarrow> instant \<Rightarrow> dispatch_row \<Rightarrow> bool" where
  "renewable owner now r \<longleftrightarrow> row_owner r = owner \<and> row_lease r > now \<and> row_active r"

definition renew_leases :: "string \<Rightarrow> instant \<Rightarrow> instant \<Rightarrow> dispatch_table \<Rightarrow> dispatch_table" where
  "renew_leases owner lease_end now t =
     sql_update (renewable owner now) (\<lambda>r. r\<lparr>row_lease := lease_end, row_updated_at := now\<rparr>) t"

definition takeover_due :: "string \<Rightarrow> instant \<Rightarrow> instant \<Rightarrow> dispatch_row \<Rightarrow> bool" where
  "takeover_due owner now silent_since r \<longleftrightarrow> row_active r \<and>
     (row_lease r \<le> now \<or>
      (row_owner r \<noteq> owner \<and> phase_beating (row_phase r) \<and>
       (case row_heartbeat r of None \<Rightarrow> False | Some h \<Rightarrow> h \<le> silent_since)))"

definition take_over_row :: "string \<Rightarrow> instant \<Rightarrow> instant \<Rightarrow> dispatch_row \<Rightarrow> dispatch_row" where
  "take_over_row owner lease_end now r =
     r\<lparr>row_owner := owner, row_lease := lease_end, row_attempt := row_attempt r + 1, row_updated_at := now\<rparr>"

definition job_identity :: "job \<Rightarrow> identity" where
  "job_identity j = \<lparr>id_job_uid = job_uid j, id_epoch = epoch (job_status j)\<rparr>"

definition claim_pending :: "dispatch_table \<Rightarrow> job \<Rightarrow> bool" where
  "claim_pending t j \<longleftrightarrow>
     desired (job_status j) = DesiredRunning \<and> job_state (job_status j) = StateInitializing \<and>
     epoch (job_status j) > 0 \<and> \<not> list_ex (\<lambda>r. row_identity r = job_identity j) t"

definition pending_jobs :: "job list \<Rightarrow> dispatch_table \<Rightarrow> job list" where
  "pending_jobs jobs t =
     sort_key (\<lambda>j. (job_updated_at j, namespace (job_key j), name (job_key j)))
       (filter (claim_pending t) jobs)"

definition claimed_row ::
  "(identity \<Rightarrow> string) \<Rightarrow> string \<Rightarrow> instant \<Rightarrow> instant \<Rightarrow> job \<Rightarrow> dispatch_row" where
  "claimed_row new_token owner lease_end now j =
     \<lparr>row_identity = job_identity j, row_key = job_key j, row_owner = owner, row_phase = PhaseClaimed,
      row_lease = lease_end, row_heartbeat = Some now, row_token = new_token (job_identity j),
      row_attempt = 1, row_last_error = [], row_created_at = now, row_updated_at = now\<rparr>"

text \<open>The primary key and the unique constraint of the table; a conflicting row is not inserted.\<close>

definition row_conflict :: "dispatch_row \<Rightarrow> dispatch_row \<Rightarrow> bool" where
  "row_conflict r x \<longleftrightarrow> row_identity x = row_identity r \<or>
     row_key x = row_key r \<and> id_epoch (row_identity x) = id_epoch (row_identity r)"

fun insert_rows :: "dispatch_row list \<Rightarrow> dispatch_table \<Rightarrow> dispatch_table" where
  "insert_rows [] t = t"
| "insert_rows (r # rs) t = insert_rows rs (if list_ex (row_conflict r) t then t else t @ [r])"

definition insert_pending ::
  "(identity \<Rightarrow> string) \<Rightarrow> job list \<Rightarrow> string \<Rightarrow> instant \<Rightarrow> instant \<Rightarrow> int \<Rightarrow> dispatch_table \<Rightarrow> dispatch_table" where
  "insert_pending new_token jobs owner lease_end now available t =
     insert_rows (map (claimed_row new_token owner lease_end now) (take (nat available) (pending_jobs jobs t))) t"

definition owned_active :: "string \<Rightarrow> dispatch_row \<Rightarrow> bool" where
  "owned_active owner r \<longleftrightarrow> row_owner r = owner \<and> row_active r"

definition owned_rows :: "string \<Rightarrow> dispatch_table \<Rightarrow> dispatch_row list" where
  "owned_rows owner t =
     sort_key (\<lambda>r. (row_created_at r, namespace (row_key r), name (row_key r))) (filter (owned_active owner) t)"

definition claim ::
  "(string \<Rightarrow> bool) \<Rightarrow> (identity \<Rightarrow> string) \<Rightarrow> bool \<Rightarrow> job list \<Rightarrow> dispatch_table \<Rightarrow> string \<Rightarrow> int \<Rightarrow>
   duration \<Rightarrow> duration \<Rightarrow> instant \<Rightarrow> (dispatch_error + dispatch_record list) \<times> dispatch_table" where
  [effect_defs]: "claim uuid_ok new_token fails jobs t owner max_active lease timeout now =
     (case first_err
        [fail_if (owner = []) (InvalidDispatch ''owner ID must not be blank''),
         fail_if (max_active \<le> 0) (InvalidDispatch ''maximum active dispatches must be positive''),
         fail_if (lease \<le> 0) (InvalidDispatch ''lease duration must be positive''),
         fail_if (timeout \<le> 0) (InvalidDispatch ''heartbeat timeout must be positive''),
         fail_if fails (DispatchStoreFailed ''dispatch claim'')] of
        Some e \<Rightarrow> (Inl e, t)
      | None \<Rightarrow>
         (let lease_end = now + lease;
              renewed = renew_leases owner lease_end now t;
              due = takeover_due owner now (now - timeout);
              taken = map row_identity (filter due renewed);
              kept = sql_update due (take_over_row owner lease_end now) renewed;
              available = max_active - sql_count row_active kept;
              filled = (if available > 0
                        then insert_pending new_token jobs owner lease_end now available kept else kept)
          in if list_ex (\<lambda>r. due r \<and> row_attempt r \<ge> 2 ^ 31 - 1) renewed
             then (Inl (DispatchStoreFailed ''take over expired dispatch leases''), t)
             else case scan_all (scan_record uuid_ok) (owned_rows owner filled) of
               Inl e \<Rightarrow> (Inl e, t)
             | Inr ds \<Rightarrow> (Inr (map (\<lambda>d. d\<lparr>dr_lease_taken_over := dr_identity d \<in> set taken\<rparr>) ds), filled)))"

definition list_dispatches ::
  "(string \<Rightarrow> bool) \<Rightarrow> bool \<Rightarrow> dispatch_table \<Rightarrow> dispatch_error + dispatch_record list" where
  "list_dispatches uuid_ok fails t =
     (if fails then Inl (DispatchStoreFailed ''list dispatches'')
      else scan_all (scan_any_record uuid_ok)
        (sort_key (\<lambda>r. (row_created_at r, namespace (row_key r), name (row_key r), id_epoch (row_identity r))) t))"

section \<open>Updates under the lease\<close>

definition require_affected :: "int \<Rightarrow> dispatch_error option" where
  "require_affected count = fail_if (count \<noteq> 1) ErrLeaseLost"

text \<open>The rows \<open>WHERE job_uid = $1::uuid AND execution_epoch = $2\<close> selects.\<close>

definition row_named :: "string \<Rightarrow> identity \<Rightarrow> dispatch_row \<Rightarrow> bool" where
  "row_named uid i r \<longleftrightarrow> id_job_uid (row_identity r) = uid \<and> id_epoch (row_identity r) = id_epoch i"

text \<open>The further conditions under which an owner may change its row.\<close>

definition lease_held :: "string \<Rightarrow> instant \<Rightarrow> dispatch_row \<Rightarrow> bool" where
  "lease_held owner now r \<longleftrightarrow> row_owner r = owner \<and> row_lease r > now \<and> row_active r"

definition dispatch_update ::
  "(string \<Rightarrow> string option) \<Rightarrow> bool \<Rightarrow> dispatch_table \<Rightarrow> identity \<Rightarrow> string \<Rightarrow> phase \<Rightarrow> string \<Rightarrow> duration \<Rightarrow>
   instant \<Rightarrow> dispatch_error option \<times> dispatch_table" where
  [effect_defs]: "dispatch_update uuid_cast fails t i owner ph last_error lease now =
     (case first_err
        [identity_validate i,
         fail_if (owner = [] \<or> \<not> phase_active ph \<or> lease \<le> 0)
           (InvalidDispatch ''active dispatch update is invalid''),
         fail_if (fails \<or> uuid_cast (id_job_uid i) = None) (DispatchStoreFailed ''update dispatch'')] of
        Some e \<Rightarrow> (Some e, t)
      | None \<Rightarrow>
         (let P = (\<lambda>r. row_named (the (uuid_cast (id_job_uid i))) i r \<and> lease_held owner now r)
          in (require_affected (sql_count P t),
              sql_update P (\<lambda>r. r\<lparr>row_phase := ph, row_last_error := last_error, row_lease := now + lease,
                                  row_updated_at := now\<rparr>) t)))"

definition record_heartbeat ::
  "(string \<Rightarrow> bool) \<Rightarrow> (string \<Rightarrow> string option) \<Rightarrow> bool \<Rightarrow> dispatch_table \<Rightarrow> identity \<Rightarrow> string \<Rightarrow> instant \<Rightarrow>
   dispatch_error option \<times> dispatch_table" where
  [effect_defs]: "record_heartbeat uuid_ok uuid_cast fails t i token now =
     (case first_err
        [identity_validate i,
         fail_if (token = []) (InvalidDispatch ''heartbeat update is invalid''),
         fail_if (\<not> uuid_ok token) (InvalidDispatch ''heartbeat token must be a UUID''),
         fail_if (fails \<or> uuid_cast (id_job_uid i) = None \<or> uuid_cast token = None)
           (DispatchStoreFailed ''record dispatch heartbeat'')] of
        Some e \<Rightarrow> (Some e, t)
      | None \<Rightarrow>
         (let P = (\<lambda>r. row_named (the (uuid_cast (id_job_uid i))) i r \<and>
                       row_token r = the (uuid_cast token) \<and> phase_beating (row_phase r))
          in (require_affected (sql_count P t), sql_update P (\<lambda>r. r\<lparr>row_heartbeat := Some now\<rparr>) t)))"

definition fence_expired_heartbeat ::
  "(string \<Rightarrow> string option) \<Rightarrow> bool \<Rightarrow> dispatch_table \<Rightarrow> identity \<Rightarrow> string \<Rightarrow> string \<Rightarrow> duration \<Rightarrow> duration \<Rightarrow>
   instant \<Rightarrow> (dispatch_error + bool) \<times> dispatch_table" where
  [effect_defs]: "fence_expired_heartbeat uuid_cast fails t i owner last_error timeout lease now =
     (case first_err
        [identity_validate i,
         fail_if (owner = [] \<or> timeout \<le> 0 \<or> lease \<le> 0) (InvalidDispatch ''heartbeat timeout fence is invalid''),
         fail_if (fails \<or> uuid_cast (id_job_uid i) = None)
           (DispatchStoreFailed ''fence expired dispatch heartbeat'')] of
        Some e \<Rightarrow> (Inl e, t)
      | None \<Rightarrow>
         (let P = (\<lambda>r. row_named (the (uuid_cast (id_job_uid i))) i r \<and> row_owner r = owner \<and> row_lease r > now \<and>
                       phase_beating (row_phase r) \<and> opt_all (\<lambda>h. h \<le> now - timeout) (row_heartbeat r))
          in (Inr (sql_count P t = 1),
              sql_update P (\<lambda>r. r\<lparr>row_phase := PhaseStopping, row_last_error := last_error,
                                  row_lease := now + lease, row_updated_at := now\<rparr>) t)))"

definition complete_dispatch ::
  "(string \<Rightarrow> string option) \<Rightarrow> bool \<Rightarrow> dispatch_table \<Rightarrow> identity \<Rightarrow> string \<Rightarrow> phase \<Rightarrow> string \<Rightarrow> instant \<Rightarrow>
   dispatch_error option \<times> dispatch_table" where
  [effect_defs]: "complete_dispatch uuid_cast fails t i owner ph last_error now =
     (case first_err
        [identity_validate i,
         fail_if (owner = [] \<or> \<not> phase_terminal ph) (InvalidDispatch ''terminal dispatch update is invalid''),
         fail_if (fails \<or> uuid_cast (id_job_uid i) = None) (DispatchStoreFailed ''complete dispatch'')] of
        Some e \<Rightarrow> (Some e, t)
      | None \<Rightarrow>
         (let P = (\<lambda>r. row_named (the (uuid_cast (id_job_uid i))) i r \<and> lease_held owner now r)
          in (require_affected (sql_count P t),
              sql_update P (\<lambda>r. r\<lparr>row_phase := ph, row_last_error := last_error, row_lease := now,
                                  row_updated_at := now\<rparr>) t)))"

text \<open>\<open>ON DELETE CASCADE\<close>: deleting a job deletes its rows.\<close>

definition cascade_delete :: "dispatch_table \<Rightarrow> string \<Rightarrow> key \<Rightarrow> dispatch_table" where
  "cascade_delete t uid k = filter (\<lambda>r. id_job_uid (row_identity r) \<noteq> uid \<and> row_key r \<noteq> k) t"

section \<open>Requests\<close>

text \<open>
  A request to the store, by the scheduler that calls it, and what it does to the table. The jobs
  are those in the job table at the time.
\<close>

datatype dispatch_op =
    OpClaim "job list" string int duration duration instant
  | OpUpdate identity string phase string duration instant
  | OpHeartbeat identity string instant
  | OpFence identity string string duration duration instant
  | OpComplete identity string phase string instant
  | OpDeleteJob string key

record dispatch_deps =
  dp_uuid_ok :: "string \<Rightarrow> bool"
  dp_uuid_cast :: "string \<Rightarrow> string option"
  dp_new_token :: "identity \<Rightarrow> string"

fun dispatch_apply :: "dispatch_deps \<Rightarrow> dispatch_table \<Rightarrow> bool \<times> dispatch_op \<Rightarrow> dispatch_table" where
  "dispatch_apply d t (fails, OpClaim jobs owner m lease timeout now) =
     snd (claim (dp_uuid_ok d) (dp_new_token d) fails jobs t owner m lease timeout now)"
| "dispatch_apply d t (fails, OpUpdate i owner ph err lease now) =
     snd (dispatch_update (dp_uuid_cast d) fails t i owner ph err lease now)"
| "dispatch_apply d t (fails, OpHeartbeat i token now) =
     snd (record_heartbeat (dp_uuid_ok d) (dp_uuid_cast d) fails t i token now)"
| "dispatch_apply d t (fails, OpFence i owner err timeout lease now) =
     snd (fence_expired_heartbeat (dp_uuid_cast d) fails t i owner err timeout lease now)"
| "dispatch_apply d t (fails, OpComplete i owner ph err now) =
     snd (complete_dispatch (dp_uuid_cast d) fails t i owner ph err now)"
| "dispatch_apply d t (fails, OpDeleteJob uid k) = cascade_delete t uid k"

definition dispatch_run :: "dispatch_deps \<Rightarrow> dispatch_table \<Rightarrow> (bool \<times> dispatch_op) list \<Rightarrow> dispatch_table" where
  "dispatch_run d t ops = foldl (dispatch_apply d) t ops"

section \<open>What holds of the table\<close>

lemma filter_unique_key: "distinct (map f xs) \<Longrightarrow> x \<in> set xs \<Longrightarrow> filter (\<lambda>y. f y = f x) xs = [x]"
  by (induction xs) (auto simp: filter_empty_conv rev_image_eqI)

definition row_slot :: "dispatch_row \<Rightarrow> key \<times> int" where
  "row_slot r = (row_key r, id_epoch (row_identity r))"

text \<open>The constraints the migration declares: the two keys and the checks of a row.\<close>

definition row_ok :: "dispatch_row \<Rightarrow> bool" where
  "row_ok r \<longleftrightarrow> 0 < id_epoch (row_identity r) \<and> 0 < row_attempt r \<and> row_attempt r < 2 ^ 31 \<and>
     (phase_active (row_phase r) \<or> phase_terminal (row_phase r))"

definition table_ok :: "dispatch_table \<Rightarrow> bool" where
  "table_ok t \<longleftrightarrow> distinct (map row_identity t) \<and> distinct (map row_slot t) \<and> list_all row_ok t"

lemma row_conflict_iff: "row_conflict r x \<longleftrightarrow> row_identity x = row_identity r \<or> row_slot x = row_slot r"
  by (simp add: row_conflict_def row_slot_def)

lemma phase_beating_active: "phase_beating p \<Longrightarrow> phase_active p"
  by (auto simp: phase_beating_def)

lemma terminal_not_active: "phase_terminal p \<Longrightarrow> \<not> phase_active p"
  by (auto simp: phase_terminal_def)

lemma scan_all_Inr: "scan_all f rs = Inr ds \<longleftrightarrow> list_all2 (\<lambda>r d. f r = Inr d) rs ds"
proof (induction rs arbitrary: ds)
  case (Cons r rs)
  show ?case by (simp add: list_all2_Cons1 Cons.IH [symmetric] split: sum.split) auto
qed auto

lemma set_sql_update: "set (sql_update P f t) = (\<lambda>r. if P r then f r else r) ` set t"
  by (simp add: sql_update_def)

lemma sql_update_map:
  "(\<And>r. P r \<Longrightarrow> g (f r) = g r) \<Longrightarrow> map g (sql_update P f t) = map g t"
  by (induction t) (simp_all add: sql_update_def)

lemma sql_update_active_le:
  "(\<And>r. P r \<Longrightarrow> row_active r) \<Longrightarrow> sql_count row_active (sql_update P f t) \<le> sql_count row_active t"
  by (induction t) (auto simp: sql_update_def sql_count_def)

lemma sql_update_ok:
  assumes "table_ok t"
    and "\<And>r. P r \<Longrightarrow> row_identity (f r) = row_identity r \<and> row_key (f r) = row_key r"
    and "\<And>r. r \<in> set t \<Longrightarrow> P r \<Longrightarrow> row_ok r \<Longrightarrow> row_ok (f r)"
  shows "table_ok (sql_update P f t)"
proof -
  have "map row_identity (sql_update P f t) = map row_identity t"
    and "map row_slot (sql_update P f t) = map row_slot t"
    using assms(2) by (auto intro!: sql_update_map simp: row_slot_def)
  then show ?thesis using assms(1,3) by (auto simp: table_ok_def list_all_iff set_sql_update)
qed

lemma insert_rows_ok:
  "table_ok t \<Longrightarrow> list_all row_ok rs \<Longrightarrow> table_ok (insert_rows rs t)"
proof (induction rs arbitrary: t)
  case (Cons r rs)
  let ?t = "if list_ex (row_conflict r) t then t else t @ [r]"
  have "table_ok ?t" using Cons.prems by (auto simp: table_ok_def row_conflict_iff list_ex_iff)
  with Cons show ?case by simp
qed simp

lemma insert_rows_count:
  "sql_count row_active (insert_rows rs t) \<le> sql_count row_active t + int (length rs)"
proof (induction rs arbitrary: t)
  case (Cons r rs)
  let ?t = "if list_ex (row_conflict r) t then t else t @ [r]"
  have "sql_count row_active ?t \<le> sql_count row_active t + 1" by (simp add: sql_count_def)
  with Cons [of ?t] show ?case by simp
qed simp

lemma insert_rows_set: "set (insert_rows rs t) \<subseteq> set t \<union> set rs"
proof (induction rs arbitrary: t)
  case (Cons r rs)
  show ?case using Cons [of t] Cons [of "t @ [r]"] by auto
qed simp

lemma insert_rows_keep: "set t \<subseteq> set (insert_rows rs t)"
proof (induction rs arbitrary: t)
  case (Cons r rs)
  show ?case using Cons [of t] Cons [of "t @ [r]"] by auto
qed simp

lemma claimed_row_ok: "claim_pending t j \<Longrightarrow> row_ok (claimed_row tok owner e now j)"
  by (simp add: row_ok_def claimed_row_def claim_pending_def job_identity_def)

lemma set_pending: "j \<in> set (take n (pending_jobs jobs t)) \<Longrightarrow> j \<in> set jobs \<and> claim_pending t j"
  by (auto simp: pending_jobs_def dest: in_set_takeD)

lemma insert_pending_ok: "table_ok t \<Longrightarrow> table_ok (insert_pending tok jobs owner e now n t)"
  by (auto simp: insert_pending_def list_all_iff intro!: insert_rows_ok claimed_row_ok dest: set_pending)

lemma insert_pending_count:
  "0 \<le> n \<Longrightarrow> sql_count row_active (insert_pending tok jobs owner e now n t) \<le> sql_count row_active t + n"
  using insert_rows_count [of "map (claimed_row tok owner e now) (take (nat n) (pending_jobs jobs t))" t]
  by (simp add: insert_pending_def)

text \<open>The table a claim leaves, and the rows it returns.\<close>

definition claim_kept :: "dispatch_table \<Rightarrow> string \<Rightarrow> duration \<Rightarrow> duration \<Rightarrow> instant \<Rightarrow> dispatch_table" where
  "claim_kept t owner lease timeout now =
     sql_update (takeover_due owner now (now - timeout)) (take_over_row owner (now + lease) now)
       (renew_leases owner (now + lease) now t)"

definition claim_filled ::
  "(identity \<Rightarrow> string) \<Rightarrow> job list \<Rightarrow> dispatch_table \<Rightarrow> string \<Rightarrow> int \<Rightarrow> duration \<Rightarrow> instant \<Rightarrow> dispatch_table" where
  "claim_filled tok jobs kept owner m lease now =
     (if m - sql_count row_active kept > 0
      then insert_pending tok jobs owner (now + lease) now (m - sql_count row_active kept) kept else kept)"

definition claim_taken :: "dispatch_table \<Rightarrow> string \<Rightarrow> duration \<Rightarrow> duration \<Rightarrow> instant \<Rightarrow> identity list" where
  "claim_taken t owner lease timeout now =
     map row_identity (filter (takeover_due owner now (now - timeout)) (renew_leases owner (now + lease) now t))"

lemma claim_eq:
  "claim uuid_ok tok fails jobs t owner m lease timeout now =
     (if owner = [] \<or> m \<le> 0 \<or> lease \<le> 0 \<or> timeout \<le> 0 \<or> fails
      then (Inl (the (first_err
        [fail_if (owner = []) (InvalidDispatch ''owner ID must not be blank''),
         fail_if (m \<le> 0) (InvalidDispatch ''maximum active dispatches must be positive''),
         fail_if (lease \<le> 0) (InvalidDispatch ''lease duration must be positive''),
         fail_if (timeout \<le> 0) (InvalidDispatch ''heartbeat timeout must be positive''),
         fail_if fails (DispatchStoreFailed ''dispatch claim'')])), t)
      else if list_ex (\<lambda>r. takeover_due owner now (now - timeout) r \<and> row_attempt r \<ge> 2 ^ 31 - 1)
        (renew_leases owner (now + lease) now t)
      then (Inl (DispatchStoreFailed ''take over expired dispatch leases''), t)
      else let filled = claim_filled tok jobs (claim_kept t owner lease timeout now) owner m lease now
        in case scan_all (scan_record uuid_ok) (owned_rows owner filled) of
             Inl e \<Rightarrow> (Inl e, t)
           | Inr ds \<Rightarrow> (Inr (map (\<lambda>d. d\<lparr>dr_lease_taken_over :=
               dr_identity d \<in> set (claim_taken t owner lease timeout now)\<rparr>) ds), filled))"
  unfolding claim_def Let_def claim_kept_def claim_filled_def claim_taken_def
  by (cases "owner = []"; cases "m \<le> 0"; cases "lease \<le> 0"; cases "timeout \<le> 0"; cases fails) simp_all

lemma claim_Inr:
  assumes "claim uuid_ok tok fails jobs t owner m lease timeout now = (Inr ds, t')"
  shows claim_table: "t' = claim_filled tok jobs (claim_kept t owner lease timeout now) owner m lease now"
    and claim_rows: "\<exists>rs. list_all2 (\<lambda>r d. scan_record uuid_ok r = Inr d) (owned_rows owner t') rs \<and>
      ds = map (\<lambda>d. d\<lparr>dr_lease_taken_over := dr_identity d \<in> set (claim_taken t owner lease timeout now)\<rparr>) rs"
    and claim_args: "0 < m" "0 < lease" "0 < timeout"
    and claim_attempts: "\<not> list_ex (\<lambda>r. takeover_due owner now (now - timeout) r \<and> row_attempt r \<ge> 2 ^ 31 - 1)
        (renew_leases owner (now + lease) now t)"
proof -
  note eq = assms [unfolded claim_eq Let_def scan_all_Inr]
  show args: "0 < m" "0 < lease" "0 < timeout" using eq by (simp_all split: if_splits)
  show over: "\<not> list_ex (\<lambda>r. takeover_due owner now (now - timeout) r \<and> row_attempt r \<ge> 2 ^ 31 - 1)
        (renew_leases owner (now + lease) now t)" using eq by (simp split: if_splits)
  let ?f = "claim_filled tok jobs (claim_kept t owner lease timeout now) owner m lease now"
  have valid: "\<not> (owner = [] \<or> m \<le> 0 \<or> lease \<le> 0 \<or> timeout \<le> 0 \<or> fails)" using eq by (simp split: if_splits)
  obtain rs where rs: "scan_all (scan_record uuid_ok) (owned_rows owner ?f) = Inr rs"
    using eq valid over by (cases "scan_all (scan_record uuid_ok) (owned_rows owner ?f)") simp_all
  show t': "t' = ?f" using eq valid over rs by simp
  show "\<exists>rs. list_all2 (\<lambda>r d. scan_record uuid_ok r = Inr d) (owned_rows owner t') rs \<and>
      ds = map (\<lambda>d. d\<lparr>dr_lease_taken_over := dr_identity d \<in> set (claim_taken t owner lease timeout now)\<rparr>) rs"
    using eq valid over rs unfolding t' scan_all_Inr [symmetric] by auto
qed

lemma claim_Inl: "claim uuid_ok tok fails jobs t owner m lease timeout now = (Inl e, t') \<Longrightarrow> t' = t"
  unfolding claim_eq Let_def by (simp split: if_splits sum.splits)

text \<open>A request on one row either leaves the table or is one \<open>UPDATE\<close> of a row that allows it.\<close>

lemma dispatch_update_cases:
  obtains "snd (dispatch_update uuid_cast fails t i owner ph err lease now) = t"
  | u where "snd (dispatch_update uuid_cast fails t i owner ph err lease now) =
      sql_update (\<lambda>r. row_named u i r \<and> lease_held owner now r)
        (\<lambda>r. r\<lparr>row_phase := ph, row_last_error := err, row_lease := now + lease, row_updated_at := now\<rparr>) t"
      and "phase_active ph"
  by (cases "fst (dispatch_update uuid_cast fails t i owner ph err lease now)")
    (auto simp: dispatch_update_def Let_def split: option.splits)

lemma record_heartbeat_cases:
  obtains "snd (record_heartbeat uuid_ok uuid_cast fails t i token now) = t"
  | u tok where "snd (record_heartbeat uuid_ok uuid_cast fails t i token now) =
      sql_update (\<lambda>r. row_named u i r \<and> row_token r = tok \<and> phase_beating (row_phase r))
        (\<lambda>r. r\<lparr>row_heartbeat := Some now\<rparr>) t"
      and "uuid_cast token = Some tok"
  by (cases "fst (record_heartbeat uuid_ok uuid_cast fails t i token now)")
    (auto simp: record_heartbeat_def Let_def split: option.splits)

lemma fence_cases:
  obtains "snd (fence_expired_heartbeat uuid_cast fails t i owner err timeout lease now) = t"
  | u where "snd (fence_expired_heartbeat uuid_cast fails t i owner err timeout lease now) =
      sql_update (\<lambda>r. row_named u i r \<and> row_owner r = owner \<and> row_lease r > now \<and>
          phase_beating (row_phase r) \<and> opt_all (\<lambda>h. h \<le> now - timeout) (row_heartbeat r))
        (\<lambda>r. r\<lparr>row_phase := PhaseStopping, row_last_error := err, row_lease := now + lease, row_updated_at := now\<rparr>) t"
  by (cases "fst (fence_expired_heartbeat uuid_cast fails t i owner err timeout lease now)")
    (auto simp: fence_expired_heartbeat_def Let_def split: option.splits)

lemma complete_cases:
  obtains "snd (complete_dispatch uuid_cast fails t i owner ph err now) = t"
  | u where "snd (complete_dispatch uuid_cast fails t i owner ph err now) =
      sql_update (\<lambda>r. row_named u i r \<and> lease_held owner now r)
        (\<lambda>r. r\<lparr>row_phase := ph, row_last_error := err, row_lease := now, row_updated_at := now\<rparr>) t"
      and "phase_terminal ph"
  by (cases "fst (complete_dispatch uuid_cast fails t i owner ph err now)")
    (auto simp: complete_dispatch_def Let_def split: option.splits)

lemma renew_leases_ok: "table_ok t \<Longrightarrow> table_ok (renew_leases owner e now t)"
  unfolding renew_leases_def by (rule sql_update_ok) (simp_all add: row_ok_def)

lemma claim_kept_ok:
  assumes "table_ok t"
    and "\<not> list_ex (\<lambda>r. takeover_due owner now (now - timeout) r \<and> row_attempt r \<ge> 2 ^ 31 - 1)
        (renew_leases owner (now + lease) now t)"
  shows "table_ok (claim_kept t owner lease timeout now)"
  unfolding claim_kept_def using assms(2)
  by (intro sql_update_ok renew_leases_ok assms(1)) (auto simp: take_over_row_def row_ok_def list_ex_iff)

lemma claim_ok:
  assumes "table_ok t"
  shows "table_ok (snd (claim uuid_ok tok fails jobs t owner m lease timeout now))"
proof (cases "claim uuid_ok tok fails jobs t owner m lease timeout now")
  case (Pair res t')
  show ?thesis
  proof (cases res)
    case (Inl e)
    then show ?thesis using claim_Inl [OF Pair [unfolded Inl]] Pair assms by simp
  next
    case (Inr ds)
    note c = Pair [unfolded Inr]
    have "table_ok (claim_kept t owner lease timeout now)" by (rule claim_kept_ok [OF assms claim_attempts [OF c]])
    then show ?thesis using claim_table [OF c] Pair by (simp add: claim_filled_def insert_pending_ok)
  qed
qed

lemma claim_kept_count:
  "sql_count row_active (claim_kept t owner lease timeout now) \<le> sql_count row_active t"
proof -
  have "sql_count row_active (claim_kept t owner lease timeout now)
      \<le> sql_count row_active (renew_leases owner (now + lease) now t)"
    unfolding claim_kept_def by (rule sql_update_active_le) (simp add: takeover_due_def)
  also have "\<dots> \<le> sql_count row_active t"
    unfolding renew_leases_def by (rule sql_update_active_le) (simp add: renewable_def)
  finally show ?thesis .
qed

lemma claim_count:
  assumes "sql_count row_active t \<le> n" and "m \<le> n"
  shows "sql_count row_active (snd (claim uuid_ok tok fails jobs t owner m lease timeout now)) \<le> n"
proof (cases "claim uuid_ok tok fails jobs t owner m lease timeout now")
  case (Pair res t')
  let ?k = "claim_kept t owner lease timeout now"
  have kept: "sql_count row_active ?k \<le> n" using claim_kept_count assms(1) by (rule order_trans)
  have fill: "sql_count row_active (claim_filled tok jobs ?k owner m lease now) \<le> n"
    using insert_pending_count [of "m - sql_count row_active ?k" tok jobs owner "now + lease" now ?k] kept assms(2)
    by (auto simp: claim_filled_def)
  show ?thesis using claim_Inl claim_table Pair assms(1) fill by (cases res) fastforce+
qed

text \<open>A claim of a request sequence admits at most \<open>m\<close> dispatches.\<close>

fun claim_cap :: "int \<Rightarrow> bool \<times> dispatch_op \<Rightarrow> bool" where
  "claim_cap m (_, OpClaim _ _ max_active _ _ _) = (max_active \<le> m)"
| "claim_cap m _ = True"

lemma cascade_ok: "table_ok t \<Longrightarrow> table_ok (cascade_delete t uid k)"
  by (auto simp: table_ok_def cascade_delete_def list_all_iff intro: distinct_map_filter)

lemma dispatch_apply_ok: "table_ok t \<Longrightarrow> table_ok (dispatch_apply d t (fails, op))"
proof (cases op)
  case (OpUpdate i owner ph err lease now)
  assume "table_ok t"
  with OpUpdate show ?thesis
    by (cases rule: dispatch_update_cases [of "dp_uuid_cast d" fails t i owner ph err lease now])
      (auto intro!: sql_update_ok simp: row_ok_def)
next
  case (OpHeartbeat i token now)
  assume "table_ok t"
  with OpHeartbeat show ?thesis
    by (cases rule: record_heartbeat_cases [of "dp_uuid_ok d" "dp_uuid_cast d" fails t i token now])
      (auto intro!: sql_update_ok simp: row_ok_def)
next
  case (OpFence i owner err timeout lease now)
  assume "table_ok t"
  with OpFence show ?thesis
    by (cases rule: fence_cases [of "dp_uuid_cast d" fails t i owner err timeout lease now])
      (auto intro!: sql_update_ok simp: row_ok_def)
next
  case (OpComplete i owner ph err now)
  assume "table_ok t"
  with OpComplete show ?thesis
    by (cases rule: complete_cases [of "dp_uuid_cast d" fails t i owner ph err now])
      (auto intro!: sql_update_ok simp: row_ok_def)
qed (auto intro: claim_ok cascade_ok)

lemma dispatch_apply_count:
  assumes "sql_count row_active t \<le> m" and "claim_cap m (fails, op)"
  shows "sql_count row_active (dispatch_apply d t (fails, op)) \<le> m"
proof (cases op)
  case (OpUpdate i owner ph err lease now)
  with assms(1) show ?thesis
    by (cases rule: dispatch_update_cases [of "dp_uuid_cast d" fails t i owner ph err lease now])
      (auto intro!: order_trans [OF sql_update_active_le] simp: lease_held_def)
next
  case (OpHeartbeat i token now)
  with assms(1) show ?thesis
    by (cases rule: record_heartbeat_cases [of "dp_uuid_ok d" "dp_uuid_cast d" fails t i token now])
      (auto intro!: order_trans [OF sql_update_active_le] phase_beating_active)
next
  case (OpFence i owner err timeout lease now)
  with assms(1) show ?thesis
    by (cases rule: fence_cases [of "dp_uuid_cast d" fails t i owner err timeout lease now])
      (auto intro!: order_trans [OF sql_update_active_le] phase_beating_active)
next
  case (OpComplete i owner ph err now)
  with assms(1) show ?thesis
    by (cases rule: complete_cases [of "dp_uuid_cast d" fails t i owner ph err now])
      (auto intro!: order_trans [OF sql_update_active_le] simp: lease_held_def)
next
  case (OpDeleteJob uid k)
  have "sql_count row_active (cascade_delete t uid k) \<le> sql_count row_active t"
    by (induction t) (auto simp: sql_count_def cascade_delete_def)
  with assms(1) OpDeleteJob show ?thesis by simp
qed (use assms in \<open>simp add: claim_count\<close>)

section \<open>Leases\<close>

text \<open>
  C21. However schedulers race, the store never holds more active dispatches than the largest
  \<open>maxActive\<close> any of them claims with, and never two dispatches for one execution: whatever
  sequence of requests runs on an empty table, a job's UID and epoch name at most one row, as do
  its name and epoch, and every row satisfies the checks of the schema.
\<close>

theorem dispatches_bounded:
  assumes "list_all (claim_cap m) ops" and "0 \<le> m"
  shows "sql_count row_active (dispatch_run d [] ops) \<le> m \<and> table_ok (dispatch_run d [] ops)"
proof -
  have "sql_count row_active (foldl (dispatch_apply d) t ops) \<le> m \<and> table_ok (foldl (dispatch_apply d) t ops)"
    if "sql_count row_active t \<le> m" and "table_ok t" for t
    using that assms(1)
  proof (induction ops arbitrary: t)
    case (Cons op ops)
    then show ?case
      using dispatch_apply_count [of t m "fst op" "snd op" d] dispatch_apply_ok [of t d "fst op" "snd op"] by simp
  qed simp
  from this [of "[]"] assms(2) show ?thesis by (simp add: dispatch_run_def sql_count_def table_ok_def)
qed

text \<open>
  A request of anyone but the owner of a lease, made before the lease ends and while the
  heartbeat \<open>h\<close> is recent enough for the caller's timeout.
\<close>

fun outsider :: "string \<Rightarrow> instant \<Rightarrow> instant \<Rightarrow> bool \<times> dispatch_op \<Rightarrow> bool" where
  "outsider owner lease_end h (_, OpClaim _ who _ _ timeout now) =
     (who \<noteq> owner \<and> now < lease_end \<and> now - timeout < h)"
| "outsider owner lease_end h (_, OpUpdate _ who _ _ _ _) = (who \<noteq> owner)"
| "outsider owner lease_end h (_, OpHeartbeat _ _ now) = (h \<le> now)"
| "outsider owner lease_end h (_, OpFence _ who _ _ _ _) = (who \<noteq> owner)"
| "outsider owner lease_end h (_, OpComplete _ who _ _ _) = (who \<noteq> owner)"
| "outsider owner lease_end h (_, OpDeleteJob _ _) = False"

lemma sql_update_other: "r \<in> set t \<Longrightarrow> \<not> P r \<Longrightarrow> r \<in> set (sql_update P f t)"
  by (force simp: set_sql_update)

lemma claim_outsider:
  assumes "r \<in> set t" and "row_owner r \<noteq> owner" and "now < row_lease r"
    and "opt_all (\<lambda>x. now - timeout < x) (row_heartbeat r)"
  shows "r \<in> set (snd (claim uuid_ok tok fails jobs t owner m lease timeout now))"
proof (cases "claim uuid_ok tok fails jobs t owner m lease timeout now")
  case (Pair res t')
  have "r \<in> set (renew_leases owner (now + lease) now t)"
    unfolding renew_leases_def by (rule sql_update_other) (use assms in \<open>simp_all add: renewable_def\<close>)
  then have "r \<in> set (claim_kept t owner lease timeout now)"
    unfolding claim_kept_def
    by (rule sql_update_other) (use assms in \<open>cases "row_heartbeat r"; simp add: takeover_due_def\<close>)
  then have "r \<in> set (claim_filled tok jobs (claim_kept t owner lease timeout now) owner m lease now)"
    using insert_rows_keep by (auto simp: claim_filled_def insert_pending_def)
  then show ?thesis using claim_Inl claim_table Pair assms(1) by (cases res) fastforce+
qed

lemma outsider_keeps:
  assumes "r \<in> set t" and "opt_all (\<lambda>x. h \<le> x) (row_heartbeat r)"
    and "outsider (row_owner r) (row_lease r) h (fails, op)"
  shows "\<exists>hb. opt_all (\<lambda>x. h \<le> x) hb \<and> r\<lparr>row_heartbeat := hb\<rparr> \<in> set (dispatch_apply d t (fails, op))"
proof -
  have same: ?thesis if "r \<in> set (dispatch_apply d t (fails, op))"
    using that assms(2) by (intro exI [of _ "row_heartbeat r"]) simp
  show ?thesis
  proof (cases op)
    case (OpClaim jobs who m lease timeout now)
    with assms show ?thesis by (intro same) (cases "row_heartbeat r"; auto intro!: claim_outsider)
  next
    case (OpUpdate i who ph err lease now)
    with assms show ?thesis
      by (intro same, cases rule: dispatch_update_cases [of "dp_uuid_cast d" fails t i who ph err lease now])
        (auto intro!: sql_update_other simp: lease_held_def)
  next
    case (OpHeartbeat i token now)
    show ?thesis
    proof (cases rule: record_heartbeat_cases [of "dp_uuid_ok d" "dp_uuid_cast d" fails t i token now])
      case 1
      with OpHeartbeat assms(1) show ?thesis by (intro same) simp
    next
      case (2 u tok)
      let ?P = "\<lambda>r. row_named u i r \<and> row_token r = tok \<and> phase_beating (row_phase r)"
      show ?thesis
      proof (cases "?P r")
        case True
        with 2 OpHeartbeat assms show ?thesis by (intro exI [of _ "Some now"]) (force simp: set_sql_update)
      next
        case False
        then show ?thesis using 2 OpHeartbeat assms(1) by (intro same) (auto intro!: sql_update_other)
      qed
    qed
  next
    case (OpFence i who err timeout lease now)
    with assms show ?thesis
      by (intro same, cases rule: fence_cases [of "dp_uuid_cast d" fails t i who err timeout lease now])
        (auto intro!: sql_update_other)
  next
    case (OpComplete i who ph err now)
    with assms show ?thesis
      by (intro same, cases rule: complete_cases [of "dp_uuid_cast d" fails t i who ph err now])
        (auto intro!: sql_update_other simp: lease_held_def)
  qed (use assms in simp)
qed

text \<open>
  C5. A lease excludes everyone else. While a dispatch's lease has not ended and its heartbeats
  are recent, no sequence of requests of other schedulers and of heartbeats changes its owner, its
  phase, its lease, its attempt or its error: the row stays in the table with at most a newer
  heartbeat, and remains the only row of its execution.
\<close>

theorem lease_is_exclusive:
  assumes "table_ok t" and "r \<in> set t" and "opt_all (\<lambda>x. h \<le> x) (row_heartbeat r)"
    and "list_all (outsider (row_owner r) (row_lease r) h) ops"
  shows "\<exists>hb. opt_all (\<lambda>x. h \<le> x) hb \<and>
    filter (\<lambda>x. row_identity x = row_identity r) (dispatch_run d t ops) = [r\<lparr>row_heartbeat := hb\<rparr>]"
proof -
  have "\<exists>hb. opt_all (\<lambda>x. h \<le> x) hb \<and> r\<lparr>row_heartbeat := hb\<rparr> \<in> set (foldl (dispatch_apply d) t ops) \<and>
      table_ok (foldl (dispatch_apply d) t ops)"
    using assms
  proof (induction ops arbitrary: t r)
    case Nil
    then show ?case by (intro exI [of _ "row_heartbeat r"]) simp
  next
    case (Cons op ops)
    let ?t = "dispatch_apply d t op"
    obtain hb where hb: "opt_all (\<lambda>x. h \<le> x) hb" and "r\<lparr>row_heartbeat := hb\<rparr> \<in> set ?t"
      using outsider_keeps [of r t h "fst op" "snd op" d] Cons.prems by auto
    moreover have "table_ok ?t" using dispatch_apply_ok [of t d "fst op" "snd op"] Cons.prems(1) by simp
    ultimately show ?case using Cons.IH [of ?t "r\<lparr>row_heartbeat := hb\<rparr>"] Cons.prems(4) by simp
  qed
  then obtain hb where hb: "opt_all (\<lambda>x. h \<le> x) hb" and r': "r\<lparr>row_heartbeat := hb\<rparr> \<in> set (dispatch_run d t ops)"
    and "distinct (map row_identity (dispatch_run d t ops))"
    by (auto simp: dispatch_run_def table_ok_def)
  then have "filter (\<lambda>x. row_identity x = row_identity (r\<lparr>row_heartbeat := hb\<rparr>)) (dispatch_run d t ops)
      = [r\<lparr>row_heartbeat := hb\<rparr>]" by (intro filter_unique_key)
  with hb show ?thesis by auto
qed

text \<open>What a claim leaves of the leases.\<close>

lemma claim_kept_row:
  assumes "r \<in> set (claim_kept t owner lease timeout now)" and "row_active r" and "0 < lease"
  shows "now < row_lease r \<and> (row_owner r = owner \<longrightarrow> row_lease r = now + lease)"
proof -
  obtain r0 where r0: "r0 \<in> set (renew_leases owner (now + lease) now t)"
    and r: "r = (if takeover_due owner now (now - timeout) r0 then take_over_row owner (now + lease) now r0 else r0)"
    using assms(1) by (auto simp: claim_kept_def set_sql_update)
  obtain r1 where r1: "r1 \<in> set t"
    and r01: "r0 = (if renewable owner now r1 then r1\<lparr>row_lease := now + lease, row_updated_at := now\<rparr> else r1)"
    using r0 by (auto simp: renew_leases_def set_sql_update)
  show ?thesis using assms(2,3) r r01
    by (auto simp: take_over_row_def takeover_due_def renewable_def split: if_splits)
qed

lemma claim_filled_row:
  assumes "r \<in> set (claim_filled tok jobs kept owner m lease now)"
  shows "r \<in> set kept \<or> row_owner r = owner \<and> row_lease r = now + lease"
  using assms insert_rows_set by (fastforce simp: claim_filled_def insert_pending_def claimed_row_def split: if_splits)

lemma set_owned_rows: "set (owned_rows owner t) = {r \<in> set t. owned_active owner r}"
  by (simp add: owned_rows_def)

lemma scan_record_Inr:
  "scan_record uuid_ok r = Inr d \<Longrightarrow> dr_identity d = row_identity r \<and> dr_owner_id d = row_owner r \<and>
     dr_lease_expires_at d = row_lease r \<and> dr_phase d = row_phase r \<and> dr_key d = row_key r"
  by (auto simp: scan_record_def scan_any_record_def split: option.splits sum.splits if_splits)

text \<open>
  A successful \<open>Claim\<close> leaves no dispatch behind: every active row of the table has a lease
  that runs, and the caller receives exactly the active rows it owns, each with the full lease
  from now on.
\<close>

lemma claim_leaves_no_expired_lease:
  assumes "claim uuid_ok tok fails jobs t owner m lease timeout now = (Inr ds, t')"
  shows "list_all (\<lambda>r. row_active r \<longrightarrow> now < row_lease r) t' \<and>
    list_all (\<lambda>d. dr_owner_id d = owner \<and> phase_active (dr_phase d) \<and> dr_lease_expires_at d = now + lease) ds \<and>
    set (map dr_identity ds) = row_identity ` {r \<in> set t'. owned_active owner r}"
proof -
  note lease = claim_args(2) [OF assms]
  have row: "now < row_lease r \<and> (row_owner r = owner \<longrightarrow> row_lease r = now + lease)"
    if "r \<in> set t'" and "row_active r" for r
    using claim_filled_row [OF that(1) [unfolded claim_table [OF assms]]] claim_kept_row [OF _ that(2) lease] lease
    by auto
  obtain rs where rs: "list_all2 (\<lambda>r d. scan_record uuid_ok r = Inr d) (owned_rows owner t') rs"
    and ds: "ds = map (\<lambda>d. d\<lparr>dr_lease_taken_over := dr_identity d \<in> set (claim_taken t owner lease timeout now)\<rparr>) rs"
    using claim_rows [OF assms] by blast
  have same: "map dr_identity rs = map row_identity (owned_rows owner t')"
    using rs by (induction rule: list_all2_induct) (auto dest: scan_record_Inr)
  have "dr_owner_id d = owner \<and> phase_active (dr_phase d) \<and> dr_lease_expires_at d = now + lease"
    if "d \<in> set rs" for d
  proof -
    have "\<exists>r \<in> set (owned_rows owner t'). scan_record uuid_ok r = Inr d"
      using rs that by (induction rule: list_all2_induct) auto
    then obtain r where "r \<in> set (owned_rows owner t')" and "scan_record uuid_ok r = Inr d" by blast
    then show ?thesis using row [of r] scan_record_Inr [of uuid_ok r d] by (simp add: set_owned_rows owned_active_def)
  qed
  moreover have "map dr_identity ds = map row_identity (owned_rows owner t')" using same by (simp add: ds comp_def)
  then have "set (map dr_identity ds) = row_identity ` set (owned_rows owner t')" by (simp only: set_map)
  ultimately show ?thesis using row unfolding ds by (auto simp: list_all_iff set_owned_rows)
qed

section \<open>An example\<close>

definition sample_dispatch_deps :: dispatch_deps where
  "sample_dispatch_deps = \<lparr>dp_uuid_ok = uuid36, dp_uuid_cast = (\<lambda>s. if uuid36 s then Some s else None),
     dp_new_token = (\<lambda>i. id_job_uid i)\<rparr>"

definition sample_identity :: identity where
  "sample_identity = \<lparr>id_job_uid = sample_uid, id_epoch = 1\<rparr>"

definition sample_row :: dispatch_row where
  "sample_row = \<lparr>row_identity = sample_identity, row_key = sample_key, row_owner = ''a'', row_phase = PhaseClaimed,
     row_lease = 30, row_heartbeat = Some 20, row_token = sample_uid, row_attempt = 1, row_last_error = [],
     row_created_at = 20, row_updated_at = 20\<rparr>"

definition sample_dispatch_ops :: "(bool \<times> dispatch_op) list" where
  "sample_dispatch_ops =
     [(False, OpClaim [sample_started] ''a'' 3 10 20 20), (True, OpClaim [] ''b'' 2 10 20 24),
      (False, OpClaim [sample_started] ''b'' 2 10 20 25), (False, OpHeartbeat sample_identity sample_uid 26),
      (False, OpComplete sample_identity ''b'' PhaseFailed [] 27)]"

lemma sample_dispatch_run: "dispatch_run sample_dispatch_deps [] (take 1 sample_dispatch_ops) = [sample_row]"
  by code_simp

theorem dispatches_bounded_witness:
  "dispatch_run sample_dispatch_deps [] sample_dispatch_ops = [sample_row\<lparr>row_heartbeat := Some 26\<rparr>] \<and>
   sql_count row_active (dispatch_run sample_dispatch_deps [] sample_dispatch_ops) \<le> 3 \<and>
   table_ok (dispatch_run sample_dispatch_deps [] sample_dispatch_ops)"
proof -
  have "list_all (claim_cap 3) sample_dispatch_ops" by code_simp
  moreover have "dispatch_run sample_dispatch_deps [] sample_dispatch_ops = [sample_row\<lparr>row_heartbeat := Some 26\<rparr>]" by code_simp
  ultimately show ?thesis using dispatches_bounded [of 3 sample_dispatch_ops sample_dispatch_deps] by simp
qed

theorem lease_is_exclusive_witness:
  "\<exists>hb. opt_all (\<lambda>x. 20 \<le> x) hb \<and>
     filter (\<lambda>x. row_identity x = row_identity sample_row)
       (dispatch_run sample_dispatch_deps [sample_row] (drop 1 sample_dispatch_ops)) = [sample_row\<lparr>row_heartbeat := hb\<rparr>]"
proof (rule lease_is_exclusive)
  show "table_ok [sample_row]" by code_simp
  show "opt_all (\<lambda>x. 20 \<le> x) (row_heartbeat sample_row)" by code_simp
  show "list_all (outsider (row_owner sample_row) (row_lease sample_row) 20) (drop 1 sample_dispatch_ops)" by code_simp
qed simp

lemma claim_leaves_no_expired_lease_witness:
  "\<exists>ds t'. claim uuid36 (\<lambda>i. id_job_uid i) False [sample_started] [sample_row] ''b'' 2 10 20 31 = (Inr ds, t') \<and>
     map dr_lease_taken_over ds = [True] \<and> list_all (\<lambda>r. row_active r \<longrightarrow> 31 < row_lease r) t'"
proof -
  let ?c = "claim uuid36 (\<lambda>i. id_job_uid i) False [sample_started] [sample_row] ''b'' 2 10 20 31"
  have c: "?c = (Inr (projr (fst ?c)), snd ?c)" by code_simp
  have "map dr_lease_taken_over (projr (fst ?c)) = [True]" by code_simp
  with c conjunct1 [OF claim_leaves_no_expired_lease [OF c]] show ?thesis by (intro exI conjI)
qed

end
