(* ===== verification/Scheduler.thy ===== *)
theory Scheduler
  imports Dispatch "HOL-Library.State_Monad"
begin

text \<open>
  The scheduler's reconciler, \<open>control-plane/scheduler/internal/scheduler/scheduler.go\<close>: one tick
  claims dispatches, brings each one's job and execution together, and sweeps what is left over.

  The reconciler shares the dispatch table and the job table with other schedulers, the API server
  and the engine's heartbeats. Every call it makes (to a store, to the execution dispatcher, to
  the clock) is one step of the state \<open>sched_state\<close>, which counts the calls. The environment
  \<open>sched_env\<close> says, for the call of each number, what the other processes did to the two tables
  since the call before, whether the database fails, what the clock shows and what the execution
  dispatcher (the Kubernetes package) answers. The goroutines of one tick work on different
  dispatches; they run one after the other here, and what they do to each other's tables is a case
  of what other processes do.

  The calls thread the state through the library's state monad, as the source threads it through
  the receiver. The text of an error is the parameter \<open>en_text\<close>. Metrics are left out.
\<close>

section \<open>Data\<close>

datatype observation_state =
    ObservationPending | ObservationRunning | ObservationSucceeded | ObservationFailed
  | ObservationOther string

record observation =
  ob_state :: observation_state
  ob_reason :: string
  ob_message :: string

text \<open>
  An error of the execution dispatcher: its text and, when its chain has a \<open>PermanentError\<close>, the
  text of that one.
\<close>

record dispatcher_error =
  de_text :: string
  de_permanent :: "string option"

datatype sched_error =
    SchedJob job_error
  | SchedJobStore
  | SchedDispatch dispatch_error
  | SchedDispatcher dispatcher_error
  | SchedEnded job_state
  | SchedRetryLimit
  | SchedLifecycle desired_state job_state
  | SchedObservation string
  | SchedConfig string
  | SchedJoined sched_error sched_error

record reconciler =
  rc_owner_id :: string
  rc_maximum_active :: int
  rc_lease_duration :: duration
  rc_heartbeat_timeout :: duration
  rc_reconcile_every :: duration
  rc_operation_timeout :: duration

definition new_reconciler :: "reconciler \<Rightarrow> bool \<Rightarrow> sched_error + reconciler" where
  "new_reconciler config nil_dependency =
     (case first_err
        [fail_if (rc_owner_id config = []) (SchedConfig ''scheduler owner ID must not be blank''),
         fail_if (rc_maximum_active config \<le> 0) (SchedConfig ''scheduler maximum active jobs must be positive''),
         fail_if (rc_lease_duration config \<le> 0 \<or> rc_heartbeat_timeout config \<le> 0 \<or> rc_reconcile_every config \<le> 0 \<or>
             rc_reconcile_every config \<ge> rc_lease_duration config \<or>
             rc_heartbeat_timeout config \<le> rc_reconcile_every config)
           (SchedConfig ''scheduler intervals must be positive and reconciliation must be shorter than the lease''),
         fail_if (rc_operation_timeout config \<le> 0 \<or> rc_operation_timeout config \<ge> rc_lease_duration config)
           (SchedConfig ''scheduler operation timeout must be positive and shorter than the lease''),
         fail_if nil_dependency (SchedConfig ''scheduler dependencies must not be nil'')] of
        Some e \<Rightarrow> Inl e
      | None \<Rightarrow> Inr config)"

text \<open>What the reconciler does to the world outside its process, in order.\<close>

datatype sched_event =
    EvStop identity
  | EvCleanup identity
  | EvReconcile job dispatch_record
  | EvSweep "dispatch_record list"
  | EvAdvance job
  | EvComplete identity phase

record sched_state =
  ss_rows :: dispatch_table
  ss_jobs :: job_table
  ss_calls :: nat
  ss_log :: "sched_event list"

record sched_env =
  en_deps :: dispatch_deps
  en_others :: "nat \<Rightarrow> dispatch_table \<times> job_table \<Rightarrow> dispatch_table \<times> job_table"
  en_fails :: "nat \<Rightarrow> bool"
  en_clock :: "nat \<Rightarrow> instant"
  en_reconcile :: "nat \<Rightarrow> job \<Rightarrow> dispatch_record \<Rightarrow> dispatcher_error + observation"
  en_stop :: "nat \<Rightarrow> identity \<Rightarrow> dispatcher_error + bool"
  en_cleanup :: "nat \<Rightarrow> identity \<Rightarrow> dispatcher_error option"
  en_sweep :: "nat \<Rightarrow> dispatch_record list \<Rightarrow> dispatcher_error option"
  en_text :: "sched_error \<Rightarrow> string"

type_synonym 'a sched = "(sched_state, 'a) state"

section \<open>Calls\<close>

text \<open>One call: the others move first, then the call acts on what they left.\<close>

definition others_move :: "sched_env \<Rightarrow> sched_state \<Rightarrow> sched_state" where
  "others_move en s =
     (case en_others en (ss_calls s) (ss_rows s, ss_jobs s) of
        (rows, jobs) \<Rightarrow> s\<lparr>ss_rows := rows, ss_jobs := jobs, ss_calls := Suc (ss_calls s)\<rparr>)"

definition call :: "sched_env \<Rightarrow> (nat \<Rightarrow> sched_state \<Rightarrow> 'a \<times> sched_state) \<Rightarrow> 'a sched" where
  "call en act = State (\<lambda>s. act (ss_calls s) (others_move en s))"

definition log_event :: "sched_event \<Rightarrow> sched_state \<Rightarrow> sched_state" where
  "log_event ev s = s\<lparr>ss_log := ss_log s @ [ev]\<rparr>"

definition clock_now :: "sched_env \<Rightarrow> instant sched" where
  "clock_now en = call en (\<lambda>n s. (en_clock en n, s))"

definition jobs_get :: "sched_env \<Rightarrow> key \<Rightarrow> (sched_error + job) sched" where
  "jobs_get en k = call en (\<lambda>n s.
     (if en_fails en n then Inl SchedJobStore
      else case repo_get (ss_jobs s) k of Inl e \<Rightarrow> Inl (SchedJob e) | Inr j \<Rightarrow> Inr j, s))"

definition jobs_update :: "sched_env \<Rightarrow> job \<Rightarrow> int \<Rightarrow> sched_error option sched" where
  "jobs_update en candidate expected = call en (\<lambda>n s.
     if en_fails en n then (Some SchedJobStore, s)
     else case repo_update (dp_uuid_ok (en_deps en)) (ss_jobs s) candidate expected of
       (Inl e, _) \<Rightarrow> (Some (SchedJob e), s)
     | (Inr j, jobs) \<Rightarrow> (None, log_event (EvAdvance j) (s\<lparr>ss_jobs := jobs\<rparr>)))"

definition store_update ::
  "sched_env \<Rightarrow> identity \<Rightarrow> string \<Rightarrow> phase \<Rightarrow> string \<Rightarrow> duration \<Rightarrow> instant \<Rightarrow> sched_error option sched" where
  "store_update en i owner ph err lease now = call en (\<lambda>n s.
     case dispatch_update (dp_uuid_cast (en_deps en)) (en_fails en n) (ss_rows s) i owner ph err lease now of
       (e, rows) \<Rightarrow> (map_option SchedDispatch e, s\<lparr>ss_rows := rows\<rparr>))"

definition store_fence ::
  "sched_env \<Rightarrow> identity \<Rightarrow> string \<Rightarrow> string \<Rightarrow> duration \<Rightarrow> duration \<Rightarrow> instant \<Rightarrow> (sched_error + bool) sched" where
  "store_fence en i owner err timeout lease now = call en (\<lambda>n s.
     case fence_expired_heartbeat (dp_uuid_cast (en_deps en)) (en_fails en n) (ss_rows s) i owner err timeout lease now of
       (Inl e, rows) \<Rightarrow> (Inl (SchedDispatch e), s\<lparr>ss_rows := rows\<rparr>)
     | (Inr b, rows) \<Rightarrow> (Inr b, s\<lparr>ss_rows := rows\<rparr>))"

definition store_complete ::
  "sched_env \<Rightarrow> identity \<Rightarrow> string \<Rightarrow> phase \<Rightarrow> string \<Rightarrow> instant \<Rightarrow> sched_error option sched" where
  "store_complete en i owner ph err now = call en (\<lambda>n s.
     case complete_dispatch (dp_uuid_cast (en_deps en)) (en_fails en n) (ss_rows s) i owner ph err now of
       (None, rows) \<Rightarrow> (None, log_event (EvComplete i ph) (s\<lparr>ss_rows := rows\<rparr>))
     | (Some e, rows) \<Rightarrow> (Some (SchedDispatch e), s\<lparr>ss_rows := rows\<rparr>))"

definition dispatcher_reconcile :: "sched_env \<Rightarrow> job \<Rightarrow> dispatch_record \<Rightarrow> (dispatcher_error + observation) sched" where
  "dispatcher_reconcile en j rec = call en (\<lambda>n s. (en_reconcile en n j rec, log_event (EvReconcile j rec) s))"

definition dispatcher_stop :: "sched_env \<Rightarrow> identity \<Rightarrow> (dispatcher_error + bool) sched" where
  "dispatcher_stop en i = call en (\<lambda>n s. (en_stop en n i, log_event (EvStop i) s))"

definition dispatcher_cleanup :: "sched_env \<Rightarrow> identity \<Rightarrow> dispatcher_error option sched" where
  "dispatcher_cleanup en i = call en (\<lambda>n s. (en_cleanup en n i, log_event (EvCleanup i) s))"

section \<open>The reconciler\<close>

fun phase_for_terminal_state :: "job_state \<Rightarrow> phase option" where
  "phase_for_terminal_state StateFinished = Some PhaseSucceeded"
| "phase_for_terminal_state StateFailed = Some PhaseFailed"
| "phase_for_terminal_state StateCanceled = Some PhaseCanceled"
| "phase_for_terminal_state _ = None"

fun failure_text :: "failure option \<Rightarrow> string" where
  "failure_text None = []"
| "failure_text (Some f) =
     (if failure_root_cause f = [] then failure_reason f
      else failure_reason f @ '': '' @ failure_root_cause f)"

definition keep_alive ::
  "sched_env \<Rightarrow> reconciler \<Rightarrow> dispatch_record \<Rightarrow> phase \<Rightarrow> string \<Rightarrow> sched_error option sched" where
  "keep_alive en rc rec ph err = do {
     now \<leftarrow> clock_now en;
     store_update en (dr_identity rec) (rc_owner_id rc) ph err (rc_lease_duration rc) now
   }"

definition record_transient_error ::
  "sched_env \<Rightarrow> reconciler \<Rightarrow> dispatch_record \<Rightarrow> sched_error \<Rightarrow> sched_error option sched" where
  "record_transient_error en rc rec op_err = do {
     lease_err \<leftarrow> keep_alive en rc rec (dr_phase rec) (en_text en op_err);
     State_Monad.return (case lease_err of
       None \<Rightarrow> Some op_err
     | Some e \<Rightarrow> if e \<noteq> SchedDispatch ErrLeaseLost then Some (SchedJoined op_err e) else Some op_err)
   }"

definition complete_record ::
  "sched_env \<Rightarrow> reconciler \<Rightarrow> dispatch_record \<Rightarrow> phase \<Rightarrow> string \<Rightarrow> sched_error option sched" where
  "complete_record en rc rec ph err = do {
     now \<leftarrow> clock_now en;
     store_complete en (dr_identity rec) (rc_owner_id rc) ph err now
   }"

definition update_state ::
  "sched_env \<Rightarrow> job \<Rightarrow> int \<Rightarrow> job_state \<Rightarrow> failure option \<Rightarrow> sched_error option sched" where
  "update_state en current ep target fl = do {
     now \<leftarrow> clock_now en;
     case advance current ep target fl now of
       Inl e \<Rightarrow> State_Monad.return (Some (SchedJob e))
     | Inr (next_job, changed) \<Rightarrow>
         if \<not> changed then State_Monad.return None else jobs_update en next_job (job_version current)
   }"

definition stale_identity :: "dispatch_record \<Rightarrow> job \<Rightarrow> bool" where
  "stale_identity rec current \<longleftrightarrow>
     job_uid current \<noteq> id_job_uid (dr_identity rec) \<or> epoch (job_status current) \<noteq> id_epoch (dr_identity rec)"

fun transition_loop ::
  "sched_env \<Rightarrow> dispatch_record \<Rightarrow> job_state \<Rightarrow> failure option \<Rightarrow> nat \<Rightarrow> sched_error option sched" where
  "transition_loop en rec target fl 0 = State_Monad.return (Some SchedRetryLimit)"
| "transition_loop en rec target fl (Suc n) = do {
     got \<leftarrow> jobs_get en (dr_key rec);
     case got of
       Inl e \<Rightarrow> State_Monad.return (Some e)
     | Inr current \<Rightarrow>
         if stale_identity rec current then State_Monad.return (Some (SchedJob ErrStaleEpoch))
         else if job_state (job_status current) = target then State_Monad.return None
         else if target = StateFinished \<and> job_state (job_status current) = StateInitializing then do {
           e \<leftarrow> update_state en current (id_epoch (dr_identity rec)) StateRunning None;
           if e = None \<or> e = Some (SchedJob ErrConflict) then transition_loop en rec target fl n
           else State_Monad.return e
         }
         else if phase_for_terminal_state (job_state (job_status current)) \<noteq> None
         then State_Monad.return (Some (SchedEnded (job_state (job_status current))))
         else do {
           e \<leftarrow> update_state en current (id_epoch (dr_identity rec)) target fl;
           if e = Some (SchedJob ErrConflict) then transition_loop en rec target fl n
           else State_Monad.return e
         }
   }"

definition transition ::
  "sched_env \<Rightarrow> dispatch_record \<Rightarrow> job_state \<Rightarrow> failure option \<Rightarrow> sched_error option sched" where
  "transition en rec target fl = transition_loop en rec target fl 5"

definition fail_permanently ::
  "sched_env \<Rightarrow> reconciler \<Rightarrow> dispatch_record \<Rightarrow> string \<Rightarrow> string \<Rightarrow> sched_error option sched" where
  "fail_permanently en rc rec reason root_cause = do {
     now \<leftarrow> clock_now en;
     e \<leftarrow> transition en rec StateFailed (Some \<lparr>failure_reason = reason, failure_root_cause = root_cause,
       failure_timestamp = now, failure_host = rc_owner_id rc\<rparr>);
     if e \<noteq> None then State_Monad.return e
     else complete_record en rc rec PhaseFailed root_cause
   }"

text \<open>The tail of a cancellation and of a heartbeat failure: stop the execution, and wait while it runs.\<close>

definition stop_then ::
  "sched_env \<Rightarrow> reconciler \<Rightarrow> dispatch_record \<Rightarrow> string \<Rightarrow> sched_error option sched \<Rightarrow> sched_error option sched" where
  "stop_then en rc rec waiting finish = do {
     r \<leftarrow> dispatcher_stop en (dr_identity rec);
     case r of
       Inl e \<Rightarrow> record_transient_error en rc rec (SchedDispatcher e)
     | Inr stopped \<Rightarrow> if \<not> stopped then keep_alive en rc rec PhaseStopping waiting else finish
   }"

definition cancel :: "sched_env \<Rightarrow> reconciler \<Rightarrow> dispatch_record \<Rightarrow> sched_error option sched" where
  "cancel en rc rec = do {
     e \<leftarrow> keep_alive en rc rec PhaseStopping [];
     if e \<noteq> None then State_Monad.return e
     else (let stopping = rec\<lparr>dr_phase := PhaseStopping\<rparr>
       in stop_then en rc stopping [] (do {
         f \<leftarrow> transition en stopping StateCanceled None;
         if f \<noteq> None then State_Monad.return f
         else complete_record en rc stopping PhaseCanceled []
       }))
   }"

definition failure_time :: "sched_env \<Rightarrow> dispatch_record \<Rightarrow> instant sched" where
  "failure_time en rec =
     (if is_zero (dr_updated_at rec) then clock_now en else State_Monad.return (dr_updated_at rec))"

definition finish_heartbeat_failure ::
  "sched_env \<Rightarrow> reconciler \<Rightarrow> dispatch_record \<Rightarrow> sched_error option sched" where
  "finish_heartbeat_failure en rc rec =
     (let root_cause = (if dr_last_error rec = []
        then ''execution heartbeat timed out before failure cleanup completed'' else dr_last_error rec)
      in do {
        timestamp \<leftarrow> failure_time en rec;
        e \<leftarrow> transition en rec StateFailed (Some \<lparr>failure_reason = ''HeartbeatTimeout'',
          failure_root_cause = root_cause, failure_timestamp = timestamp, failure_host = rc_owner_id rc\<rparr>);
        if e \<noteq> None then State_Monad.return e
        else stop_then en rc rec root_cause (complete_record en rc rec PhaseFailed root_cause)
      })"

definition fail_heartbeat ::
  "sched_env \<Rightarrow> reconciler \<Rightarrow> dispatch_record \<Rightarrow> string \<Rightarrow> sched_error option sched" where
  "fail_heartbeat en rc rec root_cause = do {
     now \<leftarrow> clock_now en;
     fenced \<leftarrow> store_fence en (dr_identity rec) (rc_owner_id rc) root_cause (rc_heartbeat_timeout rc)
       (rc_lease_duration rc) now;
     case fenced of
       Inl e \<Rightarrow> State_Monad.return (Some e)
     | Inr b \<Rightarrow>
         if \<not> b then State_Monad.return None
         else finish_heartbeat_failure en rc
           (rec\<lparr>dr_phase := PhaseStopping, dr_last_error := root_cause, dr_updated_at := now\<rparr>)
   }"

definition heartbeat_expired :: "sched_env \<Rightarrow> reconciler \<Rightarrow> dispatch_record \<Rightarrow> bool sched" where
  "heartbeat_expired en rc rec =
     (if is_zero (dr_last_heartbeat_at rec) then State_Monad.return False
      else do {
        now \<leftarrow> clock_now en;
        State_Monad.return (\<not> dr_last_heartbeat_at rec > now - rc_heartbeat_timeout rc)
      })"

definition if_heartbeat_expired ::
  "sched_env \<Rightarrow> reconciler \<Rightarrow> dispatch_record \<Rightarrow> string \<Rightarrow> sched_error option sched \<Rightarrow> sched_error option sched" where
  "if_heartbeat_expired en rc rec root_cause otherwise = do {
     expired \<leftarrow> heartbeat_expired en rc rec;
     if expired then fail_heartbeat en rc rec root_cause else otherwise
   }"

definition reconcile_error ::
  "sched_env \<Rightarrow> reconciler \<Rightarrow> dispatch_record \<Rightarrow> bool \<Rightarrow> dispatcher_error \<Rightarrow> sched_error option sched" where
  "reconcile_error en rc rec claimed e =
     (case (if claimed then de_permanent e else None) of
        Some permanent \<Rightarrow> fail_permanently en rc rec ''DispatchRejected'' permanent
      | None \<Rightarrow> if_heartbeat_expired en rc rec (de_text e) (record_transient_error en rc rec (SchedDispatcher e)))"

definition observe ::
  "sched_env \<Rightarrow> reconciler \<Rightarrow> dispatch_record \<Rightarrow> observation \<Rightarrow> sched_error option sched" where
  "observe en rc rec ob =
     (case ob_state ob of
        ObservationPending \<Rightarrow>
          if_heartbeat_expired en rc rec ''execution did not report a healthy Coordinator''
            (keep_alive en rc rec (dr_phase rec) [])
      | ObservationRunning \<Rightarrow>
          if_heartbeat_expired en rc rec ''Coordinator remained active without a heartbeat'' (do {
            e \<leftarrow> transition en rec StateRunning None;
            if e \<noteq> None then State_Monad.return e else keep_alive en rc rec PhaseRunning []
          })
      | ObservationSucceeded \<Rightarrow> do {
          e \<leftarrow> transition en rec StateFinished None;
          if e \<noteq> None then State_Monad.return e else complete_record en rc rec PhaseSucceeded []
        }
      | ObservationFailed \<Rightarrow>
          fail_permanently en rc rec (if ob_reason ob = [] then ''CoordinatorFailed'' else ob_reason ob) (ob_message ob)
      | ObservationOther st \<Rightarrow> record_transient_error en rc rec (SchedObservation st))"

definition work :: "sched_env \<Rightarrow> reconciler \<Rightarrow> dispatch_record \<Rightarrow> job \<Rightarrow> sched_error option sched" where
  "work en rc rec current =
     (let claimed = (dr_phase rec = PhaseClaimed);
          working = (if claimed then PhaseStarting else dr_phase rec);
          rec' = rec\<lparr>dr_phase := working\<rparr>
      in do {
        e \<leftarrow> keep_alive en rc rec working [];
        if e \<noteq> None then State_Monad.return e
        else do {
          r \<leftarrow> dispatcher_reconcile en current rec';
          case r of
            Inl de \<Rightarrow> reconcile_error en rc rec' claimed de
          | Inr ob \<Rightarrow> observe en rc rec' ob
        }
      })"

definition settle_terminal ::
  "sched_env \<Rightarrow> reconciler \<Rightarrow> dispatch_record \<Rightarrow> job \<Rightarrow> phase \<Rightarrow> sched_error option sched" where
  "settle_terminal en rc rec current ph =
     (if dr_phase rec = PhaseStopping
      then stop_then en rc rec [] (complete_record en rc rec ph (failure_text (status_failure (job_status current))))
      else do {
        e \<leftarrow> dispatcher_cleanup en (dr_identity rec);
        case e of
          Some ce \<Rightarrow> record_transient_error en rc rec (SchedDispatcher ce)
        | None \<Rightarrow> complete_record en rc rec ph (failure_text (status_failure (job_status current)))
      })"

definition reconcile :: "sched_env \<Rightarrow> reconciler \<Rightarrow> dispatch_record \<Rightarrow> sched_error option sched" where
  [effect_defs]: "reconcile en rc rec = do {
     got \<leftarrow> jobs_get en (dr_key rec);
     case got of
       Inl e \<Rightarrow> record_transient_error en rc rec e
     | Inr current \<Rightarrow>
        (let st = job_status current in
         if stale_identity rec current
         then stop_then en rc rec [] (complete_record en rc rec PhaseCanceled ''stale execution identity'')
         else case phase_for_terminal_state (job_state st) of
           Some ph \<Rightarrow> settle_terminal en rc rec current ph
         | None \<Rightarrow>
             if desired st = DesiredStopped \<or> job_state st = StateCanceling then cancel en rc rec
             else if desired st \<noteq> DesiredRunning \<or> (job_state st \<noteq> StateInitializing \<and> job_state st \<noteq> StateRunning)
             then record_transient_error en rc rec (SchedLifecycle (desired st) (job_state st))
             else if dr_phase rec = PhaseStopping then finish_heartbeat_failure en rc rec
             else work en rc rec current)
   }"

section \<open>Ticks\<close>

definition store_claim :: "sched_env \<Rightarrow> reconciler \<Rightarrow> instant \<Rightarrow> (sched_error + dispatch_record list) sched" where
  "store_claim en rc now = call en (\<lambda>n s.
     case claim (dp_uuid_ok (en_deps en)) (dp_new_token (en_deps en)) (en_fails en n) (map snd (ss_jobs s)) (ss_rows s)
       (rc_owner_id rc) (rc_maximum_active rc) (rc_lease_duration rc) (rc_heartbeat_timeout rc) now of
       (Inl e, rows) \<Rightarrow> (Inl (SchedDispatch e), s\<lparr>ss_rows := rows\<rparr>)
     | (Inr ds, rows) \<Rightarrow> (Inr ds, s\<lparr>ss_rows := rows\<rparr>))"

definition store_list :: "sched_env \<Rightarrow> (sched_error + dispatch_record list) sched" where
  "store_list en = call en (\<lambda>n s.
     (case list_dispatches (dp_uuid_ok (en_deps en)) (en_fails en n) (ss_rows s) of
        Inl e \<Rightarrow> Inl (SchedDispatch e) | Inr ds \<Rightarrow> Inr ds, s))"

definition dispatcher_sweep :: "sched_env \<Rightarrow> dispatch_record list \<Rightarrow> dispatcher_error option sched" where
  "dispatcher_sweep en ds = call en (\<lambda>n s. (en_sweep en n ds, log_event (EvSweep ds) s))"

fun reconcile_all :: "sched_env \<Rightarrow> reconciler \<Rightarrow> dispatch_record list \<Rightarrow> sched_error list sched" where
  "reconcile_all en rc [] = State_Monad.return []"
| "reconcile_all en rc (rec # recs) = do {
     e \<leftarrow> reconcile en rc rec;
     es \<leftarrow> reconcile_all en rc recs;
     State_Monad.return (case e of None \<Rightarrow> es | Some x \<Rightarrow> x # es)
   }"

definition tick :: "sched_env \<Rightarrow> reconciler \<Rightarrow> sched_error list sched" where
  "tick en rc = do {
     now \<leftarrow> clock_now en;
     claimed \<leftarrow> store_claim en rc now;
     case claimed of
       Inl e \<Rightarrow> State_Monad.return [e]
     | Inr recs \<Rightarrow> do {
         failures \<leftarrow> reconcile_all en rc recs;
         known \<leftarrow> store_list en;
         case known of
           Inl e \<Rightarrow> State_Monad.return (failures @ [e])
         | Inr ds \<Rightarrow> do {
             swept \<leftarrow> dispatcher_sweep en ds;
             State_Monad.return (case swept of None \<Rightarrow> failures | Some e \<Rightarrow> failures @ [SchedDispatcher e])
           }
       }
   }"

section \<open>Reasoning about calls\<close>

named_theorems triple_rules \<open>triples of the reconciler's calls\<close>

definition triple :: "('s \<Rightarrow> bool) \<Rightarrow> ('s, 'a) state \<Rightarrow> ('a \<Rightarrow> 's \<Rightarrow> bool) \<Rightarrow> bool" where
  "triple P m Q \<longleftrightarrow> (\<forall>s. P s \<longrightarrow> (case run_state m s of (a, s') \<Rightarrow> Q a s'))"

lemma triple_return: "(\<And>s. P s \<Longrightarrow> Q a s) \<Longrightarrow> triple P (State_Monad.return a) Q"
  by (simp add: triple_def)

lemma triple_bind: "triple P m R \<Longrightarrow> (\<And>a. triple (R a) (f a) Q) \<Longrightarrow> triple P (State_Monad.bind m f) Q"
  by (fastforce simp: triple_def split: prod.splits)

lemma triple_weaken: "triple P' m Q' \<Longrightarrow> (\<And>s. P s \<Longrightarrow> P' s) \<Longrightarrow> (\<And>a s. Q' a s \<Longrightarrow> Q a s) \<Longrightarrow> triple P m Q"
  by (fastforce simp: triple_def split: prod.splits)

lemma triple_call:
  "(\<And>s. P s \<Longrightarrow> R (others_move en s)) \<Longrightarrow>
   (\<And>n s. R s \<Longrightarrow> Q (fst (act n s)) (snd (act n s))) \<Longrightarrow> triple P (call en act) Q"
  by (simp add: triple_def call_def case_prod_unfold)

lemma triple_if: "(b \<Longrightarrow> triple P m Q) \<Longrightarrow> (\<not> b \<Longrightarrow> triple P n Q) \<Longrightarrow> triple P (if b then m else n) Q"
  by simp

lemma triple_run: "triple P m Q \<Longrightarrow> P s \<Longrightarrow> run_state m s = (a, s') \<Longrightarrow> Q a s'"
  by (fastforce simp: triple_def)

section \<open>What other processes may do to a job\<close>

text \<open>
  The other processes keep the rules of the job package for the job \<open>u\<close> stored under \<open>k\<close>: a job
  stays under its own key, a UID does not come back once it has gone, the epoch does not go down,
  and a job that has ended keeps its state within its epoch.
\<close>

definition keyed :: "key \<Rightarrow> job_table \<Rightarrow> bool" where
  "keyed k jobs \<longleftrightarrow> opt_all (\<lambda>j. job_key j = k) (gget jobs k)"

definition job_rely :: "key \<Rightarrow> string \<Rightarrow> job_table \<Rightarrow> job_table \<Rightarrow> bool" where
  "job_rely k u old new \<longleftrightarrow> (keyed k old \<longrightarrow> keyed k new) \<and>
     (case gget new k of None \<Rightarrow> True | Some j' \<Rightarrow>
       job_uid j' = u \<longrightarrow>
         (case gget old k of None \<Rightarrow> False | Some j \<Rightarrow>
           job_uid j = u \<and> epoch (job_status j) \<le> epoch (job_status j') \<and>
           (epoch (job_status j') = epoch (job_status j) \<and> terminal (job_state (job_status j)) \<longrightarrow>
              job_state (job_status j') = job_state (job_status j))))"

definition rely_env :: "sched_env \<Rightarrow> key \<Rightarrow> string \<Rightarrow> bool" where
  "rely_env en k u \<longleftrightarrow> (\<forall>n rows jobs. job_rely k u jobs (snd (en_others en n (rows, jobs))))"

lemma job_rely_refl: "job_rely k u r r"
  by (auto simp: job_rely_def split: option.splits)

text \<open>An update with a lifecycle step of the stored job is such a move.\<close>

lemma lifecycle_update_rely:
  assumes inv: "repo_inv uuid_ok r" and j: "gget r k' = Some j" and ok: "job_validate uuid_ok j = None"
    and step: "job_step j c" and upd: "repo_update uuid_ok r c (job_version j) = (Inr c', r')"
  shows "job_rely k u r r'"
proof -
  have key: "job_key c = k'"
    using step repo_inv_get [OF inv j]
    by (cases rule: job_step.cases)
      (auto simp: effect_defs Let_def start_job_def split: option.splits if_splits job_state.splits)
  then obtain "c' = c\<lparr>job_version := wrap64 (job_version j + 1)\<rparr>" and "r' = gput k' c' r"
    and "job_uid j = job_uid c" and "epoch (job_status j) \<le> epoch (job_status c)"
    using upd j by (auto simp: repo_update_Inr)
  then show ?thesis
    using j key job_step_terminal [OF step status_ok_core [OF job_ok_status [OF ok]]] job_rely_refl [of k u r]
    by (cases "k = k'") (auto simp: job_rely_def keyed_def)
qed

section \<open>A dispatch is completed only after its job\<close>

text \<open>The job of an execution has ended in the state that the phase stands for, or the execution is no longer the job's.\<close>

definition settled :: "key \<Rightarrow> identity \<Rightarrow> phase \<Rightarrow> job_table \<Rightarrow> bool" where
  "settled k i ph jobs \<longleftrightarrow>
     (case gget jobs k of None \<Rightarrow> True | Some j \<Rightarrow>
       job_identity j = i \<longrightarrow> phase_for_terminal_state (job_state (job_status j)) = Some ph)"

definition well_placed :: "key \<Rightarrow> identity \<Rightarrow> job_table \<Rightarrow> bool" where
  "well_placed k i jobs \<longleftrightarrow> keyed k jobs \<and>
     opt_all (\<lambda>j. job_uid j = id_job_uid i \<longrightarrow> id_epoch i \<le> epoch (job_status j)) (gget jobs k)"

fun is_complete :: "sched_event \<Rightarrow> bool" where
  "is_complete (EvComplete _ _) = True"
| "is_complete _ = False"

text \<open>
  What holds while the reconciler works on \<open>i\<close>: before it knows that the job has ended
  (\<open>None\<close>), and from then on.
\<close>

definition holds :: "key \<Rightarrow> identity \<Rightarrow> phase option \<Rightarrow> sched_state \<Rightarrow> bool" where
  "holds k i x s \<longleftrightarrow> well_placed k i (ss_jobs s) \<and> \<not> list_ex is_complete (ss_log s) \<and>
     opt_all (\<lambda>ph. settled k i ph (ss_jobs s)) x"

fun event_settled :: "key \<Rightarrow> identity \<Rightarrow> job_table \<Rightarrow> sched_event \<Rightarrow> bool" where
  "event_settled k i jobs (EvComplete i' ph) = (i' = i \<and> settled k i ph jobs)"
| "event_settled k i jobs _ = True"

definition log_settled :: "key \<Rightarrow> identity \<Rightarrow> sched_state \<Rightarrow> bool" where
  "log_settled k i s \<longleftrightarrow> list_all (event_settled k i (ss_jobs s)) (ss_log s)"

lemma terminal_phase_iff: "terminal st \<longleftrightarrow> phase_for_terminal_state st \<noteq> None"
  by (cases st) (simp_all add: terminal_def)

lemma settled_rely:
  assumes "job_rely k (id_job_uid i) old new" and "well_placed k i old" and "settled k i ph old"
  shows "settled k i ph new"
  using assms
  by (auto simp: job_rely_def well_placed_def settled_def job_identity_def terminal_phase_iff split: option.splits)

lemma well_placed_rely:
  "job_rely k (id_job_uid i) old new \<Longrightarrow> well_placed k i old \<Longrightarrow> well_placed k i new"
  by (auto simp: job_rely_def well_placed_def keyed_def split: option.splits)

lemma holds_log_settled: "holds k i x s \<Longrightarrow> log_settled k i s"
proof -
  have "\<not> is_complete ev \<Longrightarrow> event_settled k i jobs ev" for jobs ev by (cases ev) simp_all
  then show "holds k i x s \<Longrightarrow> log_settled k i s"
    by (auto simp: holds_def log_settled_def list_ex_iff list_all_iff)
qed

lemma holds_frame [simp]:
  "holds k i x (s\<lparr>ss_rows := rows\<rparr>) = holds k i x s"
  "\<not> is_complete ev \<Longrightarrow> holds k i x (log_event ev s) = holds k i x s"
  by (simp_all add: holds_def log_event_def)

lemma holds_others:
  assumes "rely_env en k (id_job_uid i)" and "holds k i x s"
  shows "holds k i x (others_move en s)"
proof -
  obtain rows jobs where o: "en_others en (ss_calls s) (ss_rows s, ss_jobs s) = (rows, jobs)" by force
  then have "job_rely k (id_job_uid i) (ss_jobs s) jobs" using assms(1) unfolding rely_env_def by (metis snd_conv)
  with assms(2) o show ?thesis
    by (cases x) (auto simp: holds_def others_move_def intro: settled_rely well_placed_rely)
qed

text \<open>Calls that leave the jobs alone keep what holds.\<close>

lemma holds_calls [triple_rules]:
  assumes "rely_env en k (id_job_uid i)"
  shows "triple (holds k i x) (clock_now en) (\<lambda>_. holds k i x)"
    and "triple (holds k i x) (store_update en i' owner ph err lease now) (\<lambda>_. holds k i x)"
    and "triple (holds k i x) (store_fence en i' owner err timeout lease now) (\<lambda>_. holds k i x)"
    and "triple (holds k i x) (dispatcher_reconcile en j rec) (\<lambda>_. holds k i x)"
    and "triple (holds k i x) (dispatcher_stop en i') (\<lambda>_. holds k i x)"
    and "triple (holds k i x) (dispatcher_cleanup en i') (\<lambda>_. holds k i x)"
  unfolding clock_now_def store_update_def store_fence_def dispatcher_reconcile_def dispatcher_stop_def
    dispatcher_cleanup_def
  by (rule triple_call [where R = "holds k i x"], erule holds_others [OF assms],
      simp split: prod.splits sum.splits)+

lemma holds_keep_alive [triple_rules]:
  assumes "rely_env en k (id_job_uid i)"
  shows "triple (holds k i x) (keep_alive en rc rec ph err) (\<lambda>_. holds k i x)"
  unfolding keep_alive_def by (rule triple_bind, (rule triple_rules [OF assms])+)

lemma holds_transient [triple_rules]:
  assumes "rely_env en k (id_job_uid i)"
  shows "triple (holds k i x) (record_transient_error en rc rec e) (\<lambda>_. holds k i x)"
  unfolding record_transient_error_def
  by (rule triple_bind, rule triple_rules [OF assms], rule triple_return, assumption)

lemma holds_heartbeat_expired [triple_rules]:
  assumes "rely_env en k (id_job_uid i)"
  shows "triple (holds k i x) (heartbeat_expired en rc rec) (\<lambda>_. holds k i x)"
  unfolding heartbeat_expired_def
  by (rule triple_if, rule triple_return, assumption, rule triple_bind, rule triple_rules [OF assms],
      rule triple_return, assumption)

lemma holds_failure_time [triple_rules]:
  assumes "rely_env en k (id_job_uid i)"
  shows "triple (holds k i x) (failure_time en rec) (\<lambda>_. holds k i x)"
  unfolding failure_time_def by (intro triple_if triple_return triple_rules [OF assms])

text \<open>Reading and writing the job.\<close>

definition read_job :: "key \<Rightarrow> sched_error + job \<Rightarrow> sched_state \<Rightarrow> bool" where
  "read_job k r s \<longleftrightarrow> (case r of Inl _ \<Rightarrow> True | Inr j \<Rightarrow> gget (ss_jobs s) k = Some j)"

lemma triple_jobs_get:
  assumes "rely_env en k (id_job_uid i)"
  shows "triple (holds k i None) (jobs_get en k) (\<lambda>r s. holds k i None s \<and> read_job k r s)"
  unfolding jobs_get_def
  by (rule triple_call [where R = "holds k i None"], erule holds_others [OF assms])
    (auto simp: read_job_def repo_get_Inr split: sum.splits)

lemma triple_jobs_update:
  assumes "rely_env en k (id_job_uid i)"
  shows "triple (holds k i None) (jobs_update en c v)
    (\<lambda>e s. holds k i None s \<and> (e = None \<and> job_key c = k \<longrightarrow> gget (ss_jobs s) k = Some (c\<lparr>job_version := wrap64 (v + 1)\<rparr>)))"
  unfolding jobs_update_def
proof (rule triple_call [where R = "holds k i None"], erule holds_others [OF assms])
  fix n s
  let ?u = "dp_uuid_ok (en_deps en)"
  let ?act = "if en_fails en n then (Some SchedJobStore, s)
      else case repo_update ?u (ss_jobs s) c v of (Inl e, _) \<Rightarrow> (Some (SchedJob e), s)
        | (Inr j, jobs) \<Rightarrow> (None, log_event (EvAdvance j) (s\<lparr>ss_jobs := jobs\<rparr>))"
  assume h: "holds k i None s"
  show "holds k i None (snd ?act) \<and>
    (fst ?act = None \<and> job_key c = k \<longrightarrow> gget (ss_jobs (snd ?act)) k = Some (c\<lparr>job_version := wrap64 (v + 1)\<rparr>))"
  proof (cases "fst (repo_update ?u (ss_jobs s) c v)")
    case (Inl e)
    then obtain jobs where "repo_update ?u (ss_jobs s) c v = (Inl e, jobs)" by (metis prod.collapse)
    with h show ?thesis by simp
  next
    case (Inr j)
    then obtain jobs where r: "repo_update ?u (ss_jobs s) c v = (Inr j, jobs)" by (metis prod.collapse)
    then have "well_placed k i jobs \<and> (job_key c = k \<longrightarrow> gget jobs k = Some (c\<lparr>job_version := wrap64 (v + 1)\<rparr>))"
      using h by (auto simp: repo_update_Inr holds_def well_placed_def keyed_def)
    with h r show ?thesis by (simp add: holds_def log_event_def)
  qed
qed

lemma triple_update_state:
  assumes rely: "rely_env en k (id_job_uid i)"
    and current: "job_key current = k" "job_state (job_status current) \<noteq> target"
  shows "triple (holds k i None) (update_state en current ep target fl)
    (\<lambda>e s. holds k i None s \<and> (e = None \<longrightarrow> (\<exists>j. gget (ss_jobs s) k = Some j \<and> job_state (job_status j) = target)))"
proof -
  have upd: "triple (holds k i None) (jobs_update en next_job v)
      (\<lambda>e s. holds k i None s \<and> (e = None \<longrightarrow> (\<exists>j. gget (ss_jobs s) k = Some j \<and> job_state (job_status j) = target)))"
    if "advance current ep target fl now = Inr (next_job, changed)" for next_job v now changed
    using that current
    by (elim advance_cases; intro triple_weaken [OF triple_jobs_update [OF rely]])
      (auto simp: advance_def Let_def split: if_splits)
  show ?thesis unfolding update_state_def
  proof (rule triple_bind, rule triple_rules [OF rely])
    fix now
    show "triple (holds k i None) (case advance current ep target fl now of
          Inl e \<Rightarrow> State_Monad.return (Some (SchedJob e))
        | Inr (next_job, changed) \<Rightarrow>
            if \<not> changed then State_Monad.return None else jobs_update en next_job (job_version current))
        (\<lambda>e s. holds k i None s \<and> (e = None \<longrightarrow> (\<exists>j. gget (ss_jobs s) k = Some j \<and> job_state (job_status j) = target)))"
      using upd current(2)
      by (auto simp: advance_def Let_def intro!: triple_return split: sum.splits)
  qed
qed

definition reaches :: "key \<Rightarrow> identity \<Rightarrow> job_state \<Rightarrow> sched_error option \<Rightarrow> sched_state \<Rightarrow> bool" where
  "reaches k i target e s \<longleftrightarrow> holds k i None s \<and>
     (e = None \<longrightarrow> (\<exists>j. gget (ss_jobs s) k = Some j \<and> job_state (job_status j) = target))"

lemma reaches_settled:
  "reaches k i target None s \<Longrightarrow> phase_for_terminal_state target = Some ph \<Longrightarrow> holds k i (Some ph) s"
  by (auto simp: reaches_def holds_def settled_def)

lemma triple_transition_loop:
  assumes rely: "rely_env en k (id_job_uid i)" and rec: "dr_key rec = k" "dr_identity rec = i"
  shows "triple (holds k i None) (transition_loop en rec target fl n) (reaches k i target)"
proof (induction n)
  case 0
  show ?case by (simp add: triple_return reaches_def)
next
  case (Suc n)
  note upd = triple_update_state [OF rely, folded reaches_def]
  have again: "triple (reaches k i st e) (transition_loop en rec target fl n) (reaches k i target)" for st e
    by (rule triple_weaken [OF Suc.IH]) (auto simp: reaches_def)
  show ?case unfolding transition_loop.simps rec(1)
  proof (rule triple_bind, rule triple_jobs_get [OF rely])
    fix got
    let ?body = "\<lambda>current. if stale_identity rec current then State_Monad.return (Some (SchedJob ErrStaleEpoch))
         else if job_state (job_status current) = target then State_Monad.return None
         else if target = StateFinished \<and> job_state (job_status current) = StateInitializing then do {
           e \<leftarrow> update_state en current (id_epoch (dr_identity rec)) StateRunning None;
           if e = None \<or> e = Some (SchedJob ErrConflict) then transition_loop en rec target fl n
           else State_Monad.return e
         }
         else if phase_for_terminal_state (job_state (job_status current)) \<noteq> None
         then State_Monad.return (Some (SchedEnded (job_state (job_status current))))
         else do {
           e \<leftarrow> update_state en current (id_epoch (dr_identity rec)) target fl;
           if e = Some (SchedJob ErrConflict) then transition_loop en rec target fl n
           else State_Monad.return e
         }"
    have "triple (\<lambda>s. holds k i None s \<and> gget (ss_jobs s) k = Some current) (?body current) (reaches k i target)"
      for current
    proof (cases "job_key current = k")
      case True
      have step: "triple (\<lambda>s. holds k i None s \<and> gget (ss_jobs s) k = Some current)
          (update_state en current ep st fl') (reaches k i st)" if "job_state (job_status current) \<noteq> st" for ep st fl'
        by (rule triple_weaken [OF upd [OF True that]]) simp_all
      show ?thesis
        by (intro triple_if triple_return triple_bind [OF step] again) (auto simp: reaches_def)
    next
      case False
      then show ?thesis by (auto simp: triple_def holds_def well_placed_def keyed_def)
    qed
    then show "triple (\<lambda>s. holds k i None s \<and> read_job k got s)
        (case got of Inl e \<Rightarrow> State_Monad.return (Some e) | Inr current \<Rightarrow> ?body current) (reaches k i target)"
      by (cases got) (auto simp: read_job_def reaches_def intro!: triple_return)
  qed
qed

lemmas triple_transition = triple_transition_loop [where n = 5, folded transition_def]

text \<open>Every way to finish leaves a log in which a completed dispatch is settled.\<close>

abbreviation ends_settled :: "key \<Rightarrow> identity \<Rightarrow> phase option \<Rightarrow> 'a sched \<Rightarrow> bool" where
  "ends_settled k i x m \<equiv> triple (holds k i x) m (\<lambda>_. log_settled k i)"

lemma holds_ends: "triple (holds k i x) m (\<lambda>_. holds k i x) \<Longrightarrow> ends_settled k i x m"
  by (erule triple_weaken) (auto intro: holds_log_settled)

lemma ends_return: "ends_settled k i x (State_Monad.return a)"
  by (rule triple_return) (rule holds_log_settled)

lemma ends_complete:
  assumes rely: "rely_env en k (id_job_uid i)" and "dr_identity rec = i"
  shows "ends_settled k i (Some ph) (complete_record en rc rec ph err)"
proof -
  have log: "log_settled k i (log_event (EvComplete i ph) (s\<lparr>ss_rows := rows\<rparr>)) \<and> log_settled k i (s\<lparr>ss_rows := rows\<rparr>)"
    if "holds k i (Some ph) s" for s rows
    using that holds_log_settled [OF that] by (simp add: log_settled_def log_event_def holds_def)
  show ?thesis
    unfolding complete_record_def store_complete_def assms(2)
    by (rule triple_bind, rule triple_rules [OF rely],
        rule triple_call [where R = "holds k i (Some ph)"], erule holds_others [OF rely])
      (auto simp: log split: option.splits prod.splits)
qed

lemma ends_stop_then:
  assumes rely: "rely_env en k (id_job_uid i)" and "ends_settled k i x finish"
  shows "ends_settled k i x (stop_then en rc rec waiting finish)"
  unfolding stop_then_def
  by (rule triple_bind, rule triple_rules [OF rely])
    (auto split: sum.split intro!: assms(2) holds_ends triple_rules [OF rely])

lemma ends_after_transition:
  assumes rely: "rely_env en k (id_job_uid i)" and rec: "dr_key rec = k" "dr_identity rec = i"
    and ph: "phase_for_terminal_state target = Some ph" and finish: "ends_settled k i (Some ph) finish"
  shows "ends_settled k i None (do {
      e \<leftarrow> transition en rec target fl;
      if e \<noteq> None then State_Monad.return e else finish
    })"
proof (rule triple_bind [OF triple_transition [OF rely rec]])
  fix e
  show "triple (reaches k i target e) (if e \<noteq> None then State_Monad.return e else finish) (\<lambda>_. log_settled k i)"
    by (auto intro!: triple_weaken [OF finish] triple_weaken [OF ends_return] reaches_settled [OF _ ph]
        simp: reaches_def)
qed

lemma ends_fail_permanently:
  assumes "rely_env en k (id_job_uid i)" and "dr_key rec = k" "dr_identity rec = i"
  shows "ends_settled k i None (fail_permanently en rc rec reason cause)"
  unfolding fail_permanently_def
  by (rule triple_bind, rule triple_rules [OF assms(1)], rule ends_after_transition [OF assms],
      simp, rule ends_complete [OF assms(1,3)])

lemma ends_finish_heartbeat:
  assumes "rely_env en k (id_job_uid i)" and "dr_key rec = k" "dr_identity rec = i"
  shows "ends_settled k i None (finish_heartbeat_failure en rc rec)"
  unfolding finish_heartbeat_failure_def Let_def
  by (rule triple_bind, rule triple_rules [OF assms(1)], rule ends_after_transition [OF assms],
      simp, rule ends_stop_then [OF assms(1)], rule ends_complete [OF assms(1,3)])

lemma ends_fail_heartbeat:
  assumes "rely_env en k (id_job_uid i)" and "dr_key rec = k" "dr_identity rec = i"
  shows "ends_settled k i None (fail_heartbeat en rc rec cause)"
  unfolding fail_heartbeat_def
  by (rule triple_bind, rule triple_rules [OF assms(1)], rule triple_bind, rule triple_rules [OF assms(1)])
    (auto split: sum.split intro!: ends_return ends_finish_heartbeat assms)

lemma ends_if_expired:
  assumes "rely_env en k (id_job_uid i)" and "dr_key rec = k" "dr_identity rec = i"
    and "ends_settled k i None otherwise"
  shows "ends_settled k i None (if_heartbeat_expired en rc rec cause otherwise)"
  unfolding if_heartbeat_expired_def
  by (rule triple_bind, rule triple_rules [OF assms(1)]) (auto intro!: ends_fail_heartbeat assms)

lemma ends_cancel:
  assumes "rely_env en k (id_job_uid i)" and "dr_key rec = k" "dr_identity rec = i"
  shows "ends_settled k i None (cancel en rc rec)"
  unfolding cancel_def Let_def
  by (rule triple_bind, rule triple_rules [OF assms(1)], rule triple_if, rule ends_return,
      rule ends_stop_then [OF assms(1)], rule ends_after_transition [OF assms(1)])
    (simp add: assms, simp add: assms, simp, rule ends_complete [OF assms(1)], simp add: assms)

lemma ends_run_transition:
  assumes "rely_env en k (id_job_uid i)" and "dr_key rec = k" "dr_identity rec = i"
  shows "ends_settled k i None (do {
      e \<leftarrow> transition en rec target fl;
      if e \<noteq> None then State_Monad.return e else keep_alive en rc rec ph err
    })"
proof (rule triple_bind [OF triple_transition [OF assms]])
  fix e
  show "triple (reaches k i target e) (if e \<noteq> None then State_Monad.return e else keep_alive en rc rec ph err)
      (\<lambda>_. log_settled k i)"
    by (auto intro!: triple_weaken [OF holds_ends [OF holds_keep_alive [OF assms(1)]]] triple_weaken [OF ends_return]
        simp: reaches_def)
qed

lemma ends_observe:
  assumes "rely_env en k (id_job_uid i)" and "dr_key rec = k" "dr_identity rec = i"
  shows "ends_settled k i None (observe en rc rec ob)"
proof -
  note alive = holds_ends [OF holds_keep_alive [OF assms(1)]] holds_ends [OF holds_transient [OF assms(1)]]
  have fin: "ends_settled k i None (do {
      e \<leftarrow> transition en rec StateFinished None;
      if e \<noteq> None then State_Monad.return e else complete_record en rc rec PhaseSucceeded []
    })" by (rule ends_after_transition [OF assms]) (simp, rule ends_complete [OF assms(1,3)])
  show ?thesis unfolding observe_def
    using fin ends_run_transition [OF assms] ends_fail_permanently [OF assms] alive
    by (cases "ob_state ob") (simp_all only: observation_state.case ends_if_expired [OF assms])
qed

lemma ends_reconcile_error:
  assumes "rely_env en k (id_job_uid i)" and "dr_key rec = k" "dr_identity rec = i"
  shows "ends_settled k i None (reconcile_error en rc rec claimed e)"
  unfolding reconcile_error_def
  by (auto split: option.split intro!: ends_fail_permanently [OF assms] ends_if_expired [OF assms]
      holds_ends [OF holds_transient [OF assms(1)]])

lemma ends_work:
  assumes "rely_env en k (id_job_uid i)" and "dr_key rec = k" "dr_identity rec = i"
  shows "ends_settled k i None (work en rc rec current)"
  unfolding work_def Let_def
  by (rule triple_bind, rule triple_rules [OF assms(1)], rule triple_if, rule ends_return,
      rule triple_bind, rule triple_rules [OF assms(1)])
    (auto split: sum.split intro!: ends_reconcile_error ends_observe simp: assms)

lemma ends_settle_terminal:
  assumes "rely_env en k (id_job_uid i)" and "dr_identity rec = i"
  shows "ends_settled k i (Some ph) (settle_terminal en rc rec current ph)"
  unfolding settle_terminal_def
  by (rule triple_if, rule ends_stop_then [OF assms(1)], rule ends_complete [OF assms],
      rule triple_bind, rule triple_rules [OF assms(1)])
    (auto split: option.split intro!: ends_complete [OF assms] holds_ends [OF holds_transient [OF assms(1)]])

lemma triple_pre_holds:
  "(\<And>s. P s \<Longrightarrow> holds k i x s) \<Longrightarrow> ends_settled k i x m \<Longrightarrow> triple P m (\<lambda>_. log_settled k i)"
  by (rule triple_weaken)

lemma ends_reconcile:
  assumes rely: "rely_env en k (id_job_uid i)" and rec: "dr_key rec = k" "dr_identity rec = i"
  shows "ends_settled k i None (reconcile en rc rec)"
  unfolding reconcile_def rec(1)
proof (rule triple_bind, rule triple_jobs_get [OF rely])
  fix got
  let ?rest = "\<lambda>current. (let st = job_status current in
         if stale_identity rec current
         then stop_then en rc rec [] (complete_record en rc rec PhaseCanceled ''stale execution identity'')
         else case phase_for_terminal_state (job_state st) of
           Some ph \<Rightarrow> settle_terminal en rc rec current ph
         | None \<Rightarrow>
             if desired st = DesiredStopped \<or> job_state st = StateCanceling then cancel en rc rec
             else if desired st \<noteq> DesiredRunning \<or> (job_state st \<noteq> StateInitializing \<and> job_state st \<noteq> StateRunning)
             then record_transient_error en rc rec (SchedLifecycle (desired st) (job_state st))
             else if dr_phase rec = PhaseStopping then finish_heartbeat_failure en rc rec
             else work en rc rec current)"
  have "triple (\<lambda>s. holds k i None s \<and> gget (ss_jobs s) k = Some current) (?rest current) (\<lambda>_. log_settled k i)"
    for current
  proof (cases "stale_identity rec current")
    case True
    have "triple (\<lambda>s. holds k i None s \<and> gget (ss_jobs s) k = Some current)
        (stop_then en rc rec [] (complete_record en rc rec PhaseCanceled ''stale execution identity''))
        (\<lambda>_. log_settled k i)"
      by (rule triple_pre_holds [OF _ ends_stop_then [OF rely ends_complete [OF rely rec(2)]]])
        (use True in \<open>auto simp: holds_def settled_def stale_identity_def job_identity_def rec(2)\<close>)
    with True show ?thesis by simp
  next
    case False
    show ?thesis
    proof (cases "phase_for_terminal_state (job_state (job_status current))")
      case None
      have "ends_settled k i None (?rest current)"
        using False None ends_cancel [OF rely rec] ends_finish_heartbeat [OF rely rec] ends_work [OF rely rec]
          holds_ends [OF holds_transient [OF rely]]
        by (simp add: Let_def)
      then show ?thesis by (rule triple_pre_holds [rotated]) simp
    next
      case (Some ph)
      have "triple (\<lambda>s. holds k i None s \<and> gget (ss_jobs s) k = Some current)
          (settle_terminal en rc rec current ph) (\<lambda>_. log_settled k i)"
        by (rule triple_pre_holds [OF _ ends_settle_terminal [OF rely rec(2)]])
          (use Some in \<open>auto simp: holds_def settled_def\<close>)
      with False Some show ?thesis by (simp add: Let_def)
    qed
  qed
  then show "triple (\<lambda>s. holds k i None s \<and> read_job k got s)
      (case got of Inl e \<Rightarrow> record_transient_error en rc rec e | Inr current \<Rightarrow> ?rest current)
      (\<lambda>_. log_settled k i)"
    using triple_pre_holds [OF _ holds_ends [OF holds_transient [OF rely]]]
    by (cases got) (simp_all add: read_job_def)
qed

text \<open>
  C6. The scheduler never drops a live job. Whatever the other processes do to the tables between
  its calls, as long as they keep the rules of the job package, and however often the database or
  the execution dispatcher fails: if one reconciliation completes a dispatch, then it is the
  dispatch it was called for, and the job either has ended within that epoch, in the state that
  the dispatch's phase stands for, or has moved on to another epoch or is gone. (A job that was
  completed early would stay in its epoch without a dispatch, since \<open>Claim\<close> never makes a second
  one.)
\<close>

theorem completed_dispatch_has_ended_job:
  assumes "rely_env en (dr_key rec) (id_job_uid (dr_identity rec))"
    and "well_placed (dr_key rec) (dr_identity rec) (ss_jobs s)" and "ss_log s = []"
    and "run_state (reconcile en rc rec) s = (e, s')" and "EvComplete i ph \<in> set (ss_log s')"
  shows "i = dr_identity rec \<and> settled (dr_key rec) i ph (ss_jobs s')"
proof -
  have "holds (dr_key rec) (dr_identity rec) None s" using assms(2,3) by (simp add: holds_def)
  then have "log_settled (dr_key rec) (dr_identity rec) s'"
    using triple_run [OF ends_reconcile [OF assms(1) refl refl] _ assms(4)] by simp
  with assms(5) show ?thesis by (auto simp: log_settled_def list_all_iff)
qed

text \<open>
  An execution that has succeeded, while another process writes the job once between the
  reconciler's read and its update: the update conflicts and is repeated.
\<close>

definition touch_jobs :: "job_table \<Rightarrow> job_table" where
  "touch_jobs jobs = map (\<lambda>(k, j). (k, j\<lparr>job_version := job_version j + 1\<rparr>)) jobs"

definition sample_sched_env :: sched_env where
  "sample_sched_env = \<lparr>en_deps = sample_dispatch_deps,
     en_others = (\<lambda>n (rows, jobs). (rows, if n = 6 then touch_jobs jobs else jobs)), en_fails = (\<lambda>_. False),
     en_clock = (\<lambda>n. 300 + int n), en_reconcile = (\<lambda>_ _ _. Inr \<lparr>ob_state = ObservationSucceeded, ob_reason = [], ob_message = []\<rparr>),
     en_stop = (\<lambda>_ _. Inr True), en_cleanup = (\<lambda>_ _. None), en_sweep = (\<lambda>_ _. None), en_text = (\<lambda>_. [])\<rparr>"

definition sample_reconciler :: reconciler where
  "sample_reconciler = \<lparr>rc_owner_id = ''a'', rc_maximum_active = 2, rc_lease_duration = 100, rc_heartbeat_timeout = 50,
     rc_reconcile_every = 10, rc_operation_timeout = 20\<rparr>"

definition sample_sched_state :: sched_state where
  "sample_sched_state = \<lparr>ss_rows = [sample_row\<lparr>row_lease := 400\<rparr>], ss_jobs = [(sample_key, sample_started)],
     ss_calls = 0, ss_log = []\<rparr>"

definition sample_dispatch :: dispatch_record where
  "sample_dispatch = projr (scan_record uuid36 (sample_row\<lparr>row_lease := 400\<rparr>))"

lemma sample_rely: "rely_env sample_sched_env k u"
  by (auto simp: rely_env_def sample_sched_env_def job_rely_refl)
    (auto simp: job_rely_def keyed_def touch_jobs_def map_of_map split: option.splits)

theorem completed_dispatch_has_ended_job_witness:
  "settled sample_key sample_identity PhaseSucceeded
     (ss_jobs (snd (run_state (reconcile sample_sched_env sample_reconciler sample_dispatch) sample_sched_state)))"
proof -
  let ?r = "run_state (reconcile sample_sched_env sample_reconciler sample_dispatch) sample_sched_state"
  have rec: "dr_key sample_dispatch = sample_key" "dr_identity sample_dispatch = sample_identity" by code_simp+
  have "well_placed sample_key sample_identity (ss_jobs sample_sched_state)" "ss_log sample_sched_state = []" by code_simp+
  moreover have "fst ?r = None" "EvComplete sample_identity PhaseSucceeded \<in> set (ss_log (snd ?r))" by code_simp+
  ultimately show ?thesis
    using completed_dispatch_has_ended_job [where rec = sample_dispatch, OF sample_rely] by (metis prod.collapse rec)
qed

end
