(* ===== verification/Netip.thy ===== *)
theory Netip
  imports Prelude
begin

text \<open>
  What the sources use of Go's \<open>net/netip\<close>: addresses, prefixes, their text and the classes of
  addresses. An address is a number below \<open>2 ^ 32\<close>, or a number below \<open>2 ^ 128\<close> with a zone;
  masking and comparing the leading bits are division by a power of two. The text of a prefix
  without a zone parses back to it.
\<close>

section \<open>Numbers and fields\<close>

definition of_fields :: "nat \<Rightarrow> nat list \<Rightarrow> nat" where
  "of_fields b fs = foldl (\<lambda>a f. a * b + f) 0 fs"

fun to_fields :: "nat \<Rightarrow> nat \<Rightarrow> nat \<Rightarrow> nat list" where
  "to_fields b 0 n = []"
| "to_fields b (Suc k) n = to_fields b k (n div b) @ [n mod b]"

lemma of_fields_snoc [simp]: "of_fields b (fs @ [f]) = of_fields b fs * b + f"
  by (simp add: of_fields_def)

lemma of_fields_Nil [simp]: "of_fields b [] = 0"
  by (simp add: of_fields_def)

lemma of_fields_zeros: "of_fields b (replicate k 0 @ fs) = of_fields b fs"
  by (induction k) (simp_all add: of_fields_def)

lemma length_to_fields [simp]: "length (to_fields b k n) = k"
  by (induction k arbitrary: n) simp_all

lemma to_fields_bound: "0 < b \<Longrightarrow> f \<in> set (to_fields b k n) \<Longrightarrow> f < b"
  by (induction k arbitrary: n) auto

lemma of_to_fields: "0 < b \<Longrightarrow> n < b ^ k \<Longrightarrow> of_fields b (to_fields b k n) = n"
proof (induction k arbitrary: n)
  case (Suc k)
  then have "n div b < b ^ k" by (simp add: less_mult_imp_div_less mult.commute)
  with Suc show ?case by simp
qed simp

lemma of_fields_bound: "(\<And>f. f \<in> set fs \<Longrightarrow> f < b) \<Longrightarrow> of_fields b fs < b ^ length fs"
proof (induction fs rule: rev_induct)
  case (snoc f fs)
  then have "of_fields b fs + 1 \<le> b ^ length fs" and "f < b" by (auto simp: Suc_leI)
  then have "(of_fields b fs + 1) * b \<le> b ^ length fs * b" by (intro mult_right_mono) simp_all
  with \<open>f < b\<close> show ?case by (simp add: algebra_simps)
qed simp

section \<open>Addresses and prefixes\<close>

datatype ip_addr =
    IpInvalid
  | Ip4 nat
  | Ip6 nat string

record ip_prefix =
  pf_addr :: ip_addr
  pf_bits :: nat

fun is4 :: "ip_addr \<Rightarrow> bool" where
  "is4 (Ip4 _) = True" | "is4 _ = False"

fun is6 :: "ip_addr \<Rightarrow> bool" where
  "is6 (Ip6 _ _) = True" | "is6 _ = False"

fun bit_len :: "ip_addr \<Rightarrow> nat" where
  "bit_len IpInvalid = 0" | "bit_len (Ip4 _) = 32" | "bit_len (Ip6 _ _) = 128"

fun addr_num :: "ip_addr \<Rightarrow> nat" where
  "addr_num IpInvalid = 0" | "addr_num (Ip4 n) = n" | "addr_num (Ip6 n _) = n"

fun addr_zone :: "ip_addr \<Rightarrow> string" where
  "addr_zone (Ip6 _ z) = z" | "addr_zone _ = []"

fun is4in6 :: "ip_addr \<Rightarrow> bool" where
  "is4in6 (Ip6 n _) = (n div 2 ^ 32 = 0xFFFF)" | "is4in6 _ = False"

fun unmap :: "ip_addr \<Rightarrow> ip_addr" where
  "unmap (Ip6 n z) = (if is4in6 (Ip6 n z) then Ip4 (n mod 2 ^ 32) else Ip6 n z)"
| "unmap a = a"

text \<open>The leading \<open>b\<close> bits of a number of \<open>w\<close> bits.\<close>

definition leading :: "nat \<Rightarrow> nat \<Rightarrow> nat \<Rightarrow> nat" where
  "leading w b n = n div 2 ^ (w - b)"

definition mask_num :: "nat \<Rightarrow> nat \<Rightarrow> nat \<Rightarrow> nat" where
  "mask_num w b n = leading w b n * 2 ^ (w - b)"

fun masked :: "ip_prefix \<Rightarrow> ip_prefix" where
  "masked p = (case pf_addr p of
      IpInvalid \<Rightarrow> p
    | Ip4 n \<Rightarrow> p\<lparr>pf_addr := Ip4 (mask_num 32 (pf_bits p) n)\<rparr>
    | Ip6 n _ \<Rightarrow> p\<lparr>pf_addr := Ip6 (mask_num 128 (pf_bits p) n) []\<rparr>)"

definition prefix_contains :: "ip_prefix \<Rightarrow> ip_addr \<Rightarrow> bool" where
  "prefix_contains p a \<longleftrightarrow> addr_zone a = [] \<and> bit_len a \<noteq> 0 \<and> bit_len a = bit_len (pf_addr p) \<and>
     leading (bit_len a) (pf_bits p) (addr_num a) = leading (bit_len a) (pf_bits p) (addr_num (pf_addr p))"

definition is_valid_addr :: "ip_addr \<Rightarrow> bool" where
  "is_valid_addr a \<longleftrightarrow> a \<noteq> IpInvalid"

definition is_unspecified :: "ip_addr \<Rightarrow> bool" where
  "is_unspecified a \<longleftrightarrow> a = Ip4 0 \<or> a = Ip6 0 []"

fun is_loopback4 :: "ip_addr \<Rightarrow> bool" where
  "is_loopback4 (Ip4 n) = (n div 2 ^ 24 = 127)"
| "is_loopback4 (Ip6 n _) = (n = 1)"
| "is_loopback4 IpInvalid = False"

definition is_loopback :: "ip_addr \<Rightarrow> bool" where
  "is_loopback a = is_loopback4 (unmap a)"

fun is_multicast_un :: "ip_addr \<Rightarrow> bool" where
  "is_multicast_un (Ip4 n) = (n div 2 ^ 28 = 0xE)"
| "is_multicast_un (Ip6 n _) = (n div 2 ^ 120 = 0xFF)"
| "is_multicast_un IpInvalid = False"

definition is_multicast :: "ip_addr \<Rightarrow> bool" where
  "is_multicast a = is_multicast_un (unmap a)"

fun is_link_local_unicast_un :: "ip_addr \<Rightarrow> bool" where
  "is_link_local_unicast_un (Ip4 n) = (n div 2 ^ 16 = 169 * 256 + 254)"
| "is_link_local_unicast_un (Ip6 n _) = (n div 2 ^ 118 = 0xFE80 div 64)"
| "is_link_local_unicast_un IpInvalid = False"

definition is_link_local_unicast :: "ip_addr \<Rightarrow> bool" where
  "is_link_local_unicast a = is_link_local_unicast_un (unmap a)"

fun is_link_local_multicast_un :: "ip_addr \<Rightarrow> bool" where
  "is_link_local_multicast_un (Ip4 n) = (n div 2 ^ 8 = 224 * 65536)"
| "is_link_local_multicast_un (Ip6 n _) = (n div 2 ^ 120 = 0xFF \<and> n div 2 ^ 112 mod 16 = 2)"
| "is_link_local_multicast_un IpInvalid = False"

definition is_link_local_multicast :: "ip_addr \<Rightarrow> bool" where
  "is_link_local_multicast a = is_link_local_multicast_un (unmap a)"

fun is_private_un :: "ip_addr \<Rightarrow> bool" where
  "is_private_un (Ip4 n) =
     (n div 2 ^ 24 = 10 \<or> n div 2 ^ 20 = 172 * 16 + 1 \<or> n div 2 ^ 16 = 192 * 256 + 168)"
| "is_private_un (Ip6 n _) = (n div 2 ^ 121 = 0xFC div 2)"
| "is_private_un IpInvalid = False"

definition is_private :: "ip_addr \<Rightarrow> bool" where
  "is_private a = is_private_un (unmap a)"

text \<open>\<open>Compare\<close>: the length of the address, its number, then its zone.\<close>

definition addr_rank :: "ip_addr \<Rightarrow> nat \<times> nat \<times> string" where
  "addr_rank a = (bit_len a, addr_num a, addr_zone a)"

lemma addr_rank_inj: "addr_rank a = addr_rank b \<longleftrightarrow> a = b"
  by (cases a; cases b) (auto simp: addr_rank_def)

instantiation ip_addr :: linorder
begin

definition less_eq_ip_addr :: "ip_addr \<Rightarrow> ip_addr \<Rightarrow> bool" where
  "less_eq_ip_addr a b \<longleftrightarrow>
     bit_len a < bit_len b \<or> bit_len a = bit_len b \<and>
       (addr_num a < addr_num b \<or> addr_num a = addr_num b \<and> addr_zone a \<le> addr_zone b)"

definition less_ip_addr :: "ip_addr \<Rightarrow> ip_addr \<Rightarrow> bool" where
  "less_ip_addr a b \<longleftrightarrow> a \<le> b \<and> \<not> b \<le> (a :: ip_addr)"

instance
proof
  fix a b c :: ip_addr
  show "a < b \<longleftrightarrow> a \<le> b \<and> \<not> b \<le> a" by (simp add: less_ip_addr_def)
  show "a \<le> a" by (simp add: less_eq_ip_addr_def)
  show "a \<le> b \<Longrightarrow> b \<le> c \<Longrightarrow> a \<le> c" by (auto simp: less_eq_ip_addr_def intro: order_trans)
  show "a \<le> b \<or> b \<le> a" by (auto simp: less_eq_ip_addr_def)
  show "a = b" if "a \<le> b" "b \<le> a"
    using that addr_rank_inj [of a b] by (auto simp: less_eq_ip_addr_def addr_rank_def)
qed

end

section \<open>Parsing\<close>

fun starts_with :: "string \<Rightarrow> string \<Rightarrow> bool" where
  "starts_with [] s = True"
| "starts_with (c # cs) s = (case s of [] \<Rightarrow> False | d # ds \<Rightarrow> c = d \<and> starts_with cs ds)"

fun digit_num :: "char \<Rightarrow> nat" where
  "digit_num c = of_char c - 48"

text \<open>\<open>parseIPv4Fields\<close>: the number read so far in the octet, its digits, and the octets before it.\<close>

fun parse4_fields :: "nat \<Rightarrow> nat \<Rightarrow> nat list \<Rightarrow> string \<Rightarrow> nat list option" where
  "parse4_fields v n fs [] = (if length fs < 3 then None else Some (fs @ [v]))"
| "parse4_fields v n fs (c # cs) =
     (if is_digit c then
        if n = 1 \<and> v = 0 then None
        else if v * 10 + digit_num c > 255 then None
        else parse4_fields (v * 10 + digit_num c) (n + 1) fs cs
      else if c = CHR ''.'' then
        if n = 0 \<or> cs = [] then None
        else if length fs = 3 then None
        else parse4_fields 0 0 (fs @ [v]) cs
      else None)"

definition parse_ipv4 :: "string \<Rightarrow> ip_addr option" where
  "parse_ipv4 s = map_option (\<lambda>fs. Ip4 (of_fields 256 fs)) (parse4_fields 0 0 [] s)"

fun hex_num :: "char \<Rightarrow> nat option" where
  "hex_num c =
     (if is_digit c then Some (of_char c - 48)
      else if CHR ''a'' \<le> c \<and> c \<le> CHR ''f'' then Some (of_char c - 97 + 10)
      else if CHR ''A'' \<le> c \<and> c \<le> CHR ''F'' then Some (of_char c - 65 + 10)
      else None)"

text \<open>The hexadecimal number at the start of a text: its digits, its number and what follows.\<close>

fun scan_hex :: "nat \<Rightarrow> nat \<Rightarrow> string \<Rightarrow> (nat \<times> nat \<times> string) option" where
  "scan_hex off acc [] = Some (off, acc, [])"
| "scan_hex off acc (c # cs) =
     (case hex_num c of
        None \<Rightarrow> Some (off, acc, c # cs)
      | Some d \<Rightarrow> if off > 3 \<or> acc * 16 + d > 0xFFFF then None else scan_hex (off + 1) (acc * 16 + d) cs)"

text \<open>
  The loop of \<open>parseIPv6\<close> over the sixteen-bit fields: the fields there is room for, those read,
  the position of \<open>::\<close>, and the rest of the text.
\<close>

fun parse6_loop :: "nat \<Rightarrow> nat list \<Rightarrow> nat option \<Rightarrow> string \<Rightarrow> (nat list \<times> nat option \<times> string) option" where
  "parse6_loop 0 fs ell s = Some (fs, ell, s)"
| "parse6_loop (Suc room) fs ell s =
     (case scan_hex 0 0 s of
        None \<Rightarrow> None
      | Some (off, acc, rest) \<Rightarrow>
          if off = 0 then None
          else if starts_with ''.'' rest then
            if ell = None \<and> length fs \<noteq> 6 then None
            else if length fs > 6 then None
            else (case parse4_fields 0 0 [] s of
                    None \<Rightarrow> None
                  | Some bs \<Rightarrow> Some (fs @ [bs ! 0 * 256 + bs ! 1, bs ! 2 * 256 + bs ! 3], ell, []))
          else (case rest of
              [] \<Rightarrow> Some (fs @ [acc], ell, [])
            | c # cs \<Rightarrow>
                if c \<noteq> CHR '':'' \<or> cs = [] then None
                else if hd cs = CHR '':'' then
                  if ell \<noteq> None then None
                  else if tl cs = [] then Some (fs @ [acc], Some (length fs + 1), [])
                  else parse6_loop room (fs @ [acc]) (Some (length fs + 1)) (tl cs)
                else parse6_loop room (fs @ [acc]) ell cs))"

definition expand_ellipsis :: "nat list \<Rightarrow> nat \<Rightarrow> nat list" where
  "expand_ellipsis fs e = take e fs @ replicate (8 - length fs) 0 @ drop e fs"

definition finish6 :: "string \<Rightarrow> (nat list \<times> nat option \<times> string) option \<Rightarrow> ip_addr option" where
  "finish6 zone r =
     (case r of
        None \<Rightarrow> None
      | Some (fs, ell, rest) \<Rightarrow>
          if rest \<noteq> [] then None
          else if length fs < 8
          then map_option (\<lambda>e. Ip6 (of_fields 65536 (expand_ellipsis fs e)) zone) ell
          else if ell \<noteq> None then None
          else Some (Ip6 (of_fields 65536 fs) zone))"

definition parse_ipv6 :: "string \<Rightarrow> ip_addr option" where
  "parse_ipv6 s0 =
     (let s = takeWhile (\<lambda>c. c \<noteq> CHR ''%'') s0;
          zone = tl (dropWhile (\<lambda>c. c \<noteq> CHR ''%'') s0)
      in if CHR ''%'' \<in> set s0 \<and> zone = [] then None
         else if starts_with ''::'' s then
           if length s = 2 then Some (Ip6 0 zone)
           else finish6 zone (parse6_loop 8 [] (Some 0) (drop 2 s))
         else finish6 zone (parse6_loop 8 [] None s))"

fun parse_addr_kind :: "string \<Rightarrow> string \<Rightarrow> ip_addr option" where
  "parse_addr_kind whole [] = None"
| "parse_addr_kind whole (c # cs) =
     (if c = CHR ''.'' then parse_ipv4 whole
      else if c = CHR '':'' then parse_ipv6 whole
      else if c = CHR ''%'' then None
      else parse_addr_kind whole cs)"

definition parse_addr :: "string \<Rightarrow> ip_addr option" where
  "parse_addr s = parse_addr_kind s s"

definition dec_num :: "string \<Rightarrow> nat" where
  "dec_num s = foldl (\<lambda>a c. a * 10 + digit_num c) 0 s"

text \<open>The decimal number after the slash, with no sign and no leading zero.\<close>

definition parse_bits :: "nat \<Rightarrow> string \<Rightarrow> nat option" where
  "parse_bits maximum s =
     (if s = [] \<or> \<not> list_all is_digit s \<or> length s > 1 \<and> hd s = CHR ''0'' then None
      else if dec_num s > maximum then None else Some (dec_num s))"

definition last_slash :: "string \<Rightarrow> (string \<times> string) option" where
  "last_slash s =
     (let tail = takeWhile (\<lambda>c. c \<noteq> CHR ''/'') (rev s)
      in if length tail = length s then None
         else Some (take (length s - length tail - 1) s, rev tail))"

definition parse_prefix :: "string \<Rightarrow> ip_prefix option" where
  "parse_prefix s =
     (case last_slash s of
        None \<Rightarrow> None
      | Some (a, b) \<Rightarrow>
          (case parse_addr a of
             None \<Rightarrow> None
           | Some ip \<Rightarrow>
               if addr_zone ip \<noteq> [] then None
               else map_option (\<lambda>n. \<lparr>pf_addr = ip, pf_bits = n\<rparr>) (parse_bits (bit_len ip) b)))"

section \<open>Printing\<close>

fun hex_digits :: "nat \<Rightarrow> string" where
  "hex_digits n = (if n < 16 then [hex_digit n] else hex_digits (n div 16) @ [hex_digit (n mod 16)])"

declare hex_digits.simps [simp del]

definition string4 :: "nat \<Rightarrow> string" where
  "string4 n = join_with ''.'' (map digits (to_fields 256 4 n))"

fun zero_run :: "nat list \<Rightarrow> nat" where
  "zero_run (0 # fs) = Suc (zero_run fs)"
| "zero_run _ = 0"

text \<open>The first longest run of at least two zero fields: where it starts, and its length.\<close>

fun longest_run :: "nat \<Rightarrow> nat \<times> nat \<Rightarrow> nat list \<Rightarrow> nat \<times> nat" where
  "longest_run i best [] = best"
| "longest_run i best (f # fs) =
     longest_run (Suc i)
       (if zero_run (f # fs) \<ge> 2 \<and> zero_run (f # fs) > snd best then (i, zero_run (f # fs)) else best) fs"

definition string6 :: "nat \<Rightarrow> string" where
  "string6 n =
     (let fs = to_fields 65536 8 n; (start, len) = longest_run 0 (0, 0) fs
      in if len = 0 then join_with '':'' (map hex_digits fs)
         else join_with '':'' (map hex_digits (take start fs)) @ ''::'' @
              join_with '':'' (map hex_digits (drop (start + len) fs)))"

fun addr_string :: "ip_addr \<Rightarrow> string" where
  "addr_string IpInvalid = ''invalid IP''"
| "addr_string (Ip4 n) = string4 n"
| "addr_string (Ip6 n z) =
     (if is4in6 (Ip6 n z) then ''::ffff:'' @ string4 (n mod 2 ^ 32) else string6 n) @
     (if z = [] then [] else ''%'' @ z)"

definition prefix_string :: "ip_prefix \<Rightarrow> string" where
  "prefix_string p = addr_string (pf_addr p) @ ''/'' @ digits (pf_bits p)"

section \<open>The text of an address parses back\<close>

lemma digit_of_char:
  assumes "d < 10"
  shows "is_digit (char_of (48 + d))" and "digit_num (char_of (48 + d)) = d"
proof -
  have "of_char (char_of (48 + d) :: char) = 48 + d" using assms by simp
  then show "is_digit (char_of (48 + d))" "digit_num (char_of (48 + d)) = d"
    using assms by (simp_all add: is_digit_def less_eq_char_def)
qed

lemma not_digit_dot: "\<not> is_digit CHR ''.''"
  by code_simp

lemma digits_shapes:
  assumes "n < 1000"
  obtains "n < 10" "digits n = [char_of (48 + n)]"
  | "10 \<le> n" "n < 100" "digits n = [char_of (48 + n div 10), char_of (48 + n mod 10)]"
  | "100 \<le> n" "digits n = [char_of (48 + n div 100), char_of (48 + n div 10 mod 10), char_of (48 + n mod 10)]"
proof (cases "n < 10")
  case True
  then show ?thesis using that(1) by (simp add: digits.simps)
next
  case False
  show ?thesis
  proof (cases "n < 100")
    case True
    then have "n div 10 < 10" by linarith
    with True False show ?thesis using that(2) by (simp add: digits.simps [of n] digits.simps [of "n div 10"])
  next
    case F2: False
    have "n div 10 div 10 = n div 100" by (simp flip: div_mult2_eq)
    moreover have "n div 100 < 10" using assms by linarith
    moreover have "\<not> n div 10 < 10" using F2 by linarith
    ultimately show ?thesis using that(3) F2
      by (simp add: digits.simps [of n] digits.simps [of "n div 10"] digits.simps [of "n div 100"])
  qed
qed

lemma parse4_digits:
  assumes "n < 256"
  shows "parse4_fields 0 0 fs (digits n @ rest) = parse4_fields n (length (digits n)) fs rest"
proof -
  have "n < 1000" using assms by simp
  then show ?thesis
  proof (cases rule: digits_shapes)
    case 1
    then show ?thesis using digit_of_char [of n] by (simp del: digit_num.simps)
  next
    case 2
    then have "n div 10 < 10" "n div 10 \<noteq> 0" by auto
    then show ?thesis using 2 digit_of_char [of "n div 10"] digit_of_char [of "n mod 10"] assms
      by (simp del: digit_num.simps)
  next
    case 3
    have d: "n div 100 < 10" "n div 100 \<noteq> 0" using 3 assms by auto
    have "n div 100 = n div 10 div 10" by (simp flip: div_mult2_eq)
    then have "n div 100 * 10 + n div 10 mod 10 = n div 10" by (simp only: div_mult_mod_eq)
    moreover have "\<not> 255 < n div 10" using assms by linarith
    ultimately show ?thesis
      using 3 d digit_of_char [of "n div 100"] digit_of_char [of "n div 10 mod 10"] digit_of_char [of "n mod 10"] assms
      by (simp del: digit_num.simps)
  qed
qed

lemma digits_not_Nil [simp]: "digits n \<noteq> []"
  by (simp add: digits.simps)

lemma digits_set: "c \<in> set (digits n) \<Longrightarrow> is_digit c"
proof (induction n rule: digits.induct)
  case (1 n)
  show ?case
  proof (cases "n < 10")
    case True
    with 1(2) digit_of_char [of n] show ?thesis by (simp add: digits.simps)
  next
    case False
    have "n mod 10 < 10" by simp
    with 1 False digit_of_char [of "n mod 10"] show ?thesis by (auto simp: digits.simps [of n])
  qed
qed

lemma digits_hd: "hd (digits n @ s) = hd (digits n)"
  by simp

lemma parse4_string:
  assumes "a < 256" "b < 256" "c < 256" "d < 256"
  shows "parse4_fields 0 0 [] (join_with ''.'' (map digits [a, b, c, d])) = Some [a, b, c, d]"
  using assms parse4_digits [of d "[a, b, c]" "[]"]
  by (simp add: parse4_digits not_digit_dot)

lemma string4_fields:
  obtains a b c d where "to_fields 256 4 n = [a, b, c, d]" and "a < 256" "b < 256" "c < 256" "d < 256"
proof -
  have four: "(4 :: nat) = Suc (Suc (Suc (Suc 0)))" by simp
  show ?thesis by (rule that) (simp only: four to_fields.simps append.simps, simp_all)
qed

lemma kind_skip:
  "(\<And>c. c \<in> set p \<Longrightarrow> c \<notin> {CHR ''.'', CHR '':'', CHR ''%''}) \<Longrightarrow>
   parse_addr_kind w (p @ s) = parse_addr_kind w s"
  by (induction p) auto

lemma digit_plain: "is_digit c \<Longrightarrow> c \<notin> {CHR ''.'', CHR '':'', CHR ''%''}"
  by (auto simp: is_digit_def less_eq_char_def)

lemma parse_string4:
  assumes "n < 2 ^ 32"
  shows "parse_addr (string4 n) = Some (Ip4 n)"
proof -
  obtain a b c d where f: "to_fields 256 4 n = [a, b, c, d]" and "a < 256" "b < 256" "c < 256" "d < 256"
    by (rule string4_fields)
  then have "parse_ipv4 (string4 n) = Some (Ip4 n)"
    using of_to_fields [of 256 n 4] assms parse4_string [of a b c d] by (simp add: string4_def parse_ipv4_def)
  moreover have "parse_addr_kind w (string4 n) = parse_ipv4 w" for w
    using kind_skip [of "digits a"] digit_plain digits_set by (simp add: string4_def f)
  ultimately show ?thesis by (simp add: parse_addr_def)
qed

lemma hex_num_digit:
  assumes "d < 16"
  shows "hex_num (hex_digit d) = Some d"
proof (cases "d < 10")
  case True
  then show ?thesis using digit_of_char [of d] by (simp add: hex_digit_def)
next
  case False
  have "of_char (char_of (87 + d) :: char) = 87 + d" using assms by simp
  with False assms show ?thesis by (simp add: hex_digit_def is_digit_def less_eq_char_def)
qed

lemma hex_digits_not_Nil [simp]: "hex_digits n \<noteq> []"
  by (simp add: hex_digits.simps)

lemma hex_digits_set: "c \<in> set (hex_digits n) \<Longrightarrow> hex_num c \<noteq> None"
proof (induction n rule: hex_digits.induct)
  case (1 n)
  show ?case
  proof (cases "n < 16")
    case True
    with 1(2) hex_num_digit [of n] show ?thesis by (simp add: hex_digits.simps del: hex_num.simps)
  next
    case False
    with 1 hex_num_digit [of "n mod 16"] show ?thesis by (auto simp: hex_digits.simps [of n] simp del: hex_num.simps)
  qed
qed

lemma hex_plain: "hex_num c \<noteq> None \<Longrightarrow> c \<notin> {CHR ''.'', CHR '':'', CHR ''%''}"
  by (auto simp: is_digit_def less_eq_char_def)

lemma length_hex_digits: "n < 65536 \<Longrightarrow> length (hex_digits n) \<le> 4"
  by (simp add: hex_digits.simps [of n] hex_digits.simps [of "n div 16"] hex_digits.simps [of "n div 16 div 16"]
      hex_digits.simps [of "n div 16 div 16 div 16"])

lemma scan_hex_digits:
  assumes "off + length (hex_digits n) \<le> 4" and "acc * 16 ^ length (hex_digits n) + n \<le> 65535"
  shows "scan_hex off acc (hex_digits n @ rest) =
    scan_hex (off + length (hex_digits n)) (acc * 16 ^ length (hex_digits n) + n) rest"
  using assms
proof (induction n arbitrary: rest rule: hex_digits.induct)
  case (1 n)
  show ?case
  proof (cases "n < 16")
    case True
    with 1 hex_num_digit [of n] show ?thesis by (simp add: hex_digits.simps [of n] del: hex_num.simps)
  next
    case False
    let ?l = "length (hex_digits (n div 16))"
    have len: "length (hex_digits n) = Suc ?l" using False by (simp add: hex_digits.simps [of n])
    have num: "(acc * 16 ^ ?l + n div 16) * 16 + n mod 16 = acc * 16 ^ Suc ?l + n"
      by (simp add: algebra_simps)
    have "acc * 16 ^ ?l + n div 16 \<le> (acc * 16 ^ ?l + n div 16) * 16 + n mod 16" by simp
    also have "\<dots> \<le> 65535" unfolding num using 1(3) [unfolded len] .
    finally have small: "acc * 16 ^ ?l + n div 16 \<le> 65535" .
    have "scan_hex off acc (hex_digits n @ rest) =
        scan_hex (off + ?l) (acc * 16 ^ ?l + n div 16) (hex_digit (n mod 16) # rest)"
      using 1(1) [OF False, of "hex_digit (n mod 16) # rest"] 1(2) small False len
      by (simp add: hex_digits.simps [of n])
    also have "\<dots> = scan_hex (off + Suc ?l) ((acc * 16 ^ ?l + n div 16) * 16 + n mod 16) rest"
    proof -
      have "scan_hex (off + ?l) x (hex_digit (n mod 16) # rest) = scan_hex (off + Suc ?l) (x * 16 + n mod 16) rest"
        if "x * 16 + n mod 16 \<le> 65535" for x
        using that hex_num_digit [of "n mod 16"] 1(2) len by (simp del: hex_num.simps)
      then show ?thesis using 1(3) [unfolded len] num by simp
    qed
    finally show ?thesis unfolding num len .
  qed
qed

lemma scan_hex_field:
  assumes "n < 65536" and "rest = [] \<or> hex_num (hd rest) = None"
  shows "scan_hex 0 0 (hex_digits n @ rest) = Some (length (hex_digits n), n, rest)"
  using assms scan_hex_digits [of 0 n 0 rest] length_hex_digits [of n]
  by (cases rest) (auto simp del: hex_num.simps)

abbreviation hex_join :: "nat list \<Rightarrow> string" where
  "hex_join ns \<equiv> join_with '':'' (map hex_digits ns)"

lemma hex_num_colon: "hex_num CHR '':'' = None"
  by code_simp

lemma hd_hex_join: "ns \<noteq> [] \<Longrightarrow> hex_join ns \<noteq> [] \<and> hd (hex_join ns @ s) \<noteq> CHR '':''"
proof -
  have "hd (hex_digits n) \<noteq> CHR '':''" for n
    using hex_digits_set [of "hd (hex_digits n)" n] hex_plain [of "hd (hex_digits n)"] by (auto simp del: hex_num.simps)
  then show "ns \<noteq> [] \<Longrightarrow> hex_join ns \<noteq> [] \<and> hd (hex_join ns @ s) \<noteq> CHR '':''"
    by (cases ns rule: list.exhaust; cases "tl ns") auto
qed

lemma hex_join_Cons: "ns \<noteq> [] \<Longrightarrow> hex_join (n # ns) = hex_digits n @ '':'' @ hex_join ns"
  by (cases ns) simp_all

lemma loop_colon:
  assumes "n < 65536" and "cs \<noteq> []" and "hd cs \<noteq> CHR '':''"
  shows "parse6_loop (Suc room) fs ell (hex_digits n @ '':'' @ cs) = parse6_loop room (fs @ [n]) ell cs"
  using assms scan_hex_field [of n "'':'' @ cs"] hex_num_colon by (simp del: hex_num.simps)

lemma loop_fields:
  assumes "ns \<noteq> []" and "length ns \<le> room" and "\<And>n. n \<in> set ns \<Longrightarrow> n < 65536"
  shows "parse6_loop room fs ell (hex_join ns) = Some (fs @ ns, ell, [])"
  using assms
proof (induction ns arbitrary: room fs rule: list_nonempty_induct)
  case (single n)
  then obtain r where "room = Suc r" by (cases room) auto
  with single scan_hex_field [of n "[]"] show ?case by simp
next
  case (cons n ns)
  then obtain r where "room = Suc r" by (cases room) auto
  moreover have "parse6_loop (Suc r) fs ell (hex_join (n # ns)) = parse6_loop r (fs @ [n]) ell (hex_join ns)"
    unfolding hex_join_Cons [OF cons(1)] using cons(1,4) hd_hex_join [of ns "[]"] by (intro loop_colon) auto
  ultimately show ?case using cons by simp
qed

lemma loop_ellipsis:
  assumes "ns \<noteq> []" and "length ns \<le> room" and "\<And>n. n \<in> set ns \<Longrightarrow> n < 65536"
  shows "parse6_loop room fs None (hex_join ns @ ''::'' @ rest) =
    (if rest = [] then Some (fs @ ns, Some (length fs + length ns), [])
     else parse6_loop (room - length ns) (fs @ ns) (Some (length fs + length ns)) rest)"
  using assms
proof (induction ns arbitrary: room fs rule: list_nonempty_induct)
  case (single n)
  then obtain r where "room = Suc r" by (cases room) auto
  with single scan_hex_field [of n "''::'' @ rest"] hex_num_colon show ?case by (simp del: hex_num.simps)
next
  case (cons n ns)
  then obtain r where "room = Suc r" by (cases room) auto
  moreover have "parse6_loop (Suc r) fs None (hex_join (n # ns) @ ''::'' @ rest) =
      parse6_loop r (fs @ [n]) None (hex_join ns @ ''::'' @ rest)"
    unfolding hex_join_Cons [OF cons(1)] append_assoc
    using cons(1,4) hd_hex_join [of ns "''::'' @ rest"] by (intro loop_colon) auto
  ultimately show ?case using cons by simp
qed

lemma zero_run_replicate: "take (zero_run fs) fs = replicate (zero_run fs) 0 \<and> zero_run fs \<le> length fs"
  by (induction fs rule: zero_run.induct) auto

definition run_ok :: "nat list \<Rightarrow> nat \<times> nat \<Rightarrow> bool" where
  "run_ok fs r \<longleftrightarrow> snd r = 0 \<or>
     2 \<le> snd r \<and> fst r + snd r \<le> length fs \<and> take (snd r) (drop (fst r) fs) = replicate (snd r) 0"

lemma longest_run_ok: "run_ok fs0 best \<Longrightarrow> fs = drop i fs0 \<Longrightarrow> run_ok fs0 (longest_run i best fs)"
proof (induction i best fs rule: longest_run.induct)
  case (2 i best f fs)
  have "i < length fs0" using arg_cong [OF 2(3), of length] by simp
  then have "run_ok fs0 (i, zero_run (f # fs))" if "2 \<le> zero_run (f # fs)"
    using that zero_run_replicate [of "f # fs"] 2(3) by (auto simp: run_ok_def)
  moreover have "fs = drop (Suc i) fs0" using 2(3) by (metis drop_Suc list.sel(3) tl_drop)
  ultimately show ?case unfolding longest_run.simps using 2(2) by (intro 2(1)) auto
qed simp

lemma hex_join_set: "c \<in> set (hex_join ns) \<Longrightarrow> c = CHR '':'' \<or> hex_num c \<noteq> None"
proof (induction ns)
  case (Cons n ns)
  show ?case
  proof (cases "ns = []")
    case False
    then show ?thesis using Cons hex_digits_set [of c n] unfolding hex_join_Cons [OF False] by (auto simp del: hex_num.simps)
  qed (use Cons hex_digits_set in simp)
qed simp

lemma parse_ipv6_plain:
  assumes "CHR ''%'' \<notin> set s"
  shows "parse_ipv6 s =
    (if starts_with ''::'' s then if length s = 2 then Some (Ip6 0 [])
       else finish6 [] (parse6_loop 8 [] (Some 0) (drop 2 s))
     else finish6 [] (parse6_loop 8 [] None s))"
proof -
  have w: "takeWhile (\<lambda>c. c \<noteq> CHR ''%'') s = s" "dropWhile (\<lambda>c. c \<noteq> CHR ''%'') s = []" using assms by auto
  show ?thesis unfolding parse_ipv6_def Let_def w using assms by simp
qed

lemma hex_join_plain: "CHR ''%'' \<notin> set (hex_join ns)"
  using hex_join_set [of "CHR ''%''" ns] hex_plain [of "CHR ''%''"] by auto

lemma not_ellipsis:
  "ns \<noteq> [] \<Longrightarrow> \<not> starts_with ''::'' (hex_join ns @ s)"
  using hd_hex_join [of ns s] by (cases "hex_join ns @ s") auto

text \<open>The text with \<open>::\<close> for a run of zero fields parses to all the fields.\<close>

lemma parse_compressed:
  assumes "length pre + len + length post = 8" and "2 \<le> len"
    and "\<And>n. n \<in> set (pre @ post) \<Longrightarrow> n < 65536"
  shows "parse_ipv6 (hex_join pre @ ''::'' @ hex_join post) =
    Some (Ip6 (of_fields 65536 (pre @ replicate len 0 @ post)) [])"
proof -
  let ?s = "hex_join pre @ ''::'' @ hex_join post"
  have plain: "CHR ''%'' \<notin> set ?s" using hex_join_plain by simp
  have len: "8 - (length pre + length post) = len" using assms(1) by simp
  have fin: "finish6 [] (Some (pre @ post, Some (length pre), [])) =
      Some (Ip6 (of_fields 65536 (pre @ replicate len 0 @ post)) [])"
    using assms(1,2) len by (simp add: finish6_def expand_ellipsis_def)
  show ?thesis
  proof (cases "pre = []")
    case True
    show ?thesis
    proof (cases "post = []")
      case True
      have "of_fields 65536 (replicate k 0) = 0" for k using of_fields_zeros [of 65536 k "[]"] by simp
      with \<open>pre = []\<close> True assms(1) show ?thesis by (simp add: parse_ipv6_plain)
    next
      case False
      then have "hex_join post \<noteq> []" using hd_hex_join [of post "[]"] by simp
      with True False fin plain loop_fields [of post 8 "[]" "Some 0"] assms show ?thesis
        by (simp add: parse_ipv6_plain)
    qed
  next
    case False
    have "parse6_loop 8 [] None ?s = Some (pre @ post, Some (length pre), [])"
    proof (cases "post = []")
      case True
      with False loop_ellipsis [of pre 8 "[]" "[]"] assms show ?thesis by simp
    next
      case F2: False
      then have "hex_join post \<noteq> []" using hd_hex_join [of post "[]"] by simp
      with False F2 loop_ellipsis [of pre 8 "[]" "hex_join post"] loop_fields [of post "8 - length pre" pre "Some (length pre)"]
        assms show ?thesis by simp
    qed
    then show ?thesis unfolding parse_ipv6_plain [OF plain] using not_ellipsis [OF False] fin by simp
  qed
qed

lemma parse_full:
  assumes "length fs = 8" and "\<And>n. n \<in> set fs \<Longrightarrow> n < 65536"
  shows "parse_ipv6 (hex_join fs) = Some (Ip6 (of_fields 65536 fs) [])"
proof -
  have "fs \<noteq> []" using assms(1) by auto
  then show ?thesis
    using parse_ipv6_plain [OF hex_join_plain, of fs] not_ellipsis [of fs "[]"] loop_fields [of fs 8 "[]" None] assms
    by (simp add: finish6_def)
qed

lemma parse_kind6:
  assumes "c = CHR '':''" "\<And>x. x \<in> set p \<Longrightarrow> hex_num x \<noteq> None"
  shows "parse_addr_kind w (p @ c # s) = parse_ipv6 w"
  using assms kind_skip [of p w "c # s"] hex_plain by (simp del: hex_num.simps)

lemma parse_string6:
  assumes "n < 2 ^ 128"
  shows "parse_addr (string6 n) = Some (Ip6 n [])"
proof -
  let ?fs = "to_fields 65536 8 n"
  obtain start len where r: "longest_run 0 (0, 0) ?fs = (start, len)" by force
  have ok: "run_ok ?fs (start, len)" using longest_run_ok [of ?fs "(0, 0)" ?fs 0] r by (simp add: run_ok_def)
  have bound: "f < 65536" if "f \<in> set ?fs" for f using to_fields_bound [of 65536 f] that by simp
  have num: "of_fields 65536 ?fs = n" using of_to_fields [of 65536 n 8] assms by simp
  show ?thesis
  proof (cases "len = 0")
    case True
    then have s: "string6 n = hex_join ?fs" using r by (simp add: string6_def)
    have "length ?fs = 8" by simp
    then obtain f fs where fs: "?fs = f # fs" "fs \<noteq> []" by (cases ?fs) (force simp del: length_to_fields)+
    have "parse_addr_kind w (hex_join ?fs) = parse_ipv6 w" for w
      unfolding fs(1) hex_join_Cons [OF fs(2)] using parse_kind6 [of "CHR '':''" "hex_digits f" w] hex_digits_set
      by (simp del: hex_num.simps)
    then show ?thesis using parse_full [of ?fs] bound num by (simp add: parse_addr_def s)
  next
    case False
    let ?pre = "take start ?fs" and ?post = "drop (start + len) ?fs"
    have s: "string6 n = hex_join ?pre @ ''::'' @ hex_join ?post" using r False by (simp add: string6_def Let_def)
    have run: "2 \<le> len" "start + len \<le> 8" "take len (drop start ?fs) = replicate len 0"
      using ok False by (auto simp: run_ok_def)
    have split: "?pre @ replicate len 0 @ ?post = ?fs"
      by (metis run(3) append_take_drop_id drop_drop add.commute)
    have "parse_ipv6 (string6 n) = Some (Ip6 n [])"
      unfolding s using parse_compressed [of ?pre len ?post] run split bound num
      by (auto dest: in_set_takeD in_set_dropD)
    moreover have "parse_addr_kind w (string6 n) = parse_ipv6 w" for w
    proof (cases ?pre)
      case Nil
      then show ?thesis unfolding s by (simp only: list.map join_with.simps append_Nil) simp
    next
      case (Cons f fs)
      have "parse_addr_kind w (hex_join (f # fs) @ ''::'' @ t) = parse_ipv6 w" for t
      proof (cases "fs = []")
        case True
        then show ?thesis using parse_kind6 [of "CHR '':''" "hex_digits f" w "'':'' @ t"] hex_digits_set by (simp del: hex_num.simps)
      next
        case False
        show ?thesis unfolding hex_join_Cons [OF False]
          using parse_kind6 [of "CHR '':''" "hex_digits f" w] hex_digits_set by (simp del: hex_num.simps)
      qed
      then show ?thesis unfolding s Cons .
    qed
    ultimately show ?thesis by (simp add: parse_addr_def)
  qed
qed

lemma scan_hex_octet:
  assumes "a < 256"
  shows "\<exists>acc. scan_hex 0 0 (digits a @ CHR ''.'' # r) = Some (length (digits a), acc, CHR ''.'' # r)"
proof -
  have dot: "hex_num CHR ''.'' = None" by code_simp
  have d: "hex_num (char_of (48 + d)) = Some d" if "d < 10" for d using digit_of_char [OF that] by simp
  from assms have "a < 1000" by simp
  then show ?thesis
  proof (cases rule: digits_shapes)
    case 1
    then show ?thesis using d [of a] dot by (simp del: hex_num.simps)
  next
    case 2
    then have "a div 10 < 10" by linarith
    with 2 show ?thesis using d [of "a div 10"] d [of "a mod 10"] dot by (simp del: hex_num.simps)
  next
    case 3
    then have "a div 100 < 10" "a div 100 \<le> 2" using assms by linarith+
    with 3 show ?thesis using d [of "a div 100"] d [of "a div 10 mod 10"] d [of "a mod 10"] dot assms
      by (simp del: hex_num.simps)
  qed
qed

lemma parse_4in6:
  assumes "n div 2 ^ 32 = 0xFFFF"
  shows "parse_addr (''::ffff:'' @ string4 (n mod 2 ^ 32)) = Some (Ip6 n [])"
proof -
  define m where "m = n mod 2 ^ 32"
  have small: "m < 256 ^ 4" by (simp add: m_def)
  obtain a b c d where f: "to_fields 256 4 m = [a, b, c, d]" and bound: "a < 256" "b < 256" "c < 256" "d < 256"
    by (rule string4_fields)
  have m: "of_fields 256 [a, b, c, d] = m" using of_to_fields [of 256 m 4] f small by simp
  have s4: "string4 m = digits a @ CHR ''.'' # digits b @ CHR ''.'' # digits c @ CHR ''.'' # digits d"
    unfolding string4_def f by simp
  have "hd (digits a) \<noteq> CHR '':''" using digit_plain [OF digits_set [OF hd_in_set [OF digits_not_Nil]]] by auto
  then have colon: "hd (string4 m) \<noteq> CHR '':''" "string4 m \<noteq> []" by (simp_all add: s4)
  have "parse6_loop 8 [] (Some 0) (hex_digits 0xFFFF @ '':'' @ string4 m) =
      parse6_loop 7 [0xFFFF] (Some 0) (string4 m)"
    using loop_colon [of 65535 "string4 m" 7 "[]" "Some 0"] colon by simp
  also have "\<dots> = Some ([0xFFFF, a * 256 + b, c * 256 + d], Some 0, [])"
  proof -
    obtain acc where "scan_hex 0 0 (string4 m) = Some (length (digits a), acc, CHR ''.'' # digits b @ CHR ''.'' # digits c @ CHR ''.'' # digits d)"
      using scan_hex_octet [OF bound(1)] unfolding s4 by blast
    moreover have "parse4_fields 0 0 [] (string4 m) = Some [a, b, c, d]"
      unfolding string4_def f by (rule parse4_string [OF bound])
    moreover have seven: "(7 :: nat) = Suc 6" by simp
    ultimately show ?thesis unfolding seven parse6_loop.simps(2) by simp
  qed
  finally have fin: "finish6 [] (parse6_loop 8 [] (Some 0) (hex_digits 0xFFFF @ '':'' @ string4 m)) =
      Some (Ip6 (0xFFFF * 2 ^ 32 + m) [])"
    using m by (simp add: finish6_def expand_ellipsis_def of_fields_zeros) (simp add: of_fields_def)
  have "char_of (102 :: nat) = CHR ''f''" by code_simp
  then have ffff: "hex_digits 0xFFFF = ''ffff''" by (simp add: hex_digits.simps hex_digit_def)
  have n: "0xFFFF * 2 ^ 32 + m = n" using assms div_mult_mod_eq [of n "2 ^ 32"] by (simp add: m_def)
  have "CHR ''%'' \<notin> set (digits x)" for x using digits_set [of "CHR ''%''" x] digit_plain [of "CHR ''%''"] by blast
  then have "CHR ''%'' \<notin> set (''::ffff:'' @ string4 m)" by (simp add: s4)
  then have "parse_ipv6 (''::ffff:'' @ string4 m) = finish6 [] (parse6_loop 8 [] (Some 0) (''ffff'' @ '':'' @ string4 m))"
    by (subst parse_ipv6_plain) simp_all
  also have "\<dots> = Some (Ip6 n [])" using fin unfolding ffff n .
  finally show ?thesis unfolding m_def [symmetric] parse_addr_def by simp
qed

definition addr_ok :: "ip_addr \<Rightarrow> bool" where
  "addr_ok a \<longleftrightarrow> a \<noteq> IpInvalid \<and> addr_num a < 2 ^ bit_len a \<and> addr_zone a = []"

lemma parse_addr_string: "addr_ok a \<Longrightarrow> parse_addr (addr_string a) = Some a"
proof (cases a)
  case (Ip6 n z)
  assume "addr_ok a"
  with Ip6 show ?thesis using parse_4in6 [of n] parse_string6 [of n] by (simp add: addr_ok_def)
qed (auto simp: addr_ok_def parse_string4)

section \<open>The text of a prefix parses back\<close>

definition prefix_ok :: "ip_prefix \<Rightarrow> bool" where
  "prefix_ok p \<longleftrightarrow> addr_ok (pf_addr p) \<and> pf_bits p \<le> bit_len (pf_addr p)"

lemma last_slash_split: "CHR ''/'' \<notin> set b \<Longrightarrow> last_slash (a @ ''/'' @ b) = Some (a, b)"
  by (simp add: last_slash_def takeWhile_append)

lemma digit_not_slash: "\<not> is_digit CHR ''/''"
  by code_simp

lemma dec_num_digits: "dec_num (digits n) = n"
proof (induction n rule: digits.induct)
  case (1 n)
  show ?case
  proof (cases "n < 10")
    case True
    then show ?thesis using digit_of_char [of n] by (simp add: dec_num_def digits.simps del: digit_num.simps)
  next
    case False
    then show ?thesis using 1 digit_of_char [of "n mod 10"]
      by (simp add: dec_num_def digits.simps [of n] del: digit_num.simps)
  qed
qed

lemma hd_digits: "0 < n \<Longrightarrow> hd (digits n) \<noteq> CHR ''0''"
proof (induction n rule: digits.induct)
  case (1 n)
  show ?case
  proof (cases "n < 10")
    case True
    have "digit_num (char_of (48 + n)) \<noteq> digit_num CHR ''0''" using 1(2) digit_of_char [OF True] by simp
    then show ?thesis using True by (auto simp: digits.simps [of n] simp del: digit_num.simps)
  next
    case False
    with 1 show ?thesis by (simp add: digits.simps [of n])
  qed
qed

lemma parse_bits_digits: "n \<le> maximum \<Longrightarrow> parse_bits maximum (digits n) = Some n"
proof -
  have "length (digits n) > 1 \<Longrightarrow> 0 < n" by (cases "n = 0") (simp_all add: digits.simps)
  then show "n \<le> maximum \<Longrightarrow> parse_bits maximum (digits n) = Some n"
    using hd_digits [of n] digits_set [of _ n] by (auto simp: parse_bits_def dec_num_digits list_all_iff)
qed

lemma parse_prefix_string: "prefix_ok p \<Longrightarrow> parse_prefix (prefix_string p) = Some p"
proof -
  have "CHR ''/'' \<notin> set (digits n)" for n using digits_set digit_not_slash by blast
  then show "prefix_ok p \<Longrightarrow> parse_prefix (prefix_string p) = Some p"
    by (simp add: prefix_ok_def parse_prefix_def prefix_string_def last_slash_split [simplified] parse_addr_string
        parse_bits_digits addr_ok_def)
qed

text \<open>Parsing yields valid prefixes, and masking keeps them valid and is idempotent.\<close>

lemma parse4_fields_ok:
  assumes "parse4_fields v n fs s = Some bs" and "v < 256" and "length fs \<le> 3" and "\<And>f. f \<in> set fs \<Longrightarrow> f < 256"
  shows "length bs = 4 \<and> (\<forall>b \<in> set bs. b < 256)"
  using assms by (induction v n fs s rule: parse4_fields.induct) (auto split: if_splits)

lemma scan_hex_bound: "scan_hex off acc s = Some (off', acc', rest) \<Longrightarrow> acc < 65536 \<Longrightarrow> acc' < 65536"
  by (induction off acc s rule: scan_hex.induct) (auto split: option.splits if_splits simp del: hex_num.simps)

lemma parse6_loop_ok:
  assumes "parse6_loop room fs ell s = Some (fs', ell', rest)" and "length fs + room = 8"
    and "\<And>f. f \<in> set fs \<Longrightarrow> f < 65536"
  shows "length fs' \<le> 8 \<and> (\<forall>f \<in> set fs'. f < 65536)"
  using assms
proof (induction room fs ell s rule: parse6_loop.induct)
  case (2 room fs ell s)
  obtain off acc r where sc: "scan_hex 0 0 s = Some (off, acc, r)"
    using 2(3) by (auto split: option.splits prod.splits)
  have acc: "acc < 65536" using scan_hex_bound [OF sc] by simp
  have old: "\<forall>f \<in> set fs. f < 65536" and len: "length fs + Suc room = 8" using 2(4,5) by auto
  show ?case
  proof (cases "starts_with ''.'' r")
    case True
    then obtain bs where bs: "parse4_fields 0 0 [] s = Some bs"
      and fs': "fs' = fs @ [bs ! 0 * 256 + bs ! 1, bs ! 2 * 256 + bs ! 3]" and "length fs \<le> 6"
      using 2(3) sc by (auto split: if_splits option.splits simp del: starts_with.simps)
    have "length bs = 4 \<and> (\<forall>b \<in> set bs. b < 256)" using parse4_fields_ok [OF bs] by simp
    then have "bs ! 0 < 256" "bs ! 1 < 256" "bs ! 2 < 256" "bs ! 3 < 256" by simp_all
    then show ?thesis using fs' \<open>length fs \<le> 6\<close> old by auto
  next
    case False
    then show ?thesis
      using 2(3) sc acc old len 2(1)[OF sc refl refl _ _] 2(2)[OF sc refl refl]
      by (auto split: if_splits list.splits simp del: starts_with.simps)
  qed
qed simp

lemma parse_ipv4_ok: "parse_ipv4 s = Some a \<Longrightarrow> addr_ok a"
proof -
  have "of_fields 256 fs < 2 ^ 32" if "parse4_fields 0 0 [] s = Some fs" for fs
    using parse4_fields_ok [OF that] of_fields_bound [of fs 256] by simp
  then show "parse_ipv4 s = Some a \<Longrightarrow> addr_ok a" by (auto simp: parse_ipv4_def addr_ok_def)
qed

lemma finish6_ok:
  assumes "finish6 z (parse6_loop 8 [] ell s) = Some a"
  shows "a \<noteq> IpInvalid \<and> addr_num a < 2 ^ bit_len a"
proof -
  obtain fs ell' where l: "parse6_loop 8 [] ell s = Some (fs, ell', [])"
    using assms by (auto simp: finish6_def split: option.splits if_splits)
  note ok = parse6_loop_ok [OF l]
  have full: "of_fields 65536 gs < 2 ^ 128" if "length gs = 8" "\<forall>f \<in> set gs. f < 65536" for gs
    using of_fields_bound [of gs 65536] that by simp
  have "length (expand_ellipsis fs e) = 8 \<and> (\<forall>f \<in> set (expand_ellipsis fs e). f < 65536)" for e
    using ok by (auto simp: expand_ellipsis_def dest: in_set_takeD in_set_dropD)
  then show ?thesis using assms l full ok by (auto simp: finish6_def split: if_splits)
qed

lemma parse_ipv6_ok: "parse_ipv6 s = Some a \<Longrightarrow> a \<noteq> IpInvalid \<and> addr_num a < 2 ^ bit_len a"
  using finish6_ok by (auto simp: parse_ipv6_def Let_def split: if_splits simp del: starts_with.simps)

lemma parse_addr_ok: "parse_addr s = Some a \<Longrightarrow> a \<noteq> IpInvalid \<and> addr_num a < 2 ^ bit_len a"
proof -
  have "parse_addr_kind w t = Some a \<Longrightarrow> a \<noteq> IpInvalid \<and> addr_num a < 2 ^ bit_len a" for w t
    using parse_ipv4_ok [of w a] parse_ipv6_ok [of w a]
    by (induction w t rule: parse_addr_kind.induct) (auto simp: addr_ok_def split: if_splits)
  then show "parse_addr s = Some a \<Longrightarrow> a \<noteq> IpInvalid \<and> addr_num a < 2 ^ bit_len a" by (simp add: parse_addr_def)
qed

lemma parse_prefix_ok: "parse_prefix s = Some p \<Longrightarrow> prefix_ok p"
  using parse_addr_ok
  by (auto simp: parse_prefix_def prefix_ok_def addr_ok_def parse_bits_def split: option.splits if_splits)

lemma mask_num_le: "mask_num w b n \<le> n"
  by (simp add: mask_num_def leading_def)

lemma mask_num_idem: "mask_num w b (mask_num w b n) = mask_num w b n"
  by (simp add: mask_num_def leading_def)

lemma masked_ok: "prefix_ok p \<Longrightarrow> prefix_ok (masked p)"
  using le_less_trans [OF mask_num_le]
  by (cases "pf_addr p") (auto simp: prefix_ok_def addr_ok_def)

lemma masked_idem: "masked (masked p) = masked p"
  by (cases "pf_addr p") (simp_all add: mask_num_idem)

lemma prefix_contains_masked: "prefix_contains (masked p) a = prefix_contains p a"
  by (cases "pf_addr p"; cases a) (auto simp: prefix_contains_def mask_num_def leading_def)

text \<open>The text of a prefix has no space to trim.\<close>

definition plain_char :: "char \<Rightarrow> bool" where
  "plain_char c \<longleftrightarrow> 33 \<le> (of_char c :: nat) \<and> (of_char c :: nat) < 127"

lemma strip_rune_none:
  "(\<And>r. r \<in> set rs \<Longrightarrow> r \<noteq> [] \<and> hd r \<notin> set s) \<Longrightarrow> strip_rune rs s = None"
proof (induction rs)
  case (Cons r rs)
  obtain c cs where r: "r = c # cs" using Cons.prems [of r] by (cases r) auto
  then have "take (length r) s \<noteq> r" using Cons.prems [of r] by (cases s) auto
  with Cons show ?case by simp
qed simp

lemma trim_plain: "(\<And>c. c \<in> set s \<Longrightarrow> plain_char c) \<Longrightarrow> trim_space s = s"
proof -
  have "list_all (\<lambda>r. r \<noteq> [] \<and> \<not> plain_char (hd r)) (space_runes @ map rev space_runes)" by code_simp
  then have "r \<noteq> [] \<and> \<not> plain_char (hd r)" if "r \<in> set space_runes \<union> rev ` set space_runes" for r
    using that by (auto simp: list_all_iff)
  moreover assume "\<And>c. c \<in> set s \<Longrightarrow> plain_char c"
  ultimately have "strip_rune space_runes s = None" "strip_rune (map rev space_runes) (rev s) = None"
    by (intro strip_rune_none; fastforce)+
  then show "trim_space s = s" by (cases s) (simp_all add: trim_space_def)
qed

lemma hex_plain_char: "hex_num c \<noteq> None \<Longrightarrow> plain_char c"
  by (auto simp: plain_char_def is_digit_def less_eq_char_def split: if_splits)

lemma digit_plain_char: "is_digit c \<Longrightarrow> plain_char c"
  by (auto simp: plain_char_def is_digit_def less_eq_char_def)

lemma join_set: "c \<in> set (join_with sep xs) \<Longrightarrow> c \<in> set sep \<or> (\<exists>x \<in> set xs. c \<in> set x)"
  by (induction sep xs rule: join_with.induct) auto

lemma plain_marks: "plain_char CHR ''.''" "plain_char CHR '':''" "plain_char CHR ''/''" "plain_char CHR ''f''"
  by code_simp+

lemma prefix_string_plain:
  assumes "prefix_ok p" and "c \<in> set (prefix_string p)"
  shows "plain_char c"
proof -
  have d: "plain_char c" if "c \<in> set (digits n)" for n using that digits_set digit_plain_char by blast
  have h: "plain_char c" if "c \<in> set (hex_join ns)" for ns
    using hex_join_set [OF that] hex_plain_char plain_marks by auto
  have s4: "plain_char c" if "c \<in> set (string4 n)" for n
    using that join_set [of c "''.''"] d plain_marks unfolding string4_def by fastforce
  have s6: "plain_char c" if "c \<in> set (string6 n)" for n
    using that h plain_marks by (auto simp: string6_def Let_def split: prod.splits if_splits)
  show ?thesis using assms d s4 s6 plain_marks
    by (cases "pf_addr p") (auto simp: prefix_string_def prefix_ok_def addr_ok_def split: if_splits)
qed

end
