(* ===== verification/Connection.thy ===== *)
theory Connection
  imports Sha256 Netip "HOL-Library.Code_Target_Nat"
begin

text \<open>
  The connection aggregate of \<open>control-plane/connection\<close>: \<open>model.go\<close> (identity, generations and the
  operations on a connection), \<open>test_policy.go\<close> (the egress policy a connection test runs under)
  and the validations of \<open>repository.go\<close>. Values are immutable, so \<open>Clone\<close> is the identity;
  \<open>uuid.Parse\<close> is the parameter \<open>uuid_ok\<close>.
\<close>

section \<open>Data\<close>

datatype conn_error =
    ConnNotFound
  | ConnAlreadyExists
  | ConnConflict
  | ConnInvalidTransition
  | ConnInUse
  | ConnIdempotencyReused
  | TestNotFound
  | TestLeaseLost
  | TestLimitExceeded
  | InvalidConnection string
  | ConnPanicNilMap
  | ConnPanicSlice

datatype conn_state = ConnDisabled | ConnActive | ConnStateOther string

datatype compatibility =
    CompatibilityCompatible | CompatibilityRevalidationRequired | CompatibilityConnectorUnavailable
  | CompatibilityOther string

datatype sensitivity = SensitivityPublic | SensitivityRestricted | SensitivityOther string

datatype provider_kind = ProviderNone | ProviderKubernetesSecretV1 | ProviderOther string

record setting =
  setting_key :: string
  setting_value :: string
  setting_sensitivity :: sensitivity

record secret_field_mapping =
  logical_field :: string
  secret_key :: string

record secret_locator =
  locator_provider :: provider_kind
  locator_secret_name :: string
  locator_secret_uid :: string
  locator_fields :: "secret_field_mapping list"

record generation =
  gen_number :: int
  gen_descriptor_revision :: string
  gen_schema_revision :: string
  gen_settings :: "setting list"
  gen_secret_locator :: secret_locator
  gen_created_at :: instant

record connection =
  conn_tenant_id :: string
  conn_name :: string
  conn_uid :: string
  conn_connector :: string
  conn_version :: int
  conn_state :: conn_state
  conn_display_name :: string
  conn_description :: string
  conn_current :: generation
  conn_created_at :: instant
  conn_updated_at :: instant

definition maximum_settings :: nat where
  "maximum_settings = 256"

definition maximum_setting_value :: nat where
  "maximum_setting_value = 64 * 1024"

definition maximum_description :: nat where
  "maximum_description = 2048"

definition maximum_display_name :: nat where
  "maximum_display_name = 256"

definition maximum_secret_mappings :: nat where
  "maximum_secret_mappings = 64"

section \<open>Validation\<close>

definition locator_validate :: "(string \<Rightarrow> bool) \<Rightarrow> secret_locator \<Rightarrow> conn_error option" where
  [validation_defs]: "locator_validate uuid_ok l =
     first_err
       [fail_if (locator_provider l \<noteq> ProviderKubernetesSecretV1 \<or> length (locator_secret_name l) = 0 \<or>
            length (locator_secret_name l) > 63 \<or> \<not> dns_label (locator_secret_name l))
          (InvalidConnection ''Kubernetes Secret locator is invalid''),
        fail_if (\<not> uuid_ok (locator_secret_uid l)) (InvalidConnection ''Kubernetes Secret UID must be a UUID''),
        fail_if (length (locator_fields l) = 0 \<or> length (locator_fields l) > maximum_secret_mappings)
          (InvalidConnection ''Secret field mapping count is invalid''),
        fail_if (\<not> strictly_after [] (map logical_field (locator_fields l)) \<or>
            \<not> list_all (\<lambda>f. option_name (logical_field f) \<and> length (secret_key f) \<noteq> 0 \<and>
                length (secret_key f) \<le> 253 \<and> \<not> contains_any (secret_key f) [CHR 0x0D, CHR 0x0A, CHR 0x00])
              (locator_fields l))
          (InvalidConnection ''Secret field mappings must be valid, unique, and ordered'')]"

definition generation_validate :: "(string \<Rightarrow> bool) \<Rightarrow> generation \<Rightarrow> conn_error option" where
  [validation_defs]: "generation_validate uuid_ok g =
     first_err
       [fail_if (gen_number g \<le> 0 \<or> \<not> sha256_revision (gen_descriptor_revision g) \<or>
            \<not> sha256_revision (gen_schema_revision g) \<or> is_zero (gen_created_at g))
          (InvalidConnection ''Connection generation identity is invalid''),
        fail_if (length (gen_settings g) > maximum_settings)
          (InvalidConnection ''Connection setting count exceeds the supported limit''),
        fail_if (\<not> strictly_after [] (map setting_key (gen_settings g)) \<or>
            \<not> list_all (\<lambda>s. option_name (setting_key s) \<and> length (setting_value s) \<le> maximum_setting_value \<and>
                (setting_sensitivity s = SensitivityPublic \<or> setting_sensitivity s = SensitivityRestricted))
              (gen_settings g))
          (InvalidConnection ''Connection settings must be bounded, unique, and ordered''),
        if locator_provider (gen_secret_locator g) \<noteq> ProviderNone
        then locator_validate uuid_ok (gen_secret_locator g) else None]"

definition connection_validate :: "(string \<Rightarrow> bool) \<Rightarrow> connection \<Rightarrow> conn_error option" where
  [validation_defs]: "connection_validate uuid_ok c =
     first_err
       [fail_if (\<not> uuid_ok (conn_tenant_id c)) (InvalidConnection ''tenant ID must be a UUID''),
        fail_if (length (conn_name c) = 0 \<or> length (conn_name c) > 63 \<or> \<not> dns_label (conn_name c))
          (InvalidConnection ''Connection name must be a lowercase DNS label''),
        fail_if (\<not> uuid_ok (conn_uid c)) (InvalidConnection ''Connection UID must be a UUID''),
        fail_if (length (conn_connector c) = 0 \<or> length (conn_connector c) > 128 \<or> \<not> connector_name (conn_connector c))
          (InvalidConnection ''connector name is invalid''),
        fail_if (conn_version c \<le> 0 \<or> gen_number (conn_current c) \<le> 0 \<or>
            (conn_state c \<noteq> ConnDisabled \<and> conn_state c \<noteq> ConnActive))
          (InvalidConnection ''Connection version, generation, or state is invalid''),
        fail_if (length (conn_display_name c) > maximum_display_name \<or> length (conn_description c) > maximum_description \<or>
            contains_any (conn_display_name c) [CHR 0x00] \<or> contains_any (conn_description c) [CHR 0x00])
          (InvalidConnection ''Connection display metadata exceeds supported bounds''),
        generation_validate uuid_ok (conn_current c),
        fail_if (is_zero (conn_created_at c) \<or> is_zero (conn_updated_at c) \<or> conn_updated_at c < conn_created_at c \<or>
            gen_created_at (conn_current c) < conn_created_at c \<or> gen_created_at (conn_current c) > conn_updated_at c)
          (InvalidConnection ''Connection timestamps are invalid'')]"

section \<open>Operations\<close>

definition new_connection ::
  "(string \<Rightarrow> bool) \<Rightarrow> string \<Rightarrow> string \<Rightarrow> string \<Rightarrow> string \<Rightarrow> string \<Rightarrow> string \<Rightarrow> generation \<Rightarrow> instant \<Rightarrow>
   conn_error + connection" where
  "new_connection uuid_ok tenant nm uid connector_nm display description g now =
     (let result = \<lparr>conn_tenant_id = tenant, conn_name = nm, conn_uid = uid, conn_connector = connector_nm,
        conn_version = 1, conn_state = ConnDisabled, conn_display_name = display, conn_description = description,
        conn_current = g, conn_created_at = now, conn_updated_at = now\<rparr>
      in case connection_validate uuid_ok result of Some e \<Rightarrow> Inl e | None \<Rightarrow> Inr result)"

definition equal_settings :: "setting list \<Rightarrow> setting list \<Rightarrow> bool" where
  "equal_settings left right \<longleftrightarrow> length left = length right \<and> list_all2 (=) left right"

definition equal_locator :: "secret_locator \<Rightarrow> secret_locator \<Rightarrow> bool" where
  "equal_locator left right \<longleftrightarrow>
     locator_provider left = locator_provider right \<and> locator_secret_name left = locator_secret_name right \<and>
     locator_secret_uid left = locator_secret_uid right \<and> length (locator_fields left) = length (locator_fields right) \<and>
     list_all2 (=) (locator_fields left) (locator_fields right)"

definition replace_connection ::
  "(string \<Rightarrow> bool) \<Rightarrow> connection \<Rightarrow> string \<Rightarrow> string \<Rightarrow> setting list \<Rightarrow> string \<Rightarrow> string \<Rightarrow> instant \<Rightarrow>
   conn_error + connection \<times> bool" where
  [effect_defs]: "replace_connection uuid_ok c display description settings descriptor_rev schema_rev now =
     (let renamed = c\<lparr>conn_display_name := display, conn_description := description\<rparr>;
          effective_changed = (\<not> equal_settings (gen_settings (conn_current c)) settings \<or>
            gen_descriptor_revision (conn_current c) \<noteq> descriptor_rev \<or>
            gen_schema_revision (conn_current c) \<noteq> schema_rev);
          metadata_changed = (conn_display_name c \<noteq> display \<or> conn_description c \<noteq> description)
      in if \<not> effective_changed \<and> \<not> metadata_changed then Inr (c, False)
         else if effective_changed \<and> conn_state c \<noteq> ConnDisabled then Inl ConnInvalidTransition
         else
           (let regenerated = (if effective_changed
                then renamed\<lparr>conn_current := \<lparr>gen_number = wrap64 (gen_number (conn_current c) + 1),
                  gen_descriptor_revision = descriptor_rev, gen_schema_revision = schema_rev, gen_settings = settings,
                  gen_secret_locator = gen_secret_locator (conn_current c), gen_created_at = now\<rparr>\<rparr>
                else renamed);
                next_conn = regenerated\<lparr>conn_version := wrap64 (conn_version c + 1), conn_updated_at := now\<rparr>
            in case connection_validate uuid_ok next_conn of Some e \<Rightarrow> Inl e | None \<Rightarrow> Inr (next_conn, True)))"

definition rotate_connection ::
  "(string \<Rightarrow> bool) \<Rightarrow> connection \<Rightarrow> secret_locator \<Rightarrow> string \<Rightarrow> string \<Rightarrow> instant \<Rightarrow> conn_error + connection" where
  [effect_defs]: "rotate_connection uuid_ok c locator descriptor_rev schema_rev now =
     (case locator_validate uuid_ok locator of
        Some e \<Rightarrow> Inl e
      | None \<Rightarrow>
          if equal_locator (gen_secret_locator (conn_current c)) locator then Inl ConnInvalidTransition
          else
            (let next_conn = c\<lparr>conn_version := wrap64 (conn_version c + 1),
                 conn_current := \<lparr>gen_number = wrap64 (gen_number (conn_current c) + 1),
                   gen_descriptor_revision = descriptor_rev, gen_schema_revision = schema_rev,
                   gen_settings = gen_settings (conn_current c), gen_secret_locator = locator, gen_created_at = now\<rparr>,
                 conn_updated_at := now\<rparr>
             in case connection_validate uuid_ok next_conn of Some e \<Rightarrow> Inl e | None \<Rightarrow> Inr next_conn))"

definition set_conn_state ::
  "(string \<Rightarrow> bool) \<Rightarrow> connection \<Rightarrow> conn_state \<Rightarrow> compatibility \<Rightarrow> instant \<Rightarrow> conn_error + connection \<times> bool" where
  [effect_defs]: "set_conn_state uuid_ok c target compatible now =
     (if target \<noteq> ConnDisabled \<and> target \<noteq> ConnActive then Inl ConnInvalidTransition
      else if conn_state c = target then Inr (c, False)
      else if target = ConnActive \<and> compatible \<noteq> CompatibilityCompatible then Inl ConnInvalidTransition
      else
        (let next_conn = c\<lparr>conn_state := target, conn_version := wrap64 (conn_version c + 1), conn_updated_at := now\<rparr>
         in case connection_validate uuid_ok next_conn of Some e \<Rightarrow> Inl e | None \<Rightarrow> Inr (next_conn, True)))"

definition sort_settings :: "setting list \<Rightarrow> setting list" where
  "sort_settings vs = sort_key setting_key vs"

section \<open>The egress policy of a test\<close>

record test_egress_policy =
  pol_revision :: string
  pol_allowed_cidrs :: "string list"

definition maximum_test_policy_cidrs :: nat where
  "maximum_test_policy_cidrs = 64"

text \<open>The loop that parses the blocks and keeps the first of each canonical text.\<close>

fun canonical_cidrs :: "string list \<Rightarrow> string list \<Rightarrow> string list option" where
  "canonical_cidrs seen [] = Some seen"
| "canonical_cidrs seen (v # vs) =
     (case parse_prefix (trim_space v) of
        None \<Rightarrow> None
      | Some p \<Rightarrow>
          (let t = prefix_string (masked p)
           in canonical_cidrs (if t \<in> set seen then seen else seen @ [t]) vs))"

definition policy_revision :: "string list \<Rightarrow> string" where
  "policy_revision canonical =
     ''sha256:'' @ sha256_hex (''astra-sync/test-egress-policy/v1'' @ [CHR 0x0A] @ join_with [CHR 0x0A] canonical)"

definition new_test_egress_policy :: "string list \<Rightarrow> conn_error + test_egress_policy" where
  "new_test_egress_policy allowed =
     (if length allowed > maximum_test_policy_cidrs
      then Inl (InvalidConnection ''Connection test egress policy exceeds supported bounds'')
      else case canonical_cidrs [] allowed of
        None \<Rightarrow> Inl (InvalidConnection ''Connection test egress policy contains an invalid CIDR'')
      | Some seen \<Rightarrow>
          (let canonical = sort seen
           in Inr \<lparr>pol_revision = policy_revision canonical, pol_allowed_cidrs = canonical\<rparr>))"

definition policy_validate :: "test_egress_policy \<Rightarrow> conn_error option" where
  "policy_validate p =
     (if \<not> sha256_revision (pol_revision p) \<or> length (pol_allowed_cidrs p) > maximum_test_policy_cidrs
      then Some (InvalidConnection ''Connection test egress policy is invalid'')
      else case new_test_egress_policy (pol_allowed_cidrs p) of
        Inl _ \<Rightarrow> Some (InvalidConnection ''Connection test egress policy is not canonical'')
      | Inr canonical \<Rightarrow>
          fail_if (pol_revision canonical \<noteq> pol_revision p \<or> pol_allowed_cidrs canonical \<noteq> pol_allowed_cidrs p)
            (InvalidConnection ''Connection test egress policy is not canonical''))"

definition default_test_egress_policy :: test_egress_policy where
  "default_test_egress_policy = projr (new_test_egress_policy [])"

section \<open>Tests of a connection\<close>

datatype test_state =
    TestQueued | TestRunning | TestSucceeded | TestFailed | TestTimedOut | TestCanceled | TestExpired
  | TestStateOther string

datatype test_phase =
    TestPhaseNone | TestPhasePolicy | TestPhaseDNS | TestPhaseTransport | TestPhaseTLS
  | TestPhaseAuthentication | TestPhaseHandshake | TestPhaseComplete | TestPhaseOther string

datatype test_result_code =
    TestResultNone | TestResultOK | TestResultPolicyDenied | TestResultSecretUnavailable | TestResultDNSFailed
  | TestResultTransportFailed | TestResultTLSFailed | TestResultAuthenticationFailed | TestResultHandshakeFailed
  | TestResultDeadlineExceeded | TestResultExecutorUnavailable | TestResultOther string

record test_operation =
  test_tenant_id :: string
  test_operation_id :: string
  test_connection_uid :: string
  test_generation :: int
  test_descriptor_revision :: string
  test_actor_id :: string
  test_egress :: test_egress_policy
  test_state :: test_state
  test_phase :: test_phase
  test_result_code :: test_result_code
  test_success :: bool
  test_remediation_key :: string
  test_created_at :: instant
  test_deadline_at :: instant
  test_started_at :: "instant option"
  test_completed_at :: "instant option"
  test_expires_at :: instant

record test_completion =
  tc_state :: test_state
  tc_phase :: test_phase
  tc_result_code :: test_result_code
  tc_success :: bool
  tc_remediation_key :: string

definition valid_running_test_phase :: "test_phase \<Rightarrow> bool" where
  "valid_running_test_phase p \<longleftrightarrow> p = TestPhasePolicy \<or> p = TestPhaseDNS \<or> p = TestPhaseTransport \<or> p = TestPhaseTLS \<or>
     p = TestPhaseAuthentication \<or> p = TestPhaseHandshake"

definition valid_test_phase :: "test_phase \<Rightarrow> bool" where
  "valid_test_phase p \<longleftrightarrow> valid_running_test_phase p \<or> p = TestPhaseComplete"

fun valid_test_result_code :: "test_result_code \<Rightarrow> bool" where
  "valid_test_result_code TestResultNone = False"
| "valid_test_result_code (TestResultOther _) = False"
| "valid_test_result_code _ = True"

definition completion_validate :: "test_completion \<Rightarrow> conn_error option" where
  [validation_defs]: "completion_validate c =
     first_err
       [fail_if (tc_state c \<noteq> TestSucceeded \<and> tc_state c \<noteq> TestFailed \<and> tc_state c \<noteq> TestTimedOut \<and> tc_state c \<noteq> TestCanceled)
          (InvalidConnection ''Connection test completion state is invalid''),
        fail_if (\<not> valid_test_phase (tc_phase c) \<or> \<not> valid_test_result_code (tc_result_code c) \<or>
            length (tc_remediation_key c) > 128 \<or> contains_any (tc_remediation_key c) [CHR 0x00, CHR 0x0D, CHR 0x0A])
          (InvalidConnection ''Connection test completion result is invalid''),
        (if tc_state c = TestSucceeded
         then fail_if (\<not> tc_success c \<or> tc_phase c \<noteq> TestPhaseComplete \<or> tc_result_code c \<noteq> TestResultOK \<or>
             tc_remediation_key c \<noteq> []) (InvalidConnection ''successful Connection test completion is inconsistent'')
         else fail_if (tc_success c \<or> tc_result_code c = TestResultOK)
             (InvalidConnection ''failed Connection test completion is inconsistent'')),
        fail_if (tc_state c = TestTimedOut \<and> tc_result_code c \<noteq> TestResultDeadlineExceeded)
          (InvalidConnection ''timed out Connection test completion is inconsistent'')]"

definition no_test_result :: "test_operation \<Rightarrow> bool" where
  "no_test_result t \<longleftrightarrow> test_result_code t = TestResultNone \<and> \<not> test_success t \<and> test_remediation_key t = []"

definition completed_after_start :: "test_operation \<Rightarrow> bool" where
  "completed_after_start t \<longleftrightarrow>
     (case (test_started_at t, test_completed_at t) of (Some s, Some c) \<Rightarrow> \<not> c < s | _ \<Rightarrow> False)"

definition test_as_completion :: "test_operation \<Rightarrow> test_completion" where
  "test_as_completion t = \<lparr>tc_state = test_state t, tc_phase = test_phase t, tc_result_code = test_result_code t,
     tc_success = test_success t, tc_remediation_key = test_remediation_key t\<rparr>"

definition terminal_test_validate :: "test_operation \<Rightarrow> conn_error option" where
  "terminal_test_validate t =
     first_err
       [fail_if (\<not> completed_after_start t) (InvalidConnection ''terminal Connection test timestamps are inconsistent''),
        completion_validate (test_as_completion t)]"

fun test_state_validate :: "test_operation \<Rightarrow> conn_error option" where
  "test_state_validate t =
     (case test_state t of
        TestQueued \<Rightarrow>
          fail_if (test_phase t \<noteq> TestPhaseNone \<or> \<not> no_test_result t \<or> test_started_at t \<noteq> None \<or> test_completed_at t \<noteq> None)
            (InvalidConnection ''queued Connection test state is inconsistent'')
      | TestRunning \<Rightarrow>
          fail_if (\<not> valid_running_test_phase (test_phase t) \<or> \<not> no_test_result t \<or> test_started_at t = None \<or>
              test_completed_at t \<noteq> None)
            (InvalidConnection ''running Connection test state is inconsistent'')
      | TestSucceeded \<Rightarrow> terminal_test_validate t
      | TestFailed \<Rightarrow> terminal_test_validate t
      | TestTimedOut \<Rightarrow> terminal_test_validate t
      | TestCanceled \<Rightarrow> terminal_test_validate t
      | TestExpired \<Rightarrow>
          fail_if (test_phase t \<noteq> TestPhaseNone \<or> \<not> no_test_result t \<or> \<not> completed_after_start t)
            (InvalidConnection ''expired Connection test state is inconsistent'')
      | TestStateOther _ \<Rightarrow> Some (InvalidConnection ''Connection test state is invalid''))"

definition test_validate :: "(string \<Rightarrow> bool) \<Rightarrow> test_operation \<Rightarrow> conn_error option" where
  [validation_defs]: "test_validate uuid_ok t =
     first_err
       [fail_if (\<not> uuid_ok (test_tenant_id t)) (InvalidConnection ''test tenant ID must be a UUID''),
        fail_if (\<not> uuid_ok (test_operation_id t)) (InvalidConnection ''test operation ID must be a UUID''),
        fail_if (\<not> uuid_ok (test_connection_uid t) \<or> test_generation t \<le> 0 \<or>
            \<not> sha256_revision (test_descriptor_revision t) \<or> is_zero (test_created_at t) \<or>
            blank (test_actor_id t) \<or> length (test_actor_id t) > 256 \<or> is_zero (test_deadline_at t) \<or>
            \<not> test_deadline_at t > test_created_at t \<or> \<not> test_expires_at t > test_deadline_at t)
          (InvalidConnection ''Connection test identity is invalid''),
        policy_validate (test_egress t),
        test_state_validate t]"

record generation_snapshot =
  snap_tenant_id :: string
  snap_tenant_namespace :: string
  snap_connection_uid :: string
  snap_connector :: string
  snap_generation :: generation

definition snapshot_validate :: "(string \<Rightarrow> bool) \<Rightarrow> generation_snapshot \<Rightarrow> conn_error option" where
  "snapshot_validate uuid_ok s =
     first_err
       [fail_if (\<not> uuid_ok (snap_tenant_id s)) (InvalidConnection ''test generation tenant ID must be a UUID''),
        fail_if (blank (snap_tenant_namespace s) \<or> length (snap_tenant_namespace s) > 63)
          (InvalidConnection ''test generation tenant namespace is invalid''),
        fail_if (\<not> uuid_ok (snap_connection_uid s) \<or> \<not> connector_name (snap_connector s) \<or>
            gen_number (snap_generation s) \<le> 0)
          (InvalidConnection ''test generation Connection identity is invalid''),
        generation_validate uuid_ok (snap_generation s)]"

record test_work =
  tw_operation :: test_operation
  tw_generation :: generation_snapshot
  tw_executor_id :: string
  tw_attempt :: int
  tw_lease_expires_at :: instant

definition maximum_test_executor_id :: nat where
  "maximum_test_executor_id = 128"

definition work_validate :: "(string \<Rightarrow> bool) \<Rightarrow> test_work \<Rightarrow> conn_error option" where
  "work_validate uuid_ok w =
     first_err
       [fail_if (test_validate uuid_ok (tw_operation w) \<noteq> None \<or> test_state (tw_operation w) \<noteq> TestRunning)
          (InvalidConnection ''claimed Connection test operation is invalid''),
        fail_if (snapshot_validate uuid_ok (tw_generation w) \<noteq> None \<or>
            snap_tenant_id (tw_generation w) \<noteq> test_tenant_id (tw_operation w) \<or>
            snap_connection_uid (tw_generation w) \<noteq> test_connection_uid (tw_operation w) \<or>
            gen_number (snap_generation (tw_generation w)) \<noteq> test_generation (tw_operation w) \<or>
            gen_descriptor_revision (snap_generation (tw_generation w)) \<noteq> test_descriptor_revision (tw_operation w))
          (InvalidConnection ''claimed Connection test generation is invalid''),
        fail_if (blank (tw_executor_id w) \<or> length (tw_executor_id w) > maximum_test_executor_id \<or>
            tw_attempt w \<le> 0 \<or> is_zero (tw_lease_expires_at w))
          (InvalidConnection ''claimed Connection test lease is invalid'')]"

section \<open>A policy is canonical\<close>

lemma hex_digit_is_hex: "d < 16 \<Longrightarrow> is_hex (hex_digit d)"
  using hex_num_digit [of d] digit_of_char [of d]
  by (cases "d < 10") (auto simp: is_hex_def hex_digit_def split: if_splits)

lemma sha256_hex_shape: "length (sha256_hex m) = 64 \<and> list_all is_hex (sha256_hex m)"
proof -
  have "length (hex32 w) = 8 \<and> list_all is_hex (hex32 w)" for w
    by (simp add: hex32_def list_all_iff hex_digit_is_hex)
  then show ?thesis by (simp add: sha256_hex_def Let_def split: prod.split)
qed

lemma sha256_revision_sum: "sha256_revision (''sha256:'' @ sha256_hex m)"
  using sha256_hex_shape [of m] by (simp add: sha256_revision_def)

lemma policy_revision_ok: "sha256_revision (policy_revision ts)"
  unfolding policy_revision_def by (rule sha256_revision_sum)

definition canonical_cidr :: "string \<Rightarrow> bool" where
  "canonical_cidr t \<longleftrightarrow> (\<exists>p. prefix_ok p \<and> masked p = p \<and> t = prefix_string p)"

lemma canonical_cidr_parse:
  "canonical_cidr t \<Longrightarrow> \<exists>p. parse_prefix (trim_space t) = Some p \<and> prefix_string (masked p) = t"
  using parse_prefix_string prefix_string_plain trim_plain
  by (fastforce simp: canonical_cidr_def simp del: masked.simps)

lemma canonical_cidrs_sound:
  "canonical_cidrs seen vs = Some ts \<Longrightarrow> distinct seen \<Longrightarrow> (\<And>t. t \<in> set seen \<Longrightarrow> canonical_cidr t) \<Longrightarrow>
   distinct ts \<and> (\<forall>t \<in> set ts. canonical_cidr t) \<and> length ts \<le> length seen + length vs"
proof (induction seen vs rule: canonical_cidrs.induct)
  case (2 seen v vs)
  obtain p where p: "parse_prefix (trim_space v) = Some p" using 2(2) by (auto split: option.splits)
  let ?t = "prefix_string (masked p)"
  have "canonical_cidr ?t"
    unfolding canonical_cidr_def using parse_prefix_ok [OF p] masked_ok masked_idem by blast
  then have "\<And>t. t \<in> set (if ?t \<in> set seen then seen else seen @ [?t]) \<Longrightarrow> canonical_cidr t"
    and "distinct (if ?t \<in> set seen then seen else seen @ [?t])"
    using 2(3,4) by (auto simp del: masked.simps split: if_splits)
  moreover have "canonical_cidrs (if ?t \<in> set seen then seen else seen @ [?t]) vs = Some ts"
    using 2(2) p by (simp add: Let_def del: masked.simps)
  ultimately show ?case using 2(1) [OF p refl] by (auto simp del: masked.simps split: if_splits)
qed simp

lemma canonical_cidrs_fixed:
  "(\<And>t. t \<in> set ts \<Longrightarrow> canonical_cidr t) \<Longrightarrow> distinct (seen @ ts) \<Longrightarrow> canonical_cidrs seen ts = Some (seen @ ts)"
proof (induction ts arbitrary: seen)
  case (Cons t ts)
  obtain p where "parse_prefix (trim_space t) = Some p" "prefix_string (masked p) = t"
    using canonical_cidr_parse Cons.prems(1) by (meson list.set_intros(1))
  with Cons show ?case by (simp del: masked.simps)
qed simp

text \<open>
  C26. An egress policy that \<open>NewTestEgressPolicy\<close> builds passes \<open>Validate\<close>, for every list of
  blocks it accepts: each block is masked and written in the canonical text of \<open>netip\<close>, IPv6 with
  its zero run and the IPv4-mapped form included, and that text parses back to the same block, so
  canonicalising the stored list again gives the same list and the same revision.
\<close>

theorem new_policy_validates:
  assumes "new_test_egress_policy allowed = Inr p"
  shows "policy_validate p = None"
proof -
  obtain seen where seen: "canonical_cidrs [] allowed = Some seen" "length allowed \<le> maximum_test_policy_cidrs"
    and p: "p = \<lparr>pol_revision = policy_revision (sort seen), pol_allowed_cidrs = sort seen\<rparr>"
    using assms by (auto simp: new_test_egress_policy_def Let_def split: if_splits option.splits)
  have ok: "distinct seen" "\<forall>t \<in> set seen. canonical_cidr t" "length seen \<le> length allowed"
    using canonical_cidrs_sound [OF seen(1)] by auto
  then have "canonical_cidrs [] (sort seen) = Some (sort seen)"
    using canonical_cidrs_fixed [of "sort seen" "[]"] by simp
  moreover have "sort (sort seen) = sort seen" by (simp add: sorted_sort_id)
  ultimately show ?thesis
    using seen(2) ok(3) by (simp add: p policy_validate_def new_test_egress_policy_def policy_revision_ok Let_def)
qed

definition sample_cidrs :: "string list" where
  "sample_cidrs = ['' 192.168.7.9/24 '', ''10.1.2.3/8'', ''10.9.9.9/8'']"

theorem new_policy_validates_witness:
  "\<exists>p. new_test_egress_policy sample_cidrs = Inr p \<and> policy_validate p = None \<and>
     pol_allowed_cidrs p = [''10.0.0.0/8'', ''192.168.7.0/24'']"
proof -
  have "map_option sort (canonical_cidrs [] sample_cidrs) = Some [''10.0.0.0/8'', ''192.168.7.0/24'']"
    by code_simp
  moreover have "length sample_cidrs \<le> maximum_test_policy_cidrs" by code_simp
  ultimately obtain p where "new_test_egress_policy sample_cidrs = Inr p"
    and "pol_allowed_cidrs p = [''10.0.0.0/8'', ''192.168.7.0/24'']"
    by (auto simp: new_test_egress_policy_def Let_def)
  with new_policy_validates show ?thesis by blast
qed

end
