(* ===== verification/ConnectionRepository.thy ===== *)
theory ConnectionRepository
  imports Connection "HOL-Library.Product_Lexorder"
begin

text \<open>
  The connection repository: the requests of \<open>control-plane/connection/repository.go\<close> and the
  in-memory implementation of \<open>control-plane/connection/memory/repository.go\<close>. Every method holds
  the mutex throughout, so a method is one step on \<open>conn_repo\<close>. A write into a map that is absent
  and a slice out of range are the panics \<open>ConnPanicNilMap\<close> and \<open>ConnPanicSlice\<close>.
\<close>

section \<open>Requests and results\<close>

datatype mutation_kind =
    MutationCreate | MutationUpdate | MutationRotate | MutationEnable | MutationDisable | MutationDelete
  | MutationTest | MutationOther string

record mutation_identity =
  mi_actor_id :: string
  mi_method :: string
  mi_key_fingerprint :: string
  mi_request_digest :: string
  mi_request_id :: string
  mi_audit_event_id :: string
  mi_occurred_at :: instant

definition identity_check :: "mutation_identity \<Rightarrow> conn_error option" where
  "identity_check i =
     fail_if (blank (mi_actor_id i) \<or> length (mi_actor_id i) > 256 \<or> blank (mi_method i) \<or> length (mi_method i) > 256 \<or>
         \<not> sha256_revision (mi_key_fingerprint i) \<or> \<not> sha256_revision (mi_request_digest i) \<or>
         blank (mi_request_id i) \<or> length (mi_request_id i) > 128 \<or>
         blank (mi_audit_event_id i) \<or> length (mi_audit_event_id i) > 128 \<or> is_zero (mi_occurred_at i))
       (InvalidConnection ''Connection mutation identity is invalid'')"

text \<open>A value of an audit attribute; a caller may put any value there.\<close>

datatype audit_value = AuditText string | AuditNumber int | AuditOther string

record conn_mutation =
  cm_kind :: mutation_kind
  cm_tenant_id :: string
  cm_name :: string
  cm_expected_version :: int
  cm_candidate :: "connection option"
  cm_test :: "test_operation option"
  cm_identity :: mutation_identity
  cm_attributes :: "(string, audit_value) gomap"

datatype mutation_outcome = OutcomeChanged | OutcomeNoChange | OutcomeReplayed

record conn_tombstone =
  tomb_tenant_id :: string
  tomb_name :: string
  tomb_uid :: string
  tomb_deleted_at :: instant

record conn_mutation_result =
  cmr_connection :: "connection option"
  cmr_test :: "test_operation option"
  cmr_tombstone :: "conn_tombstone option"
  cmr_outcome :: mutation_outcome

record conn_list_filter =
  lf_connector :: string
  lf_state :: "conn_state option"
  lf_after_name :: string
  lf_after_uid :: string
  lf_limit :: int

record conn_list_result =
  lr_connections :: "connection list"
  lr_revision :: string
  lr_has_more :: bool

record reference_counts =
  rf_jobs :: int
  rf_executions :: int
  rf_tests :: int
  rf_cleanup :: int

section \<open>The state\<close>

record idempotency_result =
  ir_digest :: string
  ir_result :: conn_mutation_result

record conn_audit_event =
  ae_tenant_id :: string
  ae_action :: string
  ae_actor_id :: string
  ae_request_id :: string
  ae_outcome :: mutation_outcome
  ae_attributes :: "(string, audit_value) gomap"

record test_claim =
  tcl_executor_id :: string
  tcl_attempt :: int
  tcl_lease_expires_at :: instant

record conn_repo =
  cr_connections :: "(string, connection) gomap"
  cr_uid_index :: "(string, string) gomap"
  cr_tests :: "(string, test_operation) gomap"
  cr_generations :: "(string, (int, generation) gomap) gomap"
  cr_claims :: "(string, test_claim) gomap"
  cr_idempotency :: "(string, idempotency_result) gomap"
  cr_references :: "(string, reference_counts) gomap"
  cr_audits :: "conn_audit_event list"
  cr_revision :: int

definition new_conn_repo :: conn_repo where
  "new_conn_repo = \<lparr>cr_connections = [], cr_uid_index = [], cr_tests = [], cr_generations = [], cr_claims = [],
     cr_idempotency = [], cr_references = [], cr_audits = [], cr_revision = 0\<rparr>"

definition resource_key :: "string \<Rightarrow> string \<Rightarrow> string" where
  "resource_key tenant nm = tenant @ [CHR 0x00] @ nm"

definition bump_revision :: "conn_repo \<Rightarrow> conn_repo" where
  "bump_revision r = r\<lparr>cr_revision := (cr_revision r + 1) mod 2 ^ 64\<rparr>"

definition revision_string :: "int \<Rightarrow> string" where
  "revision_string v = ''sha256:'' @ sha256_hex (''connection-list:'' @ dec_int v)"

section \<open>Reading\<close>

definition conn_get :: "conn_repo \<Rightarrow> string \<Rightarrow> string \<Rightarrow> conn_error + connection" where
  "conn_get r tenant nm =
     (case gget (cr_connections r) (resource_key tenant nm) of None \<Rightarrow> Inl ConnNotFound | Some c \<Rightarrow> Inr c)"

definition conn_get_by_uid :: "conn_repo \<Rightarrow> string \<Rightarrow> string \<Rightarrow> conn_error + connection" where
  "conn_get_by_uid r tenant uid =
     (case gget (cr_uid_index r) uid of
        None \<Rightarrow> Inl ConnNotFound
      | Some k \<Rightarrow>
         (case gget (cr_connections r) k of
            None \<Rightarrow> Inl ConnNotFound
          | Some c \<Rightarrow> if conn_tenant_id c \<noteq> tenant then Inl ConnNotFound else Inr c))"

definition list_selects :: "string \<Rightarrow> conn_list_filter \<Rightarrow> connection \<Rightarrow> bool" where
  "list_selects tenant f c \<longleftrightarrow>
     conn_tenant_id c = tenant \<and> (lf_connector f = [] \<or> conn_connector c = lf_connector f) \<and>
     opt_all (\<lambda>s. conn_state c = s) (lf_state f) \<and>
     \<not> (conn_name c < lf_after_name f \<or> conn_name c = lf_after_name f \<and> conn_uid c \<le> lf_after_uid f)"

definition conn_list :: "conn_repo \<Rightarrow> string \<Rightarrow> conn_list_filter \<Rightarrow> conn_error + conn_list_result" where
  "conn_list r tenant f =
     (if lf_limit f \<le> 0 \<or> lf_limit f > 101 then Inl (InvalidConnection ''Connection list limit is invalid'')
      else
        (let vs = sort_key (\<lambda>c. (conn_name c, conn_uid c))
               (filter (list_selects tenant f) (map snd (cr_connections r)));
             has_more = (int (length vs) > lf_limit f)
         in Inr \<lparr>lr_connections = (if has_more then take (nat (lf_limit f)) vs else vs),
                 lr_revision = revision_string (cr_revision r), lr_has_more = has_more\<rparr>))"

definition test_active :: "test_operation \<Rightarrow> bool" where
  "test_active t \<longleftrightarrow> test_state t = TestQueued \<or> test_state t = TestRunning"

definition no_references :: reference_counts where
  "no_references = \<lparr>rf_jobs = 0, rf_executions = 0, rf_tests = 0, rf_cleanup = 0\<rparr>"

definition references_of :: "conn_repo \<Rightarrow> string \<Rightarrow> reference_counts" where
  "references_of r uid = (case gget (cr_references r) uid of None \<Rightarrow> no_references | Some c \<Rightarrow> c)"

definition conn_reference_counts :: "conn_repo \<Rightarrow> string \<Rightarrow> conn_error + reference_counts" where
  "conn_reference_counts r uid =
     (case gget (cr_uid_index r) uid of
        None \<Rightarrow> Inl ConnNotFound
      | Some _ \<Rightarrow>
          Inr (foldl (\<lambda>c (_, t). if test_connection_uid t = uid \<and> test_active t
                                 then c\<lparr>rf_tests := wrap32 (rf_tests c + 1)\<rparr> else c)
                 (references_of r uid) (cr_tests r)))"

definition get_test :: "conn_repo \<Rightarrow> string \<Rightarrow> string \<Rightarrow> conn_error + test_operation" where
  "get_test r tenant op_id =
     (case gget (cr_tests r) op_id of
        None \<Rightarrow> Inl TestNotFound
      | Some t \<Rightarrow> if test_tenant_id t \<noteq> tenant then Inl TestNotFound else Inr t)"

definition latest_test :: "conn_repo \<Rightarrow> string \<Rightarrow> conn_error + test_operation" where
  "latest_test r uid =
     (case foldl (\<lambda>latest (_, t).
             if test_connection_uid t = uid \<and> opt_all (\<lambda>l. test_created_at t > test_created_at l) latest
             then Some t else latest) None (cr_tests r) of
        None \<Rightarrow> Inl TestNotFound
      | Some t \<Rightarrow> Inr t)"

section \<open>Mutations\<close>

definition maximum_tenant_active_tests :: nat where
  "maximum_tenant_active_tests = 8"

definition maximum_actor_active_tests :: nat where
  "maximum_actor_active_tests = 2"

definition maximum_connection_active_test :: nat where
  "maximum_connection_active_test = 1"

definition maximum_tenant_daily_tests :: nat where
  "maximum_tenant_daily_tests = 100"

definition count_tests :: "(test_operation \<Rightarrow> bool) \<Rightarrow> conn_repo \<Rightarrow> nat" where
  "count_tests P r = length (filter (\<lambda>(_, t). P t) (cr_tests r))"

definition test_limit_exceeded :: "conn_repo \<Rightarrow> test_operation \<Rightarrow> bool" where
  "test_limit_exceeded r cand =
     (let window_start = test_created_at cand - 24 * 3600 * 10 ^ 9;
          tenant = (\<lambda>t. test_tenant_id t = test_tenant_id cand)
      in count_tests (\<lambda>t. tenant t \<and> test_active t) r \<ge> maximum_tenant_active_tests \<or>
         count_tests (\<lambda>t. tenant t \<and> test_active t \<and> test_actor_id t = test_actor_id cand) r \<ge> maximum_actor_active_tests \<or>
         count_tests (\<lambda>t. tenant t \<and> test_active t \<and> test_connection_uid t = test_connection_uid cand) r
           \<ge> maximum_connection_active_test \<or>
         count_tests (\<lambda>t. tenant t \<and> \<not> test_created_at t < window_start) r \<ge> maximum_tenant_daily_tests)"

definition has_active_test :: "conn_repo \<Rightarrow> string \<Rightarrow> bool" where
  "has_active_test r uid \<longleftrightarrow> list_ex (\<lambda>(_, t). test_connection_uid t = uid \<and> test_active t) (cr_tests r)"

definition zero_references :: "reference_counts \<Rightarrow> bool" where
  "zero_references c \<longleftrightarrow> rf_jobs c = 0 \<and> rf_executions c = 0 \<and> rf_tests c = 0 \<and> rf_cleanup c = 0"

definition conn_changed :: "connection \<Rightarrow> mutation_outcome \<Rightarrow> conn_mutation_result" where
  "conn_changed c out = \<lparr>cmr_connection = Some c, cmr_test = None, cmr_tombstone = None, cmr_outcome = out\<rparr>"

definition apply_create ::
  "(string \<Rightarrow> bool) \<Rightarrow> conn_repo \<Rightarrow> conn_mutation \<Rightarrow> (conn_error + conn_mutation_result) \<times> conn_repo" where
  [effect_defs]: "apply_create uuid_ok r m =
     (let k = resource_key (cm_tenant_id m) (cm_name m) in
      if gget (cr_connections r) k \<noteq> None then (Inl ConnAlreadyExists, r)
      else case cm_candidate m of
        None \<Rightarrow> (Inl (InvalidConnection ''create candidate identity is invalid''), r)
      | Some c \<Rightarrow>
          if conn_tenant_id c \<noteq> cm_tenant_id m \<or> conn_name c \<noteq> cm_name m
          then (Inl (InvalidConnection ''create candidate identity is invalid''), r)
          else case connection_validate uuid_ok c of
            Some e \<Rightarrow> (Inl e, r)
          | None \<Rightarrow> (Inr (conn_changed c OutcomeChanged),
              r\<lparr>cr_connections := gput k c (cr_connections r), cr_uid_index := gput (conn_uid c) k (cr_uid_index r),
                cr_generations := gput (conn_uid c) [(gen_number (conn_current c), conn_current c)] (cr_generations r)\<rparr>))"

definition apply_change ::
  "(string \<Rightarrow> bool) \<Rightarrow> conn_repo \<Rightarrow> conn_mutation \<Rightarrow> (conn_error + conn_mutation_result) \<times> conn_repo" where
  [effect_defs]: "apply_change uuid_ok r m =
     (let k = resource_key (cm_tenant_id m) (cm_name m) in
      case gget (cr_connections r) k of
        None \<Rightarrow> (Inl ConnNotFound, r)
      | Some current \<Rightarrow>
          if cm_expected_version m \<le> 0 \<or> conn_version current \<noteq> cm_expected_version m then (Inl ConnConflict, r)
          else case cm_candidate m of
            None \<Rightarrow> (Inl (InvalidConnection ''mutation candidate is required''), r)
          | Some c \<Rightarrow>
              if conn_uid c \<noteq> conn_uid current \<or> conn_tenant_id c \<noteq> conn_tenant_id current \<or>
                 conn_name c \<noteq> conn_name current \<or> conn_connector c \<noteq> conn_connector current \<or>
                 (conn_version c \<noteq> conn_version current \<and> conn_version c \<noteq> wrap64 (conn_version current + 1)) \<or>
                 (gen_number (conn_current c) \<noteq> gen_number (conn_current current) \<and>
                  gen_number (conn_current c) \<noteq> wrap64 (gen_number (conn_current current) + 1))
              then (Inl ConnConflict, r)
              else case connection_validate uuid_ok c of
                Some e \<Rightarrow> (Inl e, r)
              | None \<Rightarrow>
                  (let out = (if conn_version c = conn_version current then OutcomeNoChange else OutcomeChanged);
                       stored = r\<lparr>cr_connections := gput k c (cr_connections r)\<rparr>
                   in if gen_number (conn_current c) = gen_number (conn_current current)
                      then (Inr (conn_changed c out), stored)
                      else case gget (cr_generations r) (conn_uid current) of
                        None \<Rightarrow> (Inl ConnPanicNilMap, stored)
                      | Some gens \<Rightarrow> (Inr (conn_changed c out),
                          stored\<lparr>cr_generations := gput (conn_uid current)
                            (gput (gen_number (conn_current c)) (conn_current c) gens) (cr_generations r)\<rparr>)))"

definition apply_delete ::
  "conn_repo \<Rightarrow> conn_mutation \<Rightarrow> (conn_error + conn_mutation_result) \<times> conn_repo" where
  [effect_defs]: "apply_delete r m =
     (let k = resource_key (cm_tenant_id m) (cm_name m) in
      case gget (cr_connections r) k of
        None \<Rightarrow> (Inl ConnNotFound, r)
      | Some current \<Rightarrow>
          if cm_expected_version m \<le> 0 \<or> conn_version current \<noteq> cm_expected_version m then (Inl ConnConflict, r)
          else if conn_state current \<noteq> ConnDisabled \<or> \<not> zero_references (references_of r (conn_uid current)) \<or>
                  has_active_test r (conn_uid current)
          then (Inl ConnInUse, r)
          else (Inr \<lparr>cmr_connection = None, cmr_test = None,
                  cmr_tombstone = Some \<lparr>tomb_tenant_id = conn_tenant_id current, tomb_name = conn_name current,
                    tomb_uid = conn_uid current, tomb_deleted_at = mi_occurred_at (cm_identity m)\<rparr>,
                  cmr_outcome = OutcomeChanged\<rparr>,
                r\<lparr>cr_connections := gdel k (cr_connections r), cr_uid_index := gdel (conn_uid current) (cr_uid_index r),
                  cr_references := gdel (conn_uid current) (cr_references r),
                  cr_generations := gdel (conn_uid current) (cr_generations r)\<rparr>))"

definition apply_test ::
  "(string \<Rightarrow> bool) \<Rightarrow> conn_repo \<Rightarrow> conn_mutation \<Rightarrow> (conn_error + conn_mutation_result) \<times> conn_repo" where
  [effect_defs]: "apply_test uuid_ok r m =
     (case gget (cr_connections r) (resource_key (cm_tenant_id m) (cm_name m)) of
        None \<Rightarrow> (Inl ConnNotFound, r)
      | Some current \<Rightarrow>
          if cm_expected_version m \<le> 0 \<or> conn_version current \<noteq> cm_expected_version m then (Inl ConnConflict, r)
          else case cm_test m of
            None \<Rightarrow> (Inl (InvalidConnection ''test operation is required''), r)
          | Some t \<Rightarrow>
              if test_validate uuid_ok t \<noteq> None \<or> test_connection_uid t \<noteq> conn_uid current \<or>
                 test_generation t \<noteq> gen_number (conn_current current) \<or> test_actor_id t \<noteq> mi_actor_id (cm_identity m)
              then (Inl (InvalidConnection ''test operation does not match current Connection generation''), r)
              else if test_limit_exceeded r t then (Inl TestLimitExceeded, r)
              else (Inr \<lparr>cmr_connection = None, cmr_test = Some t, cmr_tombstone = None, cmr_outcome = OutcomeChanged\<rparr>,
                    r\<lparr>cr_tests := gput (test_operation_id t) t (cr_tests r)\<rparr>))"

definition apply_locked ::
  "(string \<Rightarrow> bool) \<Rightarrow> conn_repo \<Rightarrow> conn_mutation \<Rightarrow> (conn_error + conn_mutation_result) \<times> conn_repo" where
  "apply_locked uuid_ok r m =
     (case cm_kind m of
        MutationCreate \<Rightarrow> apply_create uuid_ok r m
      | MutationUpdate \<Rightarrow> apply_change uuid_ok r m
      | MutationRotate \<Rightarrow> apply_change uuid_ok r m
      | MutationEnable \<Rightarrow> apply_change uuid_ok r m
      | MutationDisable \<Rightarrow> apply_change uuid_ok r m
      | MutationDelete \<Rightarrow> apply_delete r m
      | MutationTest \<Rightarrow> apply_test uuid_ok r m
      | MutationOther _ \<Rightarrow> (Inl (InvalidConnection ''unsupported Connection mutation''), r))"

fun kind_text :: "mutation_kind \<Rightarrow> string" where
  "kind_text MutationCreate = ''CREATE''"
| "kind_text MutationUpdate = ''UPDATE''"
| "kind_text MutationRotate = ''ROTATE''"
| "kind_text MutationEnable = ''ENABLE''"
| "kind_text MutationDisable = ''DISABLE''"
| "kind_text MutationDelete = ''DELETE''"
| "kind_text MutationTest = ''TEST''"
| "kind_text (MutationOther s) = s"

definition idempotency_key :: "conn_mutation \<Rightarrow> string" where
  "idempotency_key m = cm_tenant_id m @ [CHR 0x00] @ mi_actor_id (cm_identity m) @ [CHR 0x00] @
     mi_method (cm_identity m) @ [CHR 0x00] @ mi_key_fingerprint (cm_identity m)"

definition mutation_audit :: "conn_mutation \<Rightarrow> conn_mutation_result \<Rightarrow> conn_audit_event" where
  "mutation_audit m result = \<lparr>ae_tenant_id = cm_tenant_id m, ae_action = kind_text (cm_kind m),
     ae_actor_id = mi_actor_id (cm_identity m), ae_request_id = mi_request_id (cm_identity m),
     ae_outcome = cmr_outcome result, ae_attributes = cm_attributes m\<rparr>"

definition conn_apply ::
  "(string \<Rightarrow> bool) \<Rightarrow> conn_repo \<Rightarrow> conn_mutation \<Rightarrow> (conn_error + conn_mutation_result) \<times> conn_repo" where
  [effect_defs]: "conn_apply uuid_ok r m =
     (case identity_check (cm_identity m) of
        Some e \<Rightarrow> (Inl e, r)
      | None \<Rightarrow>
         (case gget (cr_idempotency r) (idempotency_key m) of
            Some existing \<Rightarrow>
              if ir_digest existing \<noteq> mi_request_digest (cm_identity m) then (Inl ConnIdempotencyReused, r)
              else (Inr ((ir_result existing)\<lparr>cmr_outcome := OutcomeReplayed\<rparr>), r)
          | None \<Rightarrow>
             (case apply_locked uuid_ok r m of
                (Inl e, r') \<Rightarrow> (Inl e, r')
              | (Inr result, r') \<Rightarrow>
                  (Inr result,
                   (bump_revision r')\<lparr>cr_audits := cr_audits r' @ [mutation_audit m result],
                     cr_idempotency := gput (idempotency_key m)
                       \<lparr>ir_digest = mi_request_digest (cm_identity m), ir_result = result\<rparr> (cr_idempotency r')\<rparr>))))"

section \<open>Executing tests\<close>

definition timeout_test :: "instant \<Rightarrow> test_operation \<Rightarrow> test_operation" where
  "timeout_test now t = t\<lparr>test_state := TestTimedOut,
     test_phase := (if test_phase t = TestPhaseNone then TestPhasePolicy else test_phase t),
     test_result_code := TestResultDeadlineExceeded, test_success := False,
     test_remediation_key := ''connection.test.deadline'',
     test_started_at := Some (case test_started_at t of None \<Rightarrow> test_created_at t | Some s \<Rightarrow> s),
     test_completed_at := Some now\<rparr>"

definition expire_test :: "instant \<Rightarrow> test_operation \<Rightarrow> test_operation" where
  "expire_test now t = t\<lparr>test_state := TestExpired, test_phase := TestPhaseNone, test_result_code := TestResultNone,
     test_success := False, test_remediation_key := [],
     test_started_at := Some (case test_started_at t of None \<Rightarrow> test_created_at t | Some s \<Rightarrow> s),
     test_completed_at := Some (case test_completed_at t of None \<Rightarrow> now | Some c \<Rightarrow> c)\<rparr>"

text \<open>What becomes of one test at the time \<open>now\<close>: its audit action and its new value, if it changes.\<close>

definition expire_one :: "instant \<Rightarrow> test_operation \<Rightarrow> (string \<times> test_operation) option" where
  "expire_one now t =
     (if test_state t = TestExpired then None
      else if \<not> test_expires_at t > now then Some (''TEST_EXPIRE'', expire_test now t)
      else if test_active t \<and> \<not> test_deadline_at t > now then Some (''TEST_TIMEOUT'', timeout_test now t)
      else None)"

definition service_audit :: "string \<Rightarrow> string \<Rightarrow> string \<Rightarrow> test_operation \<Rightarrow> (string, audit_value) gomap \<Rightarrow> conn_audit_event" where
  "service_audit action actor op_id t extra = \<lparr>ae_tenant_id = test_tenant_id t, ae_action = action,
     ae_actor_id = ''service:'' @ actor, ae_request_id = op_id, ae_outcome = OutcomeChanged,
     ae_attributes = [(''operationId'', AuditText op_id), (''connectionUid'', AuditText (test_connection_uid t)),
       (''generation'', AuditNumber (test_generation t))] @ extra\<rparr>"

fun expire_loop :: "instant \<Rightarrow> (string \<times> test_operation) list \<Rightarrow> conn_repo \<Rightarrow> int \<times> conn_repo" where
  "expire_loop now [] r = (0, r)"
| "expire_loop now ((op_id, t) # rest) r =
     (case expire_one now t of
        None \<Rightarrow> expire_loop now rest r
      | Some (action, t') \<Rightarrow>
         (case expire_loop now rest
            (r\<lparr>cr_tests := gput op_id t' (cr_tests r), cr_claims := gdel op_id (cr_claims r),
               cr_audits := cr_audits r @ [service_audit action ''connection-test-reconciler'' op_id t' []]\<rparr>) of
            (n, r') \<Rightarrow> (n + 1, r')))"

definition expire_locked :: "conn_repo \<Rightarrow> instant \<Rightarrow> int \<times> conn_repo" where
  "expire_locked r now = expire_loop now (cr_tests r) r"

definition expire_tests :: "conn_repo \<Rightarrow> instant \<Rightarrow> int \<times> conn_repo" where
  [effect_defs]: "expire_tests r now =
     (case expire_locked r now of (n, r') \<Rightarrow> (n, if n > 0 then bump_revision r' else r'))"

definition no_claim :: test_claim where
  "no_claim = \<lparr>tcl_executor_id = [], tcl_attempt = 0, tcl_lease_expires_at = 0\<rparr>"

definition claim_of :: "conn_repo \<Rightarrow> string \<Rightarrow> test_claim" where
  "claim_of r op_id = (case gget (cr_claims r) op_id of None \<Rightarrow> no_claim | Some c \<Rightarrow> c)"

definition claimable :: "conn_repo \<Rightarrow> instant \<Rightarrow> string \<times> test_operation \<Rightarrow> bool" where
  "claimable r now e = (case e of (op_id, t) \<Rightarrow>
     test_state t = TestQueued \<or> test_state t = TestRunning \<and> \<not> tcl_lease_expires_at (claim_of r op_id) > now)"

definition run_test :: "instant \<Rightarrow> test_operation \<Rightarrow> test_operation" where
  "run_test now t = t\<lparr>test_state := TestRunning, test_phase := TestPhasePolicy, test_result_code := TestResultNone,
     test_success := False, test_remediation_key := [],
     test_started_at := Some (case test_started_at t of None \<Rightarrow> now | Some s \<Rightarrow> s), test_completed_at := None\<rparr>"

definition captured_generation :: "conn_repo \<Rightarrow> test_operation \<Rightarrow> generation option" where
  "captured_generation r t =
     (case gget (cr_generations r) (test_connection_uid t) of
        None \<Rightarrow> None | Some gens \<Rightarrow> gget gens (test_generation t))"

definition tested_connection :: "conn_repo \<Rightarrow> test_operation \<Rightarrow> connection option" where
  "tested_connection r t =
     (case gget (cr_uid_index r) (test_connection_uid t) of
        None \<Rightarrow> None | Some k \<Rightarrow> gget (cr_connections r) k)"

definition claim_one ::
  "(string \<Rightarrow> bool) \<Rightarrow> string \<Rightarrow> duration \<Rightarrow> instant \<Rightarrow> conn_repo \<Rightarrow> string \<times> test_operation \<Rightarrow>
   (conn_error + test_work) \<times> conn_repo" where
  "claim_one uuid_ok executor lease now r e =
     (case e of (op_id, t) \<Rightarrow>
       (case (captured_generation r t, tested_connection r t) of
          (Some g, Some stored) \<Rightarrow>
            (let t' = run_test now t;
                 c = claim_of r op_id;
                 c' = \<lparr>tcl_executor_id = executor, tcl_attempt = wrap32 (tcl_attempt c + 1),
                       tcl_lease_expires_at = now + lease\<rparr>;
                 r' = r\<lparr>cr_claims := gput op_id c' (cr_claims r), cr_tests := gput op_id t' (cr_tests r)\<rparr>;
                 w = \<lparr>tw_operation = t',
                   tw_generation = \<lparr>snap_tenant_id = test_tenant_id t',
                     snap_tenant_namespace = ''tenant-'' @ take 8 (test_tenant_id t'),
                     snap_connection_uid = test_connection_uid t', snap_connector = conn_connector stored,
                     snap_generation = g\<rparr>,
                   tw_executor_id = executor, tw_attempt = tcl_attempt c', tw_lease_expires_at = tcl_lease_expires_at c'\<rparr>
             in if length (test_tenant_id t') < 8 then (Inl ConnPanicSlice, r')
                else case work_validate uuid_ok w of Some err \<Rightarrow> (Inl err, r') | None \<Rightarrow> (Inr w, r'))
        | _ \<Rightarrow> (Inl (InvalidConnection ''captured Connection test generation is unavailable''), r)))"

fun claim_loop ::
  "(string \<Rightarrow> bool) \<Rightarrow> string \<Rightarrow> duration \<Rightarrow> instant \<Rightarrow> (string \<times> test_operation) list \<Rightarrow> conn_repo \<Rightarrow>
   (conn_error + test_work list) \<times> conn_repo" where
  "claim_loop uuid_ok executor lease now [] r = (Inr [], r)"
| "claim_loop uuid_ok executor lease now (e # es) r =
     (case claim_one uuid_ok executor lease now r e of
        (Inl err, r') \<Rightarrow> (Inl err, r')
      | (Inr w, r') \<Rightarrow>
         (case claim_loop uuid_ok executor lease now es r' of
            (Inl err, r'') \<Rightarrow> (Inl err, r'')
          | (Inr ws, r'') \<Rightarrow> (Inr (w # ws), r'')))"

definition maximum_test_claim_batch :: int where
  "maximum_test_claim_batch = 64"

definition maximum_test_lease :: duration where
  "maximum_test_lease = 5 * 60 * 10 ^ 9"

definition claim_candidates :: "conn_repo \<Rightarrow> instant \<Rightarrow> (string \<times> test_operation) list" where
  "claim_candidates r now =
     sort_key (\<lambda>(op_id, t). (test_created_at t, op_id)) (filter (claimable r now) (cr_tests r))"

definition claim_tests ::
  "(string \<Rightarrow> bool) \<Rightarrow> conn_repo \<Rightarrow> string \<Rightarrow> int \<Rightarrow> duration \<Rightarrow> instant \<Rightarrow> (conn_error + test_work list) \<times> conn_repo" where
  [effect_defs]: "claim_tests uuid_ok r executor limit lease now =
     (if blank executor \<or> length executor > maximum_test_executor_id \<or> limit \<le> 0 \<or> limit > maximum_test_claim_batch \<or>
         lease \<le> 0 \<or> lease > maximum_test_lease
      then (Inl (InvalidConnection ''Connection test claim is invalid''), r)
      else
        (let r1 = snd (expire_locked r now)
         in case claim_loop uuid_ok executor lease now (take (nat limit) (claim_candidates r1 now)) r1 of
              (Inl e, r2) \<Rightarrow> (Inl e, r2)
            | (Inr ws, r2) \<Rightarrow> (Inr ws, if ws \<noteq> [] then bump_revision r2 else r2)))"

fun code_text :: "test_result_code \<Rightarrow> string" where
  "code_text TestResultNone = []"
| "code_text TestResultOK = ''OK''"
| "code_text TestResultPolicyDenied = ''POLICY_DENIED''"
| "code_text TestResultSecretUnavailable = ''SECRET_UNAVAILABLE''"
| "code_text TestResultDNSFailed = ''DNS_FAILED''"
| "code_text TestResultTransportFailed = ''TRANSPORT_FAILED''"
| "code_text TestResultTLSFailed = ''TLS_FAILED''"
| "code_text TestResultAuthenticationFailed = ''AUTHENTICATION_FAILED''"
| "code_text TestResultHandshakeFailed = ''HANDSHAKE_FAILED''"
| "code_text TestResultDeadlineExceeded = ''DEADLINE_EXCEEDED''"
| "code_text TestResultExecutorUnavailable = ''EXECUTOR_UNAVAILABLE''"
| "code_text (TestResultOther s) = s"

definition finish_test :: "test_completion \<Rightarrow> instant \<Rightarrow> test_operation \<Rightarrow> test_operation" where
  "finish_test c now t = t\<lparr>test_state := tc_state c, test_phase := tc_phase c, test_result_code := tc_result_code c,
     test_success := tc_success c, test_remediation_key := tc_remediation_key c, test_completed_at := Some now\<rparr>"

definition complete_test ::
  "(string \<Rightarrow> bool) \<Rightarrow> conn_repo \<Rightarrow> string \<Rightarrow> string \<Rightarrow> test_completion \<Rightarrow> instant \<Rightarrow>
   (conn_error + test_operation) \<times> conn_repo" where
  [effect_defs]: "complete_test uuid_ok r op_id executor completion now =
     (if completion_validate completion \<noteq> None \<or> blank executor \<or> length executor > maximum_test_executor_id
      then (Inl (InvalidConnection ''Connection test completion is invalid''), r)
      else case gget (cr_tests r) op_id of
        None \<Rightarrow> (Inl TestLeaseLost, r)
      | Some t \<Rightarrow>
          if test_state t \<noteq> TestRunning \<or> tcl_executor_id (claim_of r op_id) \<noteq> executor \<or>
             \<not> tcl_lease_expires_at (claim_of r op_id) > now \<or> \<not> test_deadline_at t > now
          then (Inl TestLeaseLost, r)
          else (let t' = finish_test completion now t
                in case test_validate uuid_ok t' of
                     Some e \<Rightarrow> (Inl e, r)
                   | None \<Rightarrow> (Inr t', (bump_revision r)\<lparr>cr_tests := gput op_id t' (cr_tests r),
                       cr_claims := gdel op_id (cr_claims r),
                       cr_audits := cr_audits r @ [service_audit ''TEST_COMPLETE'' executor op_id t'
                         [(''resultCode'', AuditText (code_text (test_result_code t')))]]\<rparr>)))"

definition set_reference_counts :: "conn_repo \<Rightarrow> string \<Rightarrow> reference_counts \<Rightarrow> conn_repo" where
  [effect_defs]: "set_reference_counts r uid c = r\<lparr>cr_references := gput uid c (cr_references r)\<rparr>"

section \<open>Runs\<close>

datatype conn_op =
    ConnApply conn_mutation
  | ConnClaim string int duration instant
  | ConnComplete string string test_completion instant
  | ConnExpire instant
  | ConnReferences string reference_counts

fun conn_step :: "(string \<Rightarrow> bool) \<Rightarrow> conn_repo \<Rightarrow> conn_op \<Rightarrow> conn_repo" where
  "conn_step uuid_ok r (ConnApply m) = snd (conn_apply uuid_ok r m)"
| "conn_step uuid_ok r (ConnClaim executor limit lease now) = snd (claim_tests uuid_ok r executor limit lease now)"
| "conn_step uuid_ok r (ConnComplete op_id executor c now) = snd (complete_test uuid_ok r op_id executor c now)"
| "conn_step uuid_ok r (ConnExpire now) = snd (expire_tests r now)"
| "conn_step uuid_ok r (ConnReferences uid c) = set_reference_counts r uid c"

definition conn_run :: "(string \<Rightarrow> bool) \<Rightarrow> conn_op list \<Rightarrow> conn_repo" where
  "conn_run uuid_ok ops = foldl (conn_step uuid_ok) new_conn_repo ops"

end
