(* ===== verification/ConnectionInvariants.thy ===== *)
theory ConnectionInvariants
  imports ConnectionRepository
begin

text \<open>
  What holds of the in-memory connection repository in every run of its methods: stored
  connections and tests are valid and stand under their own keys, the limits on running tests
  are kept, and a repeated mutation is answered from the first one's result.
\<close>

section \<open>What holds of the repository\<close>

definition settle_test :: "instant \<Rightarrow> test_operation \<Rightarrow> test_operation" where
  "settle_test now t = (case expire_one now t of None \<Rightarrow> t | Some (_, t') \<Rightarrow> t')"

lemma expire_loop_tests:
  assumes "gwf es" and "\<And>k t. gget es k = Some t \<Longrightarrow> gget (cr_tests r) k = Some t"
  shows "gget (cr_tests (snd (expire_loop now es r))) k =
    (case gget es k of None \<Rightarrow> gget (cr_tests r) k | Some t \<Rightarrow> Some (settle_test now t))"
  using assms
proof (induction now es r rule: expire_loop.induct)
  case (2 now op_id t rest r)
  have fresh: "gget rest op_id = None" and rest: "gwf rest"
    using 2(3) by (auto simp: gwf_def map_of_eq_None_iff)
  have keep: "gget (cr_tests r) k = Some u" if "gget rest k = Some u" for k u
    using 2(4) [of k u] that fresh by (cases "k = op_id") auto
  show ?case
  proof (cases "expire_one now t")
    case None
    then show ?thesis using 2(1) [OF None rest keep] 2(4) [of op_id t] fresh
      by (auto simp: settle_test_def)
  next
    case (Some at)
    obtain action t' where at: "at = (action, t')" by force
    let ?r = "r\<lparr>cr_tests := gput op_id t' (cr_tests r), cr_claims := gdel op_id (cr_claims r),
        cr_audits := cr_audits r @ [service_audit action ''connection-test-reconciler'' op_id t' []]\<rparr>"
    have "gget (cr_tests ?r) k = Some u" if "gget rest k = Some u" for k u
      using keep that fresh by (cases "k = op_id") auto
    then show ?thesis using 2(2) [OF Some at [symmetric] rest] fresh Some at
      by (simp add: settle_test_def case_prod_unfold split: option.split)
  qed
qed simp

lemma expire_loop_frame:
  "cr_connections (snd (expire_loop now es r)) = cr_connections r"
  "cr_uid_index (snd (expire_loop now es r)) = cr_uid_index r"
  "cr_generations (snd (expire_loop now es r)) = cr_generations r"
  "cr_idempotency (snd (expire_loop now es r)) = cr_idempotency r"
  "gwf (cr_tests r) \<Longrightarrow> gwf (cr_tests (snd (expire_loop now es r)))"
  by (induction now es r rule: expire_loop.induct) (simp_all add: case_prod_unfold split: option.split)

lemma expire_locked_tests:
  "gwf (cr_tests r) \<Longrightarrow> gget (cr_tests (snd (expire_locked r now))) k = map_option (settle_test now) (gget (cr_tests r) k)"
  using expire_loop_tests [of "cr_tests r" r now k] by (simp add: expire_locked_def split: option.split)

text \<open>A stored test is valid, stands under its own identifier, and started before its deadline.\<close>

definition test_inv :: "(string \<Rightarrow> bool) \<Rightarrow> string \<Rightarrow> test_operation \<Rightarrow> bool" where
  "test_inv uuid_ok k t \<longleftrightarrow> test_validate uuid_ok t = None \<and> test_operation_id t = k \<and>
     (test_state t = TestRunning \<longrightarrow> opt_all (\<lambda>s. s < test_deadline_at t) (test_started_at t))"

definition tests_inv :: "(string \<Rightarrow> bool) \<Rightarrow> conn_repo \<Rightarrow> bool" where
  "tests_inv uuid_ok r \<longleftrightarrow> gwf (cr_tests r) \<and> (\<forall>k t. gget (cr_tests r) k = Some t \<longrightarrow> test_inv uuid_ok k t)"

definition conns_inv :: "(string \<Rightarrow> bool) \<Rightarrow> conn_repo \<Rightarrow> bool" where
  "conns_inv uuid_ok r \<longleftrightarrow> (\<forall>k c. gget (cr_connections r) k = Some c \<longrightarrow>
     connection_validate uuid_ok c = None \<and> k = resource_key (conn_tenant_id c) (conn_name c))"

lemma expire_test_inv:
  assumes "test_inv u k t" and "\<not> test_expires_at t > now" and "test_state t \<noteq> TestExpired"
  shows "test_inv u k (expire_test now t)"
  using assms
  by (cases "test_state t")
    (auto simp: test_inv_def test_validate_def expire_test_def no_test_result_def completed_after_start_def
      terminal_test_validate_def split: option.splits)

lemma timeout_test_inv:
  assumes "test_inv u k t" and "\<not> test_deadline_at t > now" and "test_active t"
  shows "test_inv u k (timeout_test now t)"
proof -
  have "\<not> contains_any ''connection.test.deadline'' [CHR 0x00, CHR 0x0D, CHR 0x0A]" by code_simp
  then show ?thesis using assms
    by (auto simp: test_inv_def test_validate_def timeout_test_def no_test_result_def completed_after_start_def
        terminal_test_validate_def test_active_def completion_validate_def test_as_completion_def valid_test_phase_def
        valid_running_test_phase_def split: option.splits)
qed

lemma settle_test_inv: "test_inv u k t \<Longrightarrow> test_inv u k (settle_test now t)"
  using expire_test_inv [of u k t now] timeout_test_inv [of u k t now]
  by (auto simp: settle_test_def expire_one_def)

lemma settle_test_active:
  "test_active (settle_test now t) \<Longrightarrow> settle_test now t = t \<and> test_deadline_at (settle_test now t) > now"
  by (auto simp: settle_test_def expire_one_def expire_test_def timeout_test_def test_active_def split: if_splits)

lemma run_test_inv:
  assumes "test_inv u k t" and "test_active t" and "test_deadline_at t > now"
  shows "test_inv u k (run_test now t)"
  using assms
  by (auto simp: test_inv_def test_validate_def run_test_def no_test_result_def test_active_def
      valid_running_test_phase_def split: option.splits)

lemma finish_test_inv:
  assumes "test_inv u k t" and "test_validate u (finish_test c now t) = None" and "completion_validate c = None"
  shows "test_inv u k (finish_test c now t)"
  using assms by (auto simp: test_inv_def finish_test_def completion_validate_def)

lemma tests_inv_gput:
  "tests_inv u r \<Longrightarrow> test_inv u k t \<Longrightarrow> cr_tests r' = gput k t (cr_tests r) \<Longrightarrow> tests_inv u r'"
  by (auto simp: tests_inv_def)

lemma tests_inv_cong: "cr_tests r' = cr_tests r \<Longrightarrow> tests_inv u r' = tests_inv u r"
  by (simp add: tests_inv_def)

lemma conns_inv_cong: "cr_connections r' = cr_connections r \<Longrightarrow> conns_inv u r' = conns_inv u r"
  by (simp add: conns_inv_def)

lemma expire_locked_inv:
  assumes "tests_inv u r"
  shows "tests_inv u (snd (expire_locked r now))"
    and "gget (cr_tests (snd (expire_locked r now))) k = Some t \<Longrightarrow> test_active t \<Longrightarrow> test_deadline_at t > now"
proof -
  have wf: "gwf (cr_tests r)" using assms by (simp add: tests_inv_def)
  show "tests_inv u (snd (expire_locked r now))"
    using assms expire_loop_frame(5) [OF wf] expire_locked_tests [OF wf] settle_test_inv
    by (auto simp: tests_inv_def expire_locked_def)
  show "gget (cr_tests (snd (expire_locked r now))) k = Some t \<Longrightarrow> test_active t \<Longrightarrow> test_deadline_at t > now"
    using expire_locked_tests [OF wf, of now k] settle_test_active [of now] by auto
qed

text \<open>
  The claims of one batch, on entries of the table that are active and before their deadline:
  each test of the batch becomes a running one, and nothing else changes.
\<close>

lemma claim_one_cases:
  "snd (claim_one u executor lease now r (op_id, t)) = r \<or>
   (\<exists>c. snd (claim_one u executor lease now r (op_id, t)) =
      r\<lparr>cr_claims := gput op_id c (cr_claims r), cr_tests := gput op_id (run_test now t) (cr_tests r)\<rparr>)"
proof (cases "captured_generation r t = None \<or> tested_connection r t = None")
  case True
  then show ?thesis by (auto simp: claim_one_def split: option.split)
next
  case False
  then obtain g stored where "captured_generation r t = Some g" "tested_connection r t = Some stored" by auto
  then show ?thesis by (simp add: claim_one_def Let_def split: option.split) blast
qed

lemma claim_loop_keeps:
  assumes step: "\<And>r op_id t c. P r \<Longrightarrow> gget (cr_tests r) op_id = Some t \<Longrightarrow> test_active t \<Longrightarrow> test_deadline_at t > now \<Longrightarrow>
      P (r\<lparr>cr_claims := gput op_id c (cr_claims r), cr_tests := gput op_id (run_test now t) (cr_tests r)\<rparr>)"
    and "P r" and "distinct (map fst es)"
    and "\<And>op_id t. (op_id, t) \<in> set es \<Longrightarrow> gget (cr_tests r) op_id = Some t \<and> test_active t \<and> test_deadline_at t > now"
  shows "P (snd (claim_loop u executor lease now es r))"
  using assms(2-)
proof (induction es arbitrary: r)
  case (Cons e es)
  obtain op_id t where e: "e = (op_id, t)" by force
  obtain res r' where one: "claim_one u executor lease now r e = (res, r')" by force
  have here: "gget (cr_tests r) op_id = Some t" "test_active t" "test_deadline_at t > now"
    using Cons.prems(3) e by auto
  have "r' = r \<or> (\<exists>c. r' = r\<lparr>cr_claims := gput op_id c (cr_claims r), cr_tests := gput op_id (run_test now t) (cr_tests r)\<rparr>)"
    using claim_one_cases [of u executor lease now r op_id t] one e by simp
  then have P: "P r'" and same: "\<And>k. k \<noteq> op_id \<Longrightarrow> gget (cr_tests r') k = gget (cr_tests r) k"
    using step [OF Cons.prems(1) here] Cons.prems(1) by auto
  have rest: "gget (cr_tests r') k = Some v \<and> test_active v \<and> test_deadline_at v > now" if "(k, v) \<in> set es" for k v
  proof -
    have "k \<noteq> op_id" using Cons.prems(2) e that by force
    then show ?thesis using same Cons.prems(3) [of k v] that by simp
  qed
  show ?case
    using Cons.IH [OF P] Cons.prems(2) rest P one by (cases res) (auto simp: case_prod_unfold split: sum.split)
qed simp

lemma claim_candidates_ok:
  assumes "tests_inv u r" and "\<And>k t. gget (cr_tests r) k = Some t \<Longrightarrow> test_active t \<Longrightarrow> test_deadline_at t > now"
  shows "distinct (map fst (take n (claim_candidates r now)))"
    and "(op_id, t) \<in> set (take n (claim_candidates r now)) \<Longrightarrow>
      gget (cr_tests r) op_id = Some t \<and> test_active t \<and> test_deadline_at t > now"
proof -
  have wf: "gwf (cr_tests r)" using assms(1) by (simp add: tests_inv_def)
  have "distinct (map fst (filter (claimable r now) (cr_tests r)))"
    using wf by (auto simp: gwf_def intro: distinct_map_filter)
  then have "distinct (map fst (claim_candidates r now))"
    unfolding claim_candidates_def by (metis distinct_map distinct_sort set_sort)
  then show "distinct (map fst (take n (claim_candidates r now)))" by (simp add: take_map [symmetric])
  assume "(op_id, t) \<in> set (take n (claim_candidates r now))"
  then have "(op_id, t) \<in> set (cr_tests r)" "claimable r now (op_id, t)"
    by (auto simp: claim_candidates_def dest: in_set_takeD)
  moreover from this have "gget (cr_tests r) op_id = Some t" using wf by (simp add: gwf_in_set_iff)
  ultimately show "gget (cr_tests r) op_id = Some t \<and> test_active t \<and> test_deadline_at t > now"
    using assms(2) by (auto simp: claimable_def test_active_def)
qed

lemma claim_tests_keeps:
  assumes inv: "tests_inv u r"
    and step: "\<And>r op_id t c. P r \<Longrightarrow> gget (cr_tests r) op_id = Some t \<Longrightarrow> test_active t \<Longrightarrow> test_deadline_at t > now \<Longrightarrow>
      P (r\<lparr>cr_claims := gput op_id c (cr_claims r), cr_tests := gput op_id (run_test now t) (cr_tests r)\<rparr>)"
    and bump: "\<And>r. P r \<Longrightarrow> P (bump_revision r)" and "P r" and "P (snd (expire_locked r now))"
  shows "P (snd (claim_tests u r executor limit lease now))"
proof -
  let ?r1 = "snd (expire_locked r now)"
  let ?es = "take (nat limit) (claim_candidates ?r1 now)"
  note cand = claim_candidates_ok [of u ?r1 now, OF expire_locked_inv(1) [OF inv] expire_locked_inv(2) [OF inv]]
  have "P (snd (claim_loop u executor lease now ?es ?r1))"
    by (rule claim_loop_keeps [where P = P and now = now, OF _ assms(5)])
      (rule step, assumption+, rule cand(1), assumption+, rule cand(2), assumption+)
  then show ?thesis using assms(4) bump
    by (auto simp: claim_tests_def Let_def case_prod_unfold split: sum.split)
qed

lemma bump_frame [simp]:
  "cr_tests (bump_revision r) = cr_tests r" "cr_connections (bump_revision r) = cr_connections r"
  "cr_idempotency (bump_revision r) = cr_idempotency r"
  by (simp_all add: bump_revision_def)

text \<open>A mutation changes the tests by at most one new one, within the limits.\<close>

lemma apply_locked_tests:
  assumes "apply_locked u r m = (res, r')"
  shows "cr_idempotency r' = cr_idempotency r \<and>
    (cr_tests r' = cr_tests r \<or>
     (\<exists>t. cr_tests r' = gput (test_operation_id t) t (cr_tests r) \<and> test_validate u t = None \<and> \<not> test_limit_exceeded r t))"
  using assms
  by (cases "cm_kind m")
    (auto simp: apply_locked_def effect_defs Let_def split: option.splits if_splits)

lemma apply_create_conns: "conns_inv u r \<Longrightarrow> conns_inv u (snd (apply_create u r m))"
  by (auto simp: apply_create_def Let_def conns_inv_def split: option.split)

lemma apply_change_conns:
  assumes "conns_inv u r"
  shows "conns_inv u (snd (apply_change u r m))"
proof -
  let ?k = "resource_key (cm_tenant_id m) (cm_name m)"
  have put: "conns_inv u (r\<lparr>cr_connections := gput ?k c (cr_connections r)\<rparr>)"
    if "gget (cr_connections r) ?k = Some current" "connection_validate u c = None"
      "conn_tenant_id c = conn_tenant_id current" "conn_name c = conn_name current" for c current
    using assms that by (auto simp: conns_inv_def)
  then show ?thesis using assms
    by (auto simp: apply_change_def Let_def conns_inv_cong [of "r\<lparr>cr_connections := _, cr_generations := _\<rparr>"
          "r\<lparr>cr_connections := _\<rparr>"] split: option.split)
qed

lemma apply_locked_conns: "conns_inv u r \<Longrightarrow> conns_inv u (snd (apply_locked u r m))"
proof -
  have "conns_inv u r \<Longrightarrow> conns_inv u (snd (apply_delete r m))"
    by (auto simp: apply_delete_def Let_def conns_inv_def split: option.split)
  moreover have "conns_inv u r \<Longrightarrow> conns_inv u (snd (apply_test u r m))"
    by (auto simp: apply_test_def conns_inv_def split: option.split)
  ultimately show "conns_inv u r \<Longrightarrow> conns_inv u (snd (apply_locked u r m))"
    using apply_create_conns [of u r m] apply_change_conns [of u r m] by (cases "cm_kind m") (auto simp: apply_locked_def)
qed

lemma conn_apply_cases:
  obtains "snd (conn_apply u r m) = r"
  | e r' where "apply_locked u r m = (Inl e, r')" "snd (conn_apply u r m) = r'"
  | result r' where "apply_locked u r m = (Inr result, r')"
      "snd (conn_apply u r m) = (bump_revision r')\<lparr>cr_audits := cr_audits r' @ [mutation_audit m result],
         cr_idempotency := gput (idempotency_key m)
           \<lparr>ir_digest = mi_request_digest (cm_identity m), ir_result = result\<rparr> (cr_idempotency r')\<rparr>"
      "gget (cr_idempotency r) (idempotency_key m) = None"
proof (cases "identity_check (cm_identity m) = None \<and> gget (cr_idempotency r) (idempotency_key m) = None")
  case True
  obtain res r' where l: "apply_locked u r m = (res, r')" by force
  show ?thesis
  proof (cases res)
    case (Inl e)
    show ?thesis by (rule that(2) [of e r']) (use True l Inl in \<open>simp_all add: conn_apply_def\<close>)
  next
    case (Inr result)
    show ?thesis by (rule that(3) [of result r']) (use True l Inr in \<open>simp_all add: conn_apply_def\<close>)
  qed
next
  case False
  then show ?thesis using that(1) by (auto simp: conn_apply_def split: option.splits)
qed

text \<open>What a mutation does to the tests and the connections, whatever its outcome.\<close>

lemma conn_apply_effect:
  "(cr_tests (snd (conn_apply u r m)) = cr_tests r \<or>
    (\<exists>t. cr_tests (snd (conn_apply u r m)) = gput (test_operation_id t) t (cr_tests r) \<and> test_validate u t = None \<and>
       \<not> test_limit_exceeded r t)) \<and>
   (conns_inv u r \<longrightarrow> conns_inv u (snd (conn_apply u r m)))"
proof (cases rule: conn_apply_cases [of u r m])
  case (2 e r')
  then show ?thesis using apply_locked_tests [OF 2(1)] apply_locked_conns [of u r m] by auto
next
  case (3 result r')
  have "conns_inv u r' \<Longrightarrow> conns_inv u (snd (conn_apply u r m))" using 3(2) by (simp add: conns_inv_def)
  then show ?thesis using apply_locked_tests [OF 3(1)] apply_locked_conns [of u r m] 3(1,2) by auto
qed simp

text \<open>A request whose test, if it has one, has not started: what the connection service sends.\<close>

fun queued_op :: "conn_op \<Rightarrow> bool" where
  "queued_op (ConnApply m) = opt_all (\<lambda>t. test_state t = TestQueued) (cm_test m)"
| "queued_op _ = True"

lemma apply_locked_queued:
  assumes "apply_locked u r m = (res, r')" and "cr_tests r' \<noteq> cr_tests r"
  shows "\<exists>t. cm_test m = Some t \<and> cr_tests r' = gput (test_operation_id t) t (cr_tests r) \<and> test_validate u t = None"
  using assms
  by (cases "cm_kind m")
    (auto simp: apply_locked_def effect_defs Let_def split: option.splits if_splits)

lemma conn_step_inv:
  assumes "tests_inv u r" and "conns_inv u r" and "queued_op op"
  shows "tests_inv u (conn_step u r op) \<and> conns_inv u (conn_step u r op)"
proof (cases op)
  case (ConnApply m)
  have "tests_inv u (snd (conn_apply u r m))"
  proof (cases "cr_tests (snd (conn_apply u r m)) = cr_tests r")
    case True
    then show ?thesis using assms(1) tests_inv_cong by blast
  next
    case False
    then obtain t where t: "cm_test m = Some t" "cr_tests (snd (conn_apply u r m)) = gput (test_operation_id t) t (cr_tests r)"
        "test_validate u t = None"
      using apply_locked_queued [of u r m]
      by (cases rule: conn_apply_cases [of u r m]) auto
    then have "test_inv u (test_operation_id t) t" using assms(3) ConnApply by (simp add: test_inv_def)
    then show ?thesis using tests_inv_gput [OF assms(1) _ t(2)] by blast
  qed
  then show ?thesis using ConnApply conn_apply_effect [of u r m] assms(2) by simp
next
  case (ConnClaim executor limit lease now)
  have "tests_inv u (snd (claim_tests u r executor limit lease now))"
    by (rule claim_tests_keeps [OF assms(1) _ _ assms(1) expire_locked_inv(1) [OF assms(1)]])
      (auto simp: tests_inv_def intro: run_test_inv)
  moreover have "conns_inv u (snd (claim_tests u r executor limit lease now))"
    by (rule claim_tests_keeps [OF assms(1)])
      (use assms(2) in \<open>simp_all add: conns_inv_def expire_locked_def expire_loop_frame\<close>)
  ultimately show ?thesis using ConnClaim by simp
next
  case (ConnComplete op_id executor c now)
  have "tests_inv u (snd (complete_test u r op_id executor c now))"
    using assms(1) finish_test_inv [of u op_id _ c now]
    by (auto simp: complete_test_def Let_def tests_inv_def split: option.split)
  moreover have "conns_inv u (snd (complete_test u r op_id executor c now))"
    using assms(2) by (auto simp: complete_test_def Let_def conns_inv_def split: option.split)
  ultimately show ?thesis using ConnComplete by simp
next
  case (ConnExpire now)
  have "tests_inv u (snd (expire_tests r now)) = tests_inv u (snd (expire_locked r now))"
    by (rule tests_inv_cong) (simp add: expire_tests_def case_prod_unfold)
  moreover have "conns_inv u (snd (expire_tests r now)) = conns_inv u r"
    by (rule conns_inv_cong) (simp add: expire_tests_def case_prod_unfold expire_locked_def expire_loop_frame)
  ultimately show ?thesis using ConnExpire expire_locked_inv(1) [OF assms(1)] assms(2) by simp
next
  case (ConnReferences uid c)
  then show ?thesis using assms by (simp add: set_reference_counts_def tests_inv_def conns_inv_def)
qed

lemma conn_run_inv:
  "list_all queued_op ops \<Longrightarrow> tests_inv u (conn_run u ops) \<and> conns_inv u (conn_run u ops)"
proof -
  have "list_all queued_op ops \<Longrightarrow> tests_inv u r \<Longrightarrow> conns_inv u r \<Longrightarrow>
      tests_inv u (foldl (conn_step u) r ops) \<and> conns_inv u (foldl (conn_step u) r ops)" for r
    using conn_step_inv by (induction ops arbitrary: r) simp_all
  moreover have "tests_inv u new_conn_repo" "conns_inv u new_conn_repo"
    by (simp_all add: new_conn_repo_def tests_inv_def conns_inv_def)
  ultimately show "list_all queued_op ops \<Longrightarrow> tests_inv u (conn_run u ops) \<and> conns_inv u (conn_run u ops)"
    by (simp add: conn_run_def)
qed

lemma dns_label_no_nul: "dns_label s \<Longrightarrow> CHR 0x00 \<notin> set s"
proof -
  have "\<not> (is_lower_alnum CHR 0x00 \<or> CHR 0x00 = CHR ''-'')" by code_simp
  then show "dns_label s \<Longrightarrow> CHR 0x00 \<notin> set s" by (auto simp: dns_label_def list_all_iff)
qed

lemma resource_key_inj:
  assumes "resource_key t n = resource_key t' n'" and "CHR 0x00 \<notin> set n" and "CHR 0x00 \<notin> set n'"
  shows "t = t' \<and> n = n'"
proof -
  have "takeWhile (\<lambda>c. c \<noteq> CHR 0x00) (rev (resource_key t n)) = rev n"
    and "takeWhile (\<lambda>c. c \<noteq> CHR 0x00) (rev (resource_key t' n')) = rev n'"
    using assms(2,3) by (simp_all add: resource_key_def takeWhile_append)
  then have "n = n'" using assms(1) by simp
  then show ?thesis using assms(1) by (simp add: resource_key_def)
qed

text \<open>
  C24. The repository is well typed. In every run of mutations (whose tests have not started yet),
  claims, completions, expirations and reference updates, at any times whatever the clocks show,
  a connection that \<open>Get\<close> returns passes \<open>Validate\<close> and is the one asked for, and a test that
  \<open>GetTest\<close> returns passes \<open>Validate\<close>, in whatever state the executors and the expirations have
  left it, and has the tenant and the identifier asked for.
\<close>

theorem connection_repository_well_typed:
  assumes "list_all queued_op ops"
  shows "(conn_get (conn_run u ops) tenant nm = Inr c \<longrightarrow> CHR 0x00 \<notin> set nm \<longrightarrow>
      connection_validate u c = None \<and> conn_tenant_id c = tenant \<and> conn_name c = nm) \<and>
    (get_test (conn_run u ops) tenant op_id = Inr t \<longrightarrow>
      test_validate u t = None \<and> test_tenant_id t = tenant \<and> test_operation_id t = op_id)"
proof -
  let ?r = "conn_run u ops"
  have inv: "tests_inv u ?r" "conns_inv u ?r" using conn_run_inv [OF assms] by auto
  have "connection_validate u c = None \<and> conn_tenant_id c = tenant \<and> conn_name c = nm"
    if "conn_get ?r tenant nm = Inr c" "CHR 0x00 \<notin> set nm"
  proof -
    have c: "connection_validate u c = None" "resource_key tenant nm = resource_key (conn_tenant_id c) (conn_name c)"
      using inv(2) that(1) by (auto simp: conns_inv_def conn_get_def split: option.splits)
    moreover have "CHR 0x00 \<notin> set (conn_name c)" using c(1) by (intro dns_label_no_nul) (simp add: connection_validate_def)
    ultimately show ?thesis using resource_key_inj that(2) by blast
  qed
  moreover have "test_validate u t = None \<and> test_tenant_id t = tenant \<and> test_operation_id t = op_id"
    if "get_test ?r tenant op_id = Inr t"
    using inv(1) that by (auto simp: tests_inv_def test_inv_def get_test_def split: option.splits if_splits)
  ultimately show ?thesis by blast
qed

section \<open>Limits\<close>

definition within_limits :: "conn_repo \<Rightarrow> bool" where
  "within_limits r \<longleftrightarrow> (\<forall>tenant actor uid.
     count_tests (\<lambda>t. test_tenant_id t = tenant \<and> test_active t) r \<le> maximum_tenant_active_tests \<and>
     count_tests (\<lambda>t. test_tenant_id t = tenant \<and> test_active t \<and> test_actor_id t = actor) r \<le> maximum_actor_active_tests \<and>
     count_tests (\<lambda>t. test_tenant_id t = tenant \<and> test_active t \<and> test_connection_uid t = uid) r
       \<le> maximum_connection_active_test)"

lemma count_gput_le:
  "length (filter (\<lambda>(_, t). P t) (gput k v m)) \<le> length (filter (\<lambda>(_, t). P t) m) + (if P v then 1 else 0)"
  by (induction m) auto

lemma count_gput_same:
  "gget m k = Some w \<Longrightarrow> (P v \<Longrightarrow> P w) \<Longrightarrow>
   length (filter (\<lambda>(_, t). P t) (gput k v m)) \<le> length (filter (\<lambda>(_, t). P t) m)"
  by (induction m) auto

definition same_owner :: "test_operation \<Rightarrow> test_operation \<Rightarrow> bool" where
  "same_owner t t' \<longleftrightarrow> test_tenant_id t' = test_tenant_id t \<and> test_actor_id t' = test_actor_id t \<and>
     test_connection_uid t' = test_connection_uid t \<and> (test_active t' \<longrightarrow> test_active t)"

lemma within_limits_cong: "cr_tests r' = cr_tests r \<Longrightarrow> within_limits r' = within_limits r"
  by (simp add: within_limits_def count_tests_def)

lemma within_limits_same:
  assumes "within_limits r" and "gget (cr_tests r) k = Some t" and "same_owner t t'" and "cr_tests r' = gput k t' (cr_tests r)"
  shows "within_limits r'"
proof -
  have "count_tests P r' \<le> count_tests P r" if "P t' \<Longrightarrow> P t" for P
    unfolding count_tests_def assms(4) using count_gput_same [OF assms(2), of P t'] that by blast
  then have "count_tests P r' \<le> bound" if "count_tests P r \<le> bound" "P t' \<Longrightarrow> P t" for P bound
    using that le_trans by blast
  note bound = this
  show ?thesis unfolding within_limits_def
    using assms(1,3) by (intro allI conjI bound) (auto simp: within_limits_def same_owner_def)
qed

lemma within_limits_new:
  assumes "within_limits r" and "\<not> test_limit_exceeded r t" and "cr_tests r' = gput k t (cr_tests r)"
  shows "within_limits r'"
proof -
  have up: "count_tests P r' \<le> count_tests P r + (if P t then 1 else 0)" for P
    unfolding count_tests_def assms(3) by (rule count_gput_le)
  have "count_tests P r' \<le> bound" if "count_tests P r \<le> bound" and "P t \<Longrightarrow> count_tests P r < bound" for P bound
    using up [of P] that by (auto split: if_splits)
  note bound = this
  show ?thesis unfolding within_limits_def
  proof (intro allI conjI)
    fix tenant actor uid
    show "count_tests (\<lambda>t. test_tenant_id t = tenant \<and> test_active t) r' \<le> maximum_tenant_active_tests"
      using assms(1,2) by (intro bound) (auto simp: within_limits_def test_limit_exceeded_def Let_def not_le)
    show "count_tests (\<lambda>t. test_tenant_id t = tenant \<and> test_active t \<and> test_actor_id t = actor) r' \<le> maximum_actor_active_tests"
      using assms(1,2) by (intro bound) (auto simp: within_limits_def test_limit_exceeded_def Let_def not_le)
    show "count_tests (\<lambda>t. test_tenant_id t = tenant \<and> test_active t \<and> test_connection_uid t = uid) r' \<le> maximum_connection_active_test"
      using assms(1,2) by (intro bound) (auto simp: within_limits_def test_limit_exceeded_def Let_def not_le)
  qed
qed

lemma expire_one_owner: "expire_one now t = Some (action, t') \<Longrightarrow> same_owner t t'"
  by (auto simp: expire_one_def same_owner_def expire_test_def timeout_test_def test_active_def split: if_splits)

lemma expire_loop_limits:
  assumes "gwf es" and "\<And>k t. gget es k = Some t \<Longrightarrow> gget (cr_tests r) k = Some t" and "within_limits r"
  shows "within_limits (snd (expire_loop now es r))"
  using assms
proof (induction now es r rule: expire_loop.induct)
  case (2 now op_id t rest r)
  have fresh: "gget rest op_id = None" and rest: "gwf rest"
    using 2(3) by (auto simp: gwf_def map_of_eq_None_iff)
  have keep: "gget (cr_tests r) k = Some u" if "gget rest k = Some u" for k u
    using 2(4) [of k u] that fresh by (cases "k = op_id") auto
  show ?case
  proof (cases "expire_one now t")
    case None
    then show ?thesis using 2(1) [OF None rest keep 2(5)] by simp
  next
    case (Some at)
    obtain action t' where at: "at = (action, t')" by force
    let ?r = "r\<lparr>cr_tests := gput op_id t' (cr_tests r), cr_claims := gdel op_id (cr_claims r),
        cr_audits := cr_audits r @ [service_audit action ''connection-test-reconciler'' op_id t' []]\<rparr>"
    have "within_limits ?r"
      using within_limits_same [OF 2(5) 2(4) [of op_id t] expire_one_owner, of now action t' ?r] Some at by simp
    moreover have "gget (cr_tests ?r) k = Some u" if "gget rest k = Some u" for k u
      using keep that fresh by (cases "k = op_id") auto
    ultimately show ?thesis using 2(2) [OF Some at [symmetric] rest] Some at
      by (simp add: case_prod_unfold)
  qed
qed simp

lemma complete_test_tests:
  "snd (complete_test u r op_id executor c now) = r \<or>
   (\<exists>t. gget (cr_tests r) op_id = Some t \<and> test_state t = TestRunning \<and>
      cr_tests (snd (complete_test u r op_id executor c now)) = gput op_id (finish_test c now t) (cr_tests r))"
  by (simp add: complete_test_def Let_def split: option.split)

lemma conn_step_limits:
  assumes inv: "tests_inv u r" and lim: "within_limits r"
  shows "within_limits (conn_step u r op)"
proof -
  have wf: "gwf (cr_tests r)" using inv by (simp add: tests_inv_def)
  have expire: "within_limits (snd (expire_locked r now))" for now
    unfolding expire_locked_def using expire_loop_limits [OF wf _ lim] by blast
  show ?thesis
  proof (cases op)
    case (ConnApply m)
    then show ?thesis using conn_apply_effect [of u r m] within_limits_new [OF lim] within_limits_cong [of "snd (conn_apply u r m)" r] lim by auto
  next
    case (ConnClaim executor limit lease now)
    have "within_limits (snd (claim_tests u r executor limit lease now))"
    proof (rule claim_tests_keeps [OF inv _ _ lim expire])
      fix r op_id t c
      assume r: "within_limits r" "gget (cr_tests r) op_id = Some t" and "test_active t"
      then have "same_owner t (run_test now t)" by (simp add: same_owner_def run_test_def)
      from within_limits_same [OF r this]
      show "within_limits (r\<lparr>cr_claims := gput op_id c (cr_claims r), cr_tests := gput op_id (run_test now t) (cr_tests r)\<rparr>)"
        by simp
    qed (simp add: within_limits_def count_tests_def)
    with ConnClaim show ?thesis by simp
  next
    case (ConnComplete op_id executor c now)
    have "same_owner t (finish_test c now t)" if "test_state t = TestRunning" for t
      using that by (simp add: same_owner_def finish_test_def test_active_def)
    then have "within_limits (snd (complete_test u r op_id executor c now))"
      using complete_test_tests [of u r op_id executor c now] lim within_limits_same [OF lim] by metis
    with ConnComplete show ?thesis by simp
  next
    case (ConnExpire now)
    then show ?thesis using expire [of now] within_limits_cong [of "snd (expire_tests r now)" "snd (expire_locked r now)"]
      by (simp add: expire_tests_def case_prod_unfold)
  next
    case (ConnReferences uid c)
    then show ?thesis using lim by (simp add: set_reference_counts_def within_limits_def count_tests_def)
  qed
qed

text \<open>
  C22. The admission limits hold at every moment of every run: a tenant never has more than eight
  tests queued or running, an actor no more than two within a tenant, and a connection no more
  than one, however claims, lost leases, completions and expirations interleave with requests.
\<close>

theorem test_limits_hold:
  assumes "list_all queued_op ops"
  shows "count_tests (\<lambda>t. test_tenant_id t = tenant \<and> test_active t) (conn_run u ops) \<le> 8 \<and>
    count_tests (\<lambda>t. test_tenant_id t = tenant \<and> test_active t \<and> test_actor_id t = actor) (conn_run u ops) \<le> 2 \<and>
    count_tests (\<lambda>t. test_tenant_id t = tenant \<and> test_active t \<and> test_connection_uid t = uid) (conn_run u ops) \<le> 1"
proof -
  have "within_limits (foldl (conn_step u) r ops)"
    if "list_all queued_op ops" "tests_inv u r" "conns_inv u r" "within_limits r" for r
    using that conn_step_limits conn_step_inv by (induction ops arbitrary: r) simp_all
  moreover have "tests_inv u new_conn_repo" "conns_inv u new_conn_repo" "within_limits new_conn_repo"
    by (simp_all add: new_conn_repo_def tests_inv_def conns_inv_def within_limits_def count_tests_def)
  ultimately have "within_limits (conn_run u ops)" using assms by (simp add: conn_run_def)
  then show ?thesis
    by (simp add: within_limits_def maximum_tenant_active_tests_def maximum_actor_active_tests_def
        maximum_connection_active_test_def)
qed

section \<open>Idempotency\<close>

lemma claim_loop_idempotency: "cr_idempotency (snd (claim_loop u executor lease now es r)) = cr_idempotency r"
proof (induction es arbitrary: r)
  case (Cons e es)
  obtain op_id t res r' where e: "e = (op_id, t)" and one: "claim_one u executor lease now r e = (res, r')" by force
  have "cr_idempotency r' = cr_idempotency r" using claim_one_cases [of u executor lease now r op_id t] one e by auto
  with Cons one show ?case by (cases res) (auto simp: case_prod_unfold split: sum.split)
qed simp

lemma idempotency_kept:
  assumes "gget (cr_idempotency r) k = Some e"
  shows "gget (cr_idempotency (conn_step u r op)) k = Some e"
proof (cases op)
  case (ConnApply m)
  show ?thesis
  proof (cases rule: conn_apply_cases [of u r m])
    case 1
    with assms ConnApply show ?thesis by simp
  next
    case (2 err r')
    with assms ConnApply apply_locked_tests [OF 2(1)] show ?thesis by simp
  next
    case (3 result r')
    with assms ConnApply apply_locked_tests [OF 3(1)] show ?thesis by auto
  qed
next
  case (ConnClaim executor limit lease now)
  then show ?thesis using assms
    by (simp add: claim_tests_def Let_def case_prod_unfold claim_loop_idempotency expire_locked_def expire_loop_frame split: sum.split)
next
  case (ConnComplete op_id executor c now)
  then show ?thesis using assms by (simp add: complete_test_def Let_def split: option.split)
next
  case (ConnExpire now)
  then show ?thesis using assms by (simp add: expire_tests_def case_prod_unfold expire_locked_def expire_loop_frame)
qed (use assms in \<open>simp add: set_reference_counts_def\<close>)

text \<open>
  C23. A mutation takes effect once. After \<open>Apply\<close> has answered a mutation, and however many
  other requests come in between, a request of the same tenant, actor, method and key with the
  same digest gets the same answer, marked as replayed, and one with another digest is refused;
  neither changes the repository.
\<close>

theorem mutation_replayed:
  assumes "conn_apply u r m = (Inr result, r')" and "idempotency_key m' = idempotency_key m"
    and "identity_check (cm_identity m') = None"
  shows "conn_apply u (foldl (conn_step u) r' ops) m' =
    (if mi_request_digest (cm_identity m') = mi_request_digest (cm_identity m)
     then Inr (result\<lparr>cmr_outcome := OutcomeReplayed\<rparr>) else Inl ConnIdempotencyReused, foldl (conn_step u) r' ops)"
proof -
  have "\<exists>e. gget (cr_idempotency r') (idempotency_key m) = Some e \<and> ir_digest e = mi_request_digest (cm_identity m) \<and>
      (ir_result e)\<lparr>cmr_outcome := OutcomeReplayed\<rparr> = result\<lparr>cmr_outcome := OutcomeReplayed\<rparr>"
    using assms(1) by (auto simp: conn_apply_def split: option.splits if_splits sum.splits prod.splits)
  then obtain e where e: "gget (cr_idempotency r') (idempotency_key m) = Some e"
    and d: "ir_digest e = mi_request_digest (cm_identity m)"
    and same: "(ir_result e)\<lparr>cmr_outcome := OutcomeReplayed\<rparr> = result\<lparr>cmr_outcome := OutcomeReplayed\<rparr>" by blast
  have "gget (cr_idempotency (foldl (conn_step u) s ops)) (idempotency_key m) = Some e"
    if "gget (cr_idempotency s) (idempotency_key m) = Some e" for s
    using that idempotency_kept by (induction ops arbitrary: s) simp_all
  from this [OF e] show ?thesis using assms(2,3) d same by (simp add: conn_apply_def)
qed

section \<open>A sample run\<close>

text \<open>A connection is created and tested, and a second test is asked for while the first is queued.\<close>

definition uuid_length :: "string \<Rightarrow> bool" where
  "uuid_length s \<longleftrightarrow> length s = 36"

definition sample_tenant :: string where
  "sample_tenant = ''00000000-0000-4000-8000-00000000000a''"

definition sample_connection_uid :: string where
  "sample_connection_uid = ''00000000-0000-4000-8000-00000000000b''"

definition sample_digest :: "char \<Rightarrow> string" where
  "sample_digest c = ''sha256:'' @ replicate 64 c"

definition sample_generation :: generation where
  "sample_generation = \<lparr>gen_number = 1, gen_descriptor_revision = sample_digest (CHR ''a''),
     gen_schema_revision = sample_digest (CHR ''b''),
     gen_settings = [\<lparr>setting_key = ''host'', setting_value = ''db'', setting_sensitivity = SensitivityPublic\<rparr>],
     gen_secret_locator = \<lparr>locator_provider = ProviderNone, locator_secret_name = [], locator_secret_uid = [], locator_fields = []\<rparr>,
     gen_created_at = 100\<rparr>"

definition sample_connection :: connection where
  "sample_connection = \<lparr>conn_tenant_id = sample_tenant, conn_name = ''orders'', conn_uid = sample_connection_uid,
     conn_connector = ''jdbc'', conn_version = 1, conn_state = ConnActive, conn_display_name = ''Orders'',
     conn_description = [], conn_current = sample_generation, conn_created_at = 100, conn_updated_at = 100\<rparr>"

definition sample_test :: "string \<Rightarrow> test_operation" where
  "sample_test op_id = \<lparr>test_tenant_id = sample_tenant, test_operation_id = op_id,
     test_connection_uid = sample_connection_uid, test_generation = 1,
     test_descriptor_revision = sample_digest (CHR ''a''), test_actor_id = ''alice'',
     test_egress = default_test_egress_policy, test_state = TestQueued, test_phase = TestPhaseNone,
     test_result_code = TestResultNone, test_success = False, test_remediation_key = [],
     test_created_at = 200, test_deadline_at = 300, test_started_at = None, test_completed_at = None,
     test_expires_at = 400\<rparr>"

definition sample_request :: "char \<Rightarrow> mutation_identity" where
  "sample_request c = \<lparr>mi_actor_id = ''alice'', mi_method = ''Connections'', mi_key_fingerprint = sample_digest c,
     mi_request_digest = sample_digest c, mi_request_id = ''request'', mi_audit_event_id = ''audit'', mi_occurred_at = 200\<rparr>"

definition sample_create :: conn_mutation where
  "sample_create = \<lparr>cm_kind = MutationCreate, cm_tenant_id = sample_tenant, cm_name = ''orders'',
     cm_expected_version = 0, cm_candidate = Some sample_connection, cm_test = None,
     cm_identity = sample_request (CHR ''c''), cm_attributes = []\<rparr>"

definition sample_test_request :: "char \<Rightarrow> string \<Rightarrow> conn_mutation" where
  "sample_test_request c op_id = \<lparr>cm_kind = MutationTest, cm_tenant_id = sample_tenant, cm_name = ''orders'',
     cm_expected_version = 1, cm_candidate = None, cm_test = Some (sample_test op_id),
     cm_identity = sample_request c, cm_attributes = []\<rparr>"

definition sample_op_ids :: "string \<times> string" where
  "sample_op_ids = (''00000000-0000-4000-8000-000000000001'', ''00000000-0000-4000-8000-000000000002'')"

definition sample_conn_ops :: "conn_op list" where
  "sample_conn_ops = [ConnApply sample_create, ConnApply (sample_test_request (CHR ''d'') (fst sample_op_ids)),
     ConnApply (sample_test_request (CHR ''e'') (snd sample_op_ids))]"

lemma default_policy_ok: "policy_validate default_test_egress_policy = None"
  by (simp add: default_test_egress_policy_def policy_validate_def new_test_egress_policy_def
      policy_revision_ok maximum_test_policy_cidrs_def Let_def)

lemma sample_digest_eq [simp]: "sample_digest c = sample_digest d \<longleftrightarrow> c = d"
  by (simp add: sample_digest_def)

lemma sample_connection_ok: "connection_validate uuid_length sample_connection = None"
  by code_simp

lemma sample_request_ok:
  "identity_check (sample_request (CHR ''c'')) = None" "identity_check (sample_request (CHR ''d'')) = None"
  "identity_check (sample_request (CHR ''e'')) = None"
  by code_simp+

lemma sample_test_ok: "length op_id = 36 \<Longrightarrow> test_validate uuid_length (sample_test op_id) = None"
proof -
  have "sha256_revision (sample_digest (CHR ''a''))" "uuid_length sample_tenant" "uuid_length sample_connection_uid"
    "\<not> blank ''alice''" by code_simp+
  then show "length op_id = 36 \<Longrightarrow> ?thesis"
    by (simp add: test_validate_def sample_test_def default_policy_ok no_test_result_def uuid_length_def is_zero_def)
qed

lemma sample_create_simps [simp]:
  "cm_identity sample_create = sample_request (CHR ''c'')" "cm_kind sample_create = MutationCreate"
  "cm_tenant_id sample_create = sample_tenant" "cm_name sample_create = ''orders''"
  "cm_candidate sample_create = Some sample_connection" "conn_tenant_id sample_connection = sample_tenant"
  "conn_name sample_connection = ''orders''"
  by (simp_all add: sample_create_def sample_connection_def)

lemma sample_keys [simp]:
  "idempotency_key (sample_test_request c x) = idempotency_key sample_create \<longleftrightarrow> c = CHR ''c''"
  "idempotency_key (sample_test_request c x) = idempotency_key (sample_test_request d y) \<longleftrightarrow> c = d"
  by (simp_all add: idempotency_key_def sample_test_request_def sample_request_def)

lemma sample_created:
  defines "r1 \<equiv> conn_run uuid_length [ConnApply sample_create]"
  shows "conn_apply uuid_length new_conn_repo sample_create = (Inr (conn_changed sample_connection OutcomeChanged), r1)"
    and "gget (cr_connections r1) (resource_key sample_tenant ''orders'') = Some sample_connection"
    and "cr_tests r1 = []" and "captured_generation r1 (sample_test x) = Some sample_generation"
    and "tested_connection r1 (sample_test x) = Some sample_connection"
    and "c \<noteq> CHR ''c'' \<Longrightarrow> gget (cr_idempotency r1) (idempotency_key (sample_test_request c x)) = None"
proof -
  have "apply_locked uuid_length new_conn_repo sample_create =
      (Inr (conn_changed sample_connection OutcomeChanged),
       new_conn_repo\<lparr>cr_connections := [(resource_key sample_tenant ''orders'', sample_connection)],
         cr_uid_index := [(sample_connection_uid, resource_key sample_tenant ''orders'')],
         cr_generations := [(sample_connection_uid, [(1, sample_generation)])]\<rparr>)"
    by (simp add: apply_locked_def apply_create_def new_conn_repo_def sample_connection_ok Let_def)
      (simp add: sample_connection_def sample_generation_def)
  then show "conn_apply uuid_length new_conn_repo sample_create = (Inr (conn_changed sample_connection OutcomeChanged), r1)"
    and "gget (cr_connections r1) (resource_key sample_tenant ''orders'') = Some sample_connection"
    and "cr_tests r1 = []" and "captured_generation r1 (sample_test x) = Some sample_generation"
    and "tested_connection r1 (sample_test x) = Some sample_connection"
    and "c \<noteq> CHR ''c'' \<Longrightarrow> gget (cr_idempotency r1) (idempotency_key (sample_test_request c x)) = None"
    by (simp_all add: r1_def conn_run_def conn_apply_def sample_request_ok new_conn_repo_def bump_revision_def
      captured_generation_def tested_connection_def sample_test_def)
qed

lemma sample_request_step:
  assumes "gget (cr_connections r) (resource_key sample_tenant ''orders'') = Some sample_connection"
    and "gget (cr_idempotency r) (idempotency_key (sample_test_request c op_id)) = None"
    and "identity_check (sample_request c) = None" and "length op_id = 36"
  defines "r' \<equiv> conn_step uuid_length r (ConnApply (sample_test_request c op_id))"
  shows "cr_connections r' = cr_connections r" and "cr_uid_index r' = cr_uid_index r" and "cr_generations r' = cr_generations r"
    and "cr_tests r' = (if test_limit_exceeded r (sample_test op_id) then cr_tests r else gput op_id (sample_test op_id) (cr_tests r))"
    and "k \<noteq> idempotency_key (sample_test_request c op_id) \<Longrightarrow> gget (cr_idempotency r') k = gget (cr_idempotency r) k"
proof -
  have same: "cm_identity (sample_test_request c op_id) = sample_request c" "cm_kind (sample_test_request c op_id) = MutationTest"
    "cm_tenant_id (sample_test_request c op_id) = sample_tenant" "cm_name (sample_test_request c op_id) = ''orders''"
    "cm_expected_version (sample_test_request c op_id) = 1" "cm_test (sample_test_request c op_id) = Some (sample_test op_id)"
    by (simp_all add: sample_test_request_def)
  have t: "conn_version sample_connection = 1" "test_connection_uid (sample_test op_id) = conn_uid sample_connection"
    "test_generation (sample_test op_id) = gen_number (conn_current sample_connection)"
    "test_actor_id (sample_test op_id) = mi_actor_id (sample_request c)" "test_operation_id (sample_test op_id) = op_id"
    by (simp_all add: sample_connection_def sample_test_def sample_generation_def sample_request_def)
  have "apply_locked uuid_length r (sample_test_request c op_id) =
     (if test_limit_exceeded r (sample_test op_id) then (Inl TestLimitExceeded, r)
      else (Inr \<lparr>cmr_connection = None, cmr_test = Some (sample_test op_id), cmr_tombstone = None, cmr_outcome = OutcomeChanged\<rparr>,
        r\<lparr>cr_tests := gput op_id (sample_test op_id) (cr_tests r)\<rparr>))"
    using assms(1,4) by (simp add: apply_locked_def apply_test_def same t sample_test_ok)
  then show "cr_connections r' = cr_connections r" and "cr_uid_index r' = cr_uid_index r" and "cr_generations r' = cr_generations r"
    and "cr_tests r' = (if test_limit_exceeded r (sample_test op_id) then cr_tests r else gput op_id (sample_test op_id) (cr_tests r))"
    and "k \<noteq> idempotency_key (sample_test_request c op_id) \<Longrightarrow> gget (cr_idempotency r') k = gget (cr_idempotency r) k"
    using assms(2,3) by (simp_all add: r'_def conn_apply_def same bump_revision_def)
qed

lemma sample_conn_run:
  "conn_get (conn_run uuid_length sample_conn_ops) sample_tenant ''orders'' = Inr sample_connection \<and>
   cr_tests (conn_run uuid_length sample_conn_ops) = [(fst sample_op_ids, sample_test (fst sample_op_ids))] \<and>
   captured_generation (conn_run uuid_length sample_conn_ops) (sample_test x) = Some sample_generation \<and>
   tested_connection (conn_run uuid_length sample_conn_ops) (sample_test x) = Some sample_connection"
proof -
  let ?k = "resource_key sample_tenant ''orders''" and ?q = "\<lambda>c x. idempotency_key (sample_test_request c x)"
  define r1 where "r1 = conn_run uuid_length [ConnApply sample_create]"
  define r2 where "r2 = conn_step uuid_length r1 (ConnApply (sample_test_request (CHR ''d'') (fst sample_op_ids)))"
  define r3 where "r3 = conn_step uuid_length r2 (ConnApply (sample_test_request (CHR ''e'') (snd sample_op_ids)))"
  note r1 = sample_created(2,3,6) [folded r1_def] and found = sample_created(4,5) [folded r1_def]
  have len: "length (fst sample_op_ids) = 36" "length (snd sample_op_ids) = 36" by code_simp+
  have lim: "\<not> test_limit_exceeded r1 (sample_test x)" for x
    by (simp add: test_limit_exceeded_def count_tests_def r1 maximum_tenant_active_tests_def maximum_actor_active_tests_def
        maximum_connection_active_test_def maximum_tenant_daily_tests_def)
  have same2: "cr_uid_index r2 = cr_uid_index r1" "cr_generations r2 = cr_generations r1" "cr_connections r2 = cr_connections r1"
    using sample_request_step(1-3) [OF r1(1) r1(3) sample_request_ok(2) len(1)] by (simp_all add: r2_def)
  have r2: "gget (cr_connections r2) ?k = Some sample_connection" "cr_tests r2 = [(fst sample_op_ids, sample_test (fst sample_op_ids))]"
    "gget (cr_idempotency r2) (?q (CHR ''e'') (snd sample_op_ids)) = None"
    using sample_request_step [OF r1(1) r1(3) sample_request_ok(2) len(1)] r1 lim by (simp_all add: r2_def)
  have "test_limit_exceeded r2 (sample_test x)" for x
    by (simp add: test_limit_exceeded_def count_tests_def r2 maximum_connection_active_test_def sample_test_def test_active_def)
  moreover have "cr_uid_index r3 = cr_uid_index r2" "cr_generations r3 = cr_generations r2" "cr_connections r3 = cr_connections r2"
    using sample_request_step(1-3) [OF r2(1,3) sample_request_ok(3) len(2)] by (simp_all add: r3_def)
  ultimately have "gget (cr_connections r3) ?k = Some sample_connection" "cr_tests r3 = cr_tests r2"
    "cr_uid_index r3 = cr_uid_index r1" "cr_generations r3 = cr_generations r1" "cr_connections r3 = cr_connections r1"
    using same2 sample_request_step [OF r2(1,3) sample_request_ok(3) len(2)] r2 by (simp_all add: r3_def)
  moreover have "conn_run uuid_length sample_conn_ops = r3"
    by (simp add: conn_run_def sample_conn_ops_def r3_def r2_def r1_def)
  ultimately show ?thesis using found [of x] by (simp add: conn_get_def r2 captured_generation_def tested_connection_def cong: option.case_cong)
qed

theorem connection_repository_well_typed_witness:
  "conn_get (conn_run uuid_length sample_conn_ops) sample_tenant ''orders'' = Inr sample_connection \<and>
   connection_validate uuid_length sample_connection = None \<and>
   get_test (conn_run uuid_length sample_conn_ops) sample_tenant (fst sample_op_ids) = Inr (sample_test (fst sample_op_ids)) \<and>
   test_validate uuid_length (sample_test (fst sample_op_ids)) = None"
proof -
  have "list_all queued_op sample_conn_ops"
    by (simp add: sample_conn_ops_def sample_create_def sample_test_request_def sample_test_def)
  moreover have "get_test (conn_run uuid_length sample_conn_ops) sample_tenant (fst sample_op_ids) = Inr (sample_test (fst sample_op_ids))"
    using sample_conn_run by (simp add: get_test_def sample_test_def)
  ultimately show ?thesis
    using sample_conn_run connection_repository_well_typed
      [of sample_conn_ops uuid_length sample_tenant "''orders''" sample_connection "fst sample_op_ids" "sample_test (fst sample_op_ids)"]
    by simp
qed

theorem test_limits_hold_witness:
  "length (cr_tests (conn_run uuid_length sample_conn_ops)) = 1 \<and>
   count_tests (\<lambda>t. test_tenant_id t = sample_tenant \<and> test_active t \<and> test_connection_uid t = sample_connection_uid)
     (conn_run uuid_length sample_conn_ops) \<le> 1"
proof -
  have "list_all queued_op sample_conn_ops"
    by (simp add: sample_conn_ops_def sample_create_def sample_test_request_def sample_test_def)
  from test_limits_hold [OF this] sample_conn_run show ?thesis by simp
qed

theorem mutation_replayed_witness:
  "conn_apply uuid_length (conn_run uuid_length sample_conn_ops) sample_create =
     (Inr (conn_changed sample_connection OutcomeReplayed), conn_run uuid_length sample_conn_ops)"
proof -
  have "conn_run uuid_length sample_conn_ops =
      foldl (conn_step uuid_length) (conn_run uuid_length [ConnApply sample_create]) (tl sample_conn_ops)"
    by (simp add: conn_run_def sample_conn_ops_def)
  moreover have "identity_check (cm_identity sample_create) = None" by (simp add: sample_create_def sample_request_ok)
  ultimately show ?thesis using mutation_replayed [OF sample_created(1) refl] by (simp add: conn_changed_def)
qed

end
