(* ===== verification/ConnectionTest.thy ===== *)
theory ConnectionTest
  imports ConnectionInvariants "HOL-Library.Multiset"
begin

text \<open>
  The connection test executor of \<open>control-plane/scheduler/internal/connectiontest\<close>: the egress
  guard of \<open>egress.go\<close>, the configuration, results and registry of \<open>probe.go\<close>, the probe of the CDC
  connectors of \<open>jdbc.go\<close> and the executor of \<open>executor.go\<close> over the connection repository. The name
  service, the dialer and the database drivers are arguments of the definitions that call them.
\<close>

section \<open>Text and addresses\<close>

text \<open>\<open>utf8.Valid\<close>.\<close>

definition byte_in :: "nat \<Rightarrow> nat \<Rightarrow> char \<Rightarrow> bool" where
  "byte_in lo hi c \<longleftrightarrow> lo \<le> of_char c \<and> of_char c \<le> hi"

fun utf8_valid :: "string \<Rightarrow> bool" where
  "utf8_valid [] = True"
| "utf8_valid (a # s) =
     (if byte_in 0 0x7F a then utf8_valid s
      else if byte_in 0xC2 0xDF a then
        (case s of b # t \<Rightarrow> byte_in 0x80 0xBF b \<and> utf8_valid t | _ \<Rightarrow> False)
      else if byte_in 0xE0 0xEF a then
        (case s of
           b # c # t \<Rightarrow>
             byte_in (if byte_in 0xE0 0xE0 a then 0xA0 else 0x80) (if byte_in 0xED 0xED a then 0x9F else 0xBF) b \<and>
             byte_in 0x80 0xBF c \<and> utf8_valid t
         | _ \<Rightarrow> False)
      else if byte_in 0xF0 0xF4 a then
        (case s of
           b # c # d # t \<Rightarrow>
             byte_in (if byte_in 0xF0 0xF0 a then 0x90 else 0x80) (if byte_in 0xF4 0xF4 a then 0x8F else 0xBF) b \<and>
             byte_in 0x80 0xBF c \<and> byte_in 0x80 0xBF d \<and> utf8_valid t
         | _ \<Rightarrow> False)
      else False)"

text \<open>\<open>strings.Trim(s, chars)\<close> for ASCII \<open>chars\<close> and \<open>strings.TrimSuffix\<close> of one character.\<close>

definition trim_chars :: "string \<Rightarrow> string \<Rightarrow> string" where
  "trim_chars chars s = rev (dropWhile (\<lambda>c. c \<in> set chars) (rev (dropWhile (\<lambda>c. c \<in> set chars) s)))"

definition trim_suffix :: "char \<Rightarrow> string \<Rightarrow> string" where
  "trim_suffix c s = (if s \<noteq> [] \<and> last s = c then butlast s else s)"

text \<open>\<open>net.JoinHostPort\<close> and \<open>net.SplitHostPort\<close>.\<close>

definition join_host_port :: "string \<Rightarrow> string \<Rightarrow> string" where
  "join_host_port host port =
     (if CHR '':'' \<in> set host then ''['' @ host @ '']:'' @ port else host @ '':'' @ port)"

definition last_colon :: "string \<Rightarrow> (string \<times> string) option" where
  "last_colon s =
     (let tail = takeWhile (\<lambda>c. c \<noteq> CHR '':'') (rev s)
      in if length tail = length s then None else Some (take (length s - length tail - 1) s, rev tail))"

definition split_host_port :: "string \<Rightarrow> (string \<times> string) option" where
  "split_host_port s =
     (case last_colon s of
        None \<Rightarrow> None
      | Some (before, port) \<Rightarrow>
          if starts_with ''['' s then
            (let host = takeWhile (\<lambda>c. c \<noteq> CHR '']'') (tl s);
                 after = dropWhile (\<lambda>c. c \<noteq> CHR '']'') (tl s)
             in if after = [] \<or> length host + 2 \<noteq> length before \<or>
                   CHR ''['' \<in> set (tl s) \<or> CHR '']'' \<in> set (tl after)
                then None else Some (host, port))
          else if CHR '':'' \<in> set before \<or> CHR ''['' \<in> set s \<or> CHR '']'' \<in> set s then None
          else Some (before, port))"

section \<open>The egress guard\<close>

datatype egress_error = PolicyDenied | DNSFailed | DialFailed | DialCanceled

type_synonym dns_resolver = "string \<Rightarrow> egress_error + ip_addr list"

text \<open>The resolver of the system; the lookup of the net package is its argument.\<close>

definition system_lookup :: "(string \<Rightarrow> ip_addr list option) \<Rightarrow> dns_resolver" where
  "system_lookup lookup_net_ip host =
     (case lookup_net_ip host of
        None \<Rightarrow> Inl DNSFailed
      | Some vs \<Rightarrow> if list_all is_valid_addr vs then Inr (map unmap vs) else Inl DNSFailed)"

definition must_prefixes :: "string list \<Rightarrow> ip_prefix list" where
  "must_prefixes vs = map (\<lambda>v. the (parse_prefix v)) vs"

definition hard_denied_prefixes :: "ip_prefix list" where
  "hard_denied_prefixes = must_prefixes
     [''0.0.0.0/8'', ''127.0.0.0/8'', ''169.254.0.0/16'', ''224.0.0.0/4'', ''240.0.0.0/4'', ''::/128'', ''::1/128'',
      ''fe80::/10'', ''ff00::/8'', ''100.100.100.200/32'', ''fd00:ec2::254/128'']"

definition restricted_prefixes :: "ip_prefix list" where
  "restricted_prefixes = must_prefixes [''100.64.0.0/10'', ''192.0.0.0/24'', ''198.18.0.0/15'', ''fc00::/7'']"

definition prefixes_contain :: "ip_prefix list \<Rightarrow> ip_addr \<Rightarrow> bool" where
  "prefixes_contain ps a \<longleftrightarrow> list_ex (\<lambda>p. prefix_contains p a) ps"

definition hard_denied :: "ip_addr \<Rightarrow> bool" where
  "hard_denied a0 =
     (let a = unmap a0
      in \<not> is_valid_addr a \<or> is_unspecified a \<or> is_loopback a \<or> is_multicast a \<or> is_link_local_unicast a \<or>
         is_link_local_multicast a \<or> prefixes_contain hard_denied_prefixes a)"

definition requires_explicit_allow :: "ip_addr \<Rightarrow> ip_prefix list \<Rightarrow> bool" where
  "requires_explicit_allow a0 protected =
     (let a = unmap a0
      in is_private a \<or> prefixes_contain restricted_prefixes a \<or> prefixes_contain protected a)"

fun canonical_loop :: "ip_addr list \<Rightarrow> ip_addr list \<Rightarrow> ip_addr list" where
  "canonical_loop result [] = result"
| "canonical_loop result (v # vs) =
     (let a = unmap v
      in canonical_loop (if \<not> is_valid_addr a \<or> a \<in> set result then result else result @ [a]) vs)"

definition canonical_addresses :: "ip_addr list \<Rightarrow> ip_addr list" where
  "canonical_addresses vs = sort (canonical_loop [] vs)"

text \<open>\<^verbatim>\<open>^[A-Za-z0-9](?:[-A-Za-z0-9]{0,61}[A-Za-z0-9])?$\<close>\<close>

definition is_alnum :: "char \<Rightarrow> bool" where
  "is_alnum c \<longleftrightarrow> is_lower c \<or> is_upper c \<or> is_digit c"

definition host_label :: "string \<Rightarrow> bool" where
  "host_label s \<longleftrightarrow> s \<noteq> [] \<and> length s \<le> 63 \<and> is_alnum (hd s) \<and> is_alnum (last s) \<and>
     list_all (\<lambda>c. is_alnum c \<or> c = CHR ''-'') s"

definition valid_host :: "string \<Rightarrow> bool" where
  "valid_host host \<longleftrightarrow>
     \<not> (length host = 0 \<or> length host > 253 \<or>
        contains_any host [CHR 0x00, CHR 0x0D, CHR 0x0A, CHR 0x09, CHR '' '', CHR ''/'', CHR 0x5C, CHR ''%'']) \<and>
     (parse_addr (trim_chars ''[]'' host) \<noteq> None \<or> list_all host_label (split_on (CHR ''.'') host))"

record egress_guard =
  eg_resolver :: "dns_resolver option"
  eg_protected :: "ip_prefix list"
  eg_maximum_dns_addresses :: int
  eg_dial_timeout :: duration
  eg_maximum_dial_attempts :: int

definition default_maximum_dns_addresses :: int where
  "default_maximum_dns_addresses = 8"

definition maximum_connection_attempts :: int where
  "maximum_connection_attempts = 2"

fun parse_blocks :: "(string \<Rightarrow> string) \<Rightarrow> string list \<Rightarrow> ip_prefix list option" where
  "parse_blocks trim [] = Some []"
| "parse_blocks trim (v # vs) =
     (case parse_prefix (trim v) of
        None \<Rightarrow> None
      | Some p \<Rightarrow> map_option (\<lambda>ps. masked p # ps) (parse_blocks trim vs))"

definition new_egress_guard ::
  "dns_resolver option \<Rightarrow> string list \<Rightarrow> int \<Rightarrow> duration \<Rightarrow> string + egress_guard" where
  "new_egress_guard resolver protected maximum_dns dial_timeout =
     (if resolver = None \<or> dial_timeout \<le> 0 \<or> dial_timeout > 30 * 10 ^ 9
      then Inl ''Connection test egress guard dependencies are invalid''
      else
        (let maximum = (if maximum_dns = 0 then default_maximum_dns_addresses else maximum_dns)
         in if maximum < 1 \<or> maximum > 32 then Inl ''Connection test DNS address bound is invalid''
            else case parse_blocks trim_space protected of
              None \<Rightarrow> Inl ''Connection test protected CIDR is invalid''
            | Some ps \<Rightarrow> Inr \<lparr>eg_resolver = resolver, eg_protected = ps, eg_maximum_dns_addresses = maximum,
                eg_dial_timeout = dial_timeout, eg_maximum_dial_attempts = maximum_connection_attempts\<rparr>))"

record pinned_endpoint =
  pe_host :: string
  pe_port :: nat
  pe_addresses :: "ip_addr list"
  pe_dial_timeout :: duration
  pe_max_attempts :: int

definition resolve_addresses :: "egress_guard \<Rightarrow> dns_resolver \<Rightarrow> string \<Rightarrow> egress_error + ip_addr list" where
  "resolve_addresses g lookup host =
     (case parse_addr (trim_chars ''[]'' host) of
        Some literal \<Rightarrow> Inr [unmap literal]
      | None \<Rightarrow>
         (case lookup host of
            Inl _ \<Rightarrow> Inl DNSFailed
          | Inr resolved \<Rightarrow>
              if resolved = [] \<or> int (length resolved) > eg_maximum_dns_addresses g then Inl DNSFailed else Inr resolved))"

definition egress_denied :: "egress_guard \<Rightarrow> ip_prefix list \<Rightarrow> ip_addr \<Rightarrow> bool" where
  "egress_denied g allowed a \<longleftrightarrow>
     hard_denied a \<or> requires_explicit_allow a (eg_protected g) \<and> \<not> prefixes_contain allowed a"

definition egress_resolve ::
  "egress_guard \<Rightarrow> string \<Rightarrow> nat \<Rightarrow> test_egress_policy \<Rightarrow> egress_error + pinned_endpoint" where
  "egress_resolve g host0 port policy =
     (case eg_resolver g of
        None \<Rightarrow> Inl PolicyDenied
      | Some lookup \<Rightarrow>
          if port = 0 \<or> policy_validate policy \<noteq> None then Inl PolicyDenied
          else
            (let host = trim_suffix (CHR ''.'') (trim_space host0)
             in if \<not> valid_host host then Inl PolicyDenied
                else case resolve_addresses g lookup host of
                  Inl e \<Rightarrow> Inl e
                | Inr found \<Rightarrow>
                    (let addresses = canonical_addresses found
                     in if addresses = [] \<or> int (length addresses) > eg_maximum_dns_addresses g then Inl DNSFailed
                        else case parse_blocks (\<lambda>v. v) (pol_allowed_cidrs policy) of
                          None \<Rightarrow> Inl PolicyDenied
                        | Some allowed \<Rightarrow>
                            if list_ex (egress_denied g allowed) addresses then Inl PolicyDenied
                            else Inr \<lparr>pe_host = host, pe_port = port, pe_addresses = addresses,
                              pe_dial_timeout = eg_dial_timeout g, pe_max_attempts = eg_maximum_dial_attempts g\<rparr>)))"

text \<open>
  Dialing. The dialer of the net package is an argument: it is given the network, the host and
  port and the timeout, and it connects, fails, or fails because the context has ended. The second
  component of the result lists the addresses dialled.
\<close>

datatype dial_result = Connected | Unreachable | ContextEnded

type_synonym dialer = "duration \<Rightarrow> string \<Rightarrow> string \<Rightarrow> dial_result"

fun dial_loop ::
  "dialer \<Rightarrow> duration \<Rightarrow> string \<Rightarrow> string \<Rightarrow> ip_addr list \<Rightarrow> (egress_error + ip_addr) \<times> ip_addr list" where
  "dial_loop dial timeout network port [] = (Inl DialFailed, [])"
| "dial_loop dial timeout network port (a # as) =
     (if network = ''tcp4'' \<and> \<not> is4 a \<or> network = ''tcp6'' \<and> \<not> is6 a then dial_loop dial timeout network port as
      else case dial timeout network (join_host_port (addr_string a) port) of
        Connected \<Rightarrow> (Inr a, [a])
      | ContextEnded \<Rightarrow> (Inl DialCanceled, [a])
      | Unreachable \<Rightarrow> (case dial_loop dial timeout network port as of (res, ds) \<Rightarrow> (res, a # ds)))"

definition dial_context ::
  "dialer \<Rightarrow> pinned_endpoint \<Rightarrow> string \<Rightarrow> string \<Rightarrow> (egress_error + ip_addr) \<times> ip_addr list" where
  "dial_context dial e network address =
     (if network \<noteq> ''tcp'' \<and> network \<noteq> ''tcp4'' \<and> network \<noteq> ''tcp6'' then (Inl PolicyDenied, [])
      else case split_host_port address of
        None \<Rightarrow> (Inl PolicyDenied, [])
      | Some (_, requested) \<Rightarrow>
          if requested \<noteq> digits (pe_port e) \<or> pe_addresses e = [] then (Inl PolicyDenied, [])
          else dial_loop dial (pe_dial_timeout e) network requested
                 (take (nat (min (pe_max_attempts e) (int (length (pe_addresses e))))) (pe_addresses e)))"

section \<open>Configurations, results and the registry\<close>

text \<open>The values of a configuration; \<open>Close\<close> leaves no map.\<close>

type_synonym configuration = "(string, string) gomap option"

fun config_settings :: "(string, string) gomap \<Rightarrow> setting list \<Rightarrow> string + (string, string) gomap" where
  "config_settings vs [] = Inr vs"
| "config_settings vs (s # ss) =
     (if gget vs (setting_key s) \<noteq> None then Inl ''Connection test configuration contains duplicate keys''
      else if length (setting_value s) > maximum_setting_value \<or> \<not> utf8_valid (setting_value s) \<or>
              CHR 0x00 \<in> set (setting_key s)
      then Inl ''Connection test configuration is invalid''
      else config_settings (gput (setting_key s) (setting_value s) vs) ss)"

fun config_fields :: "(string, string) gomap \<Rightarrow> (string, string) gomap \<Rightarrow> string + (string, string) gomap" where
  "config_fields vs [] = Inr vs"
| "config_fields vs ((k, source) # fs) =
     (if gget vs k \<noteq> None \<or> length source = 0 \<or> length source > maximum_setting_value \<or> \<not> utf8_valid source \<or>
         CHR 0x00 \<in> set k
      then Inl ''Connection test credential configuration is invalid''
      else config_fields (gput k source vs) fs)"

definition new_configuration :: "setting list \<Rightarrow> (string, string) gomap \<Rightarrow> string + configuration" where
  "new_configuration settings creds =
     (case config_settings [] settings of
        Inl e \<Rightarrow> Inl e
      | Inr vs \<Rightarrow> (case config_fields vs creds of Inl e \<Rightarrow> Inl e | Inr vs' \<Rightarrow> Inr (Some vs')))"

definition config_value :: "configuration \<Rightarrow> string \<Rightarrow> string option" where
  "config_value c k = (case c of None \<Rightarrow> None | Some vs \<Rightarrow> gget vs k)"

definition config_required :: "configuration \<Rightarrow> string \<Rightarrow> string option" where
  "config_required c k = (case config_value c k of None \<Rightarrow> None | Some v \<Rightarrow> if trim_space v = [] then None else Some v)"

definition config_close :: "configuration \<Rightarrow> configuration" where
  "config_close c = None"

record probe_result =
  pr_state :: test_state
  pr_phase :: test_phase
  pr_result_code :: test_result_code
  pr_success :: bool
  pr_remediation_key :: string

definition successful_probe :: probe_result where
  "successful_probe = \<lparr>pr_state = TestSucceeded, pr_phase = TestPhaseComplete, pr_result_code = TestResultOK,
     pr_success = True, pr_remediation_key = []\<rparr>"

definition failed_probe :: "test_phase \<Rightarrow> test_result_code \<Rightarrow> string \<Rightarrow> probe_result" where
  "failed_probe phase code key = \<lparr>pr_state = TestFailed, pr_phase = phase, pr_result_code = code,
     pr_success = False, pr_remediation_key = key\<rparr>"

definition timed_out_probe :: "test_phase \<Rightarrow> probe_result" where
  "timed_out_probe phase = \<lparr>pr_state = TestTimedOut, pr_phase = phase, pr_result_code = TestResultDeadlineExceeded,
     pr_success = False, pr_remediation_key = ''connection.test.deadline''\<rparr>"

definition canceled_probe :: "test_phase \<Rightarrow> probe_result" where
  "canceled_probe phase = \<lparr>pr_state = TestCanceled, pr_phase = phase, pr_result_code = TestResultExecutorUnavailable,
     pr_success = False, pr_remediation_key = ''connection.test.canceled''\<rparr>"

definition probe_completion :: "probe_result \<Rightarrow> test_completion \<times> conn_error option" where
  "probe_completion r =
     (let c = \<lparr>tc_state = pr_state r, tc_phase = pr_phase r, tc_result_code = pr_result_code r,
                tc_success = pr_success r, tc_remediation_key = pr_remediation_key r\<rparr>
      in (c, completion_validate c))"

text \<open>A probe, run to its end: the context it reads is part of the function.\<close>

type_synonym probe = "configuration \<Rightarrow> egress_guard \<Rightarrow> test_egress_policy \<Rightarrow> probe_result"

type_synonym registry = "(string, probe) gomap"

definition new_registry :: "(string, probe option) gomap \<Rightarrow> string + registry" where
  "new_registry probes =
     (if probes = [] then Inl ''Connection test probe registry must not be empty''
      else if list_ex (\<lambda>(k, p). blank k \<or> p = None) probes
      then Inl ''Connection test probe registry entry is invalid''
      else Inr (map (\<lambda>(k, p). (k, the p)) probes))"

definition executor_failure :: probe_result where
  "executor_failure = failed_probe TestPhaseHandshake TestResultExecutorUnavailable ''connection.test.executor''"

definition registry_execute ::
  "registry option \<Rightarrow> string \<Rightarrow> configuration option \<Rightarrow> egress_guard option \<Rightarrow> test_egress_policy \<Rightarrow> probe_result" where
  "registry_execute r connector c g policy =
     (case (r, c, g) of
        (Some ps, Some conf, Some guard) \<Rightarrow>
          (case gget ps connector of
             None \<Rightarrow> failed_probe TestPhaseHandshake TestResultHandshakeFailed ''connection.test.unsupported_connector''
           | Some run \<Rightarrow>
               (let result = run conf guard policy
                in if snd (probe_completion result) \<noteq> None then executor_failure else result))
      | _ \<Rightarrow> executor_failure)"

section \<open>The probe of the databases\<close>

datatype jdbc_kind = JdbcGeneric | JdbcMySQL | JdbcPostgreSQL

record database_target =
  dt_driver :: jdbc_kind
  dt_host :: string
  dt_port :: nat
  dt_database :: string
  dt_user :: string
  dt_password :: string
  dt_ssl_mode :: string

text \<open>The probes that \<open>DefaultRegistry\<close> registers, given the probe of each kind.\<close>

definition default_registry :: "(jdbc_kind \<Rightarrow> probe) \<Rightarrow> string + registry" where
  "default_registry jdbc_probe = new_registry
     [(''jdbc'', Some (jdbc_probe JdbcGeneric)), (''mysql-cdc'', Some (jdbc_probe JdbcMySQL)),
      (''postgres-cdc'', Some (jdbc_probe JdbcPostgreSQL))]"

text \<open>\<open>strconv.ParseUint(s, 10, 16)\<close>.\<close>

definition parse_uint16 :: "string \<Rightarrow> nat option" where
  "parse_uint16 s = (if s = [] \<or> \<not> list_all is_digit s \<or> dec_num s > 65535 then None else Some (dec_num s))"

definition target_from_fields :: "configuration \<Rightarrow> jdbc_kind \<Rightarrow> nat \<Rightarrow> database_target option" where
  "target_from_fields c driver default_port =
     (case (config_required c ''hostname'', config_required c ''database'', config_required c ''username'',
            config_required c ''password'') of
        (Some host, Some database, Some user, Some password) \<Rightarrow>
          if length database > 128 \<or> contains_any database [CHR 0x00, CHR 0x0D, CHR 0x0A] then None
          else
            (let target = (\<lambda>port. \<lparr>dt_driver = driver, dt_host = host, dt_port = port, dt_database = database,
                   dt_user = user, dt_password = password,
                   dt_ssl_mode = (case config_value c ''sslMode'' of None \<Rightarrow> [] | Some m \<Rightarrow> m)\<rparr>)
             in case config_value c ''port'' of
                  None \<Rightarrow> Some (target default_port)
                | Some text \<Rightarrow>
                    (case parse_uint16 text of
                       None \<Rightarrow> None
                     | Some n \<Rightarrow> if n = 0 then None else Some (target n)))
      | _ \<Rightarrow> None)"

text \<open>
  \<open>strings.ToLower\<close>, as far as the result is compared with ASCII text: the two other letters
  whose lower case is ASCII are U+0130 and U+212A.
\<close>

fun lower_text :: "string \<Rightarrow> string" where
  "lower_text [] = []"
| "lower_text (c # s) =
     (if is_upper c then char_of (of_char c + 32 :: nat) # lower_text s
      else if c = CHR 0xC4 \<and> starts_with [CHR 0xB0] s then CHR ''i'' # lower_text (tl s)
      else if c = CHR 0xE2 \<and> starts_with [CHR 0x84, CHR 0xAA] s then CHR ''k'' # lower_text (tl (tl s))
      else c # lower_text s)"

definition postgres_ssl_mode :: "string \<Rightarrow> string option" where
  "postgres_ssl_mode v =
     (let m = lower_text (trim_space v)
      in if m = [] then Some ''prefer''
         else if m \<in> set [''disable'', ''allow'', ''prefer'', ''require'', ''verify-ca'', ''verify-full''] then Some m
         else None)"

text \<open>The TLS configuration of a MySQL probe, where there is one, and whether it may fall back to plain text.\<close>

record tls_mode =
  tls_insecure_skip_verify :: bool
  tls_server_name :: string

definition mysql_tls_mode :: "string \<Rightarrow> string \<Rightarrow> (tls_mode option \<times> bool) option" where
  "mysql_tls_mode v server =
     (let m = lower_text (map (\<lambda>c. if c = CHR ''_'' then CHR ''-'' else c) (trim_space v))
      in if m \<in> set [[], ''preferred''] then Some (Some \<lparr>tls_insecure_skip_verify = True, tls_server_name = []\<rparr>, True)
         else if m \<in> set [''disabled'', ''disable''] then Some (None, False)
         else if m \<in> set [''required'', ''require''] then Some (Some \<lparr>tls_insecure_skip_verify = True, tls_server_name = []\<rparr>, False)
         else if m \<in> set [''verify-ca'', ''verify-identity'', ''verify-full'']
         then Some (Some \<lparr>tls_insecure_skip_verify = False, tls_server_name = server\<rparr>, False)
         else None)"

text \<open>What \<open>errors.Is\<close> and \<open>errors.As\<close> see in the error of a driver.\<close>

record probe_error =
  per_deadline :: bool
  per_policy_denied :: bool
  per_dial_failed :: bool
  per_tls :: bool
  per_postgres_code :: "string option"
  per_mysql_number :: "int option"
  per_invalid_configuration :: bool

definition invalid_probe_configuration :: probe_error where
  "invalid_probe_configuration = \<lparr>per_deadline = False, per_policy_denied = False, per_dial_failed = False, per_tls = False,
     per_postgres_code = None, per_mysql_number = None, per_invalid_configuration = True\<rparr>"

definition authentication_failure :: probe_result where
  "authentication_failure =
     failed_probe TestPhaseAuthentication TestResultAuthenticationFailed ''connection.test.authentication''"

definition classify_probe_error :: "bool \<Rightarrow> probe_error \<Rightarrow> probe_result" where
  "classify_probe_error ctx_ended e =
     (if ctx_ended \<or> per_deadline e then timed_out_probe TestPhaseTransport
      else if per_policy_denied e then failed_probe TestPhasePolicy TestResultPolicyDenied ''connection.test.egress_policy''
      else if per_dial_failed e then failed_probe TestPhaseTransport TestResultTransportFailed ''connection.test.transport''
      else if per_tls e then failed_probe TestPhaseTLS TestResultTLSFailed ''connection.test.tls''
      else if per_postgres_code e \<in> {Some ''28P01'', Some ''28000''} then authentication_failure
      else if per_mysql_number e \<in> {Some 1044, Some 1045, Some 1698} then authentication_failure
      else if per_invalid_configuration e
      then failed_probe TestPhaseHandshake TestResultHandshakeFailed ''connection.test.configuration''
      else failed_probe TestPhaseHandshake TestResultHandshakeFailed ''connection.test.handshake'')"

text \<open>
  The drivers: each is given the target, its TLS mode and the pinned endpoint, through which alone
  it dials, and it rejects the configuration, fails, or connects.
\<close>

datatype driver_result = ConfigRejected | DriverFailed probe_error | DriverConnected

fun driver_error :: "driver_result \<Rightarrow> probe_error option" where
  "driver_error ConfigRejected = Some invalid_probe_configuration"
| "driver_error (DriverFailed e) = Some e"
| "driver_error DriverConnected = None"

definition probe_postgresql ::
  "(database_target \<Rightarrow> string \<Rightarrow> pinned_endpoint \<Rightarrow> driver_result) \<Rightarrow> database_target \<Rightarrow> pinned_endpoint \<Rightarrow> probe_error option" where
  "probe_postgresql pgx target e =
     (case postgres_ssl_mode (dt_ssl_mode target) of
        None \<Rightarrow> Some invalid_probe_configuration
      | Some m \<Rightarrow> driver_error (pgx target m e))"

definition probe_mysql ::
  "(database_target \<Rightarrow> tls_mode option \<times> bool \<Rightarrow> pinned_endpoint \<Rightarrow> driver_result) \<Rightarrow> database_target \<Rightarrow> pinned_endpoint \<Rightarrow>
   probe_error option" where
  "probe_mysql driver target e =
     (case mysql_tls_mode (dt_ssl_mode target) (pe_host e) of
        None \<Rightarrow> Some invalid_probe_configuration
      | Some m \<Rightarrow> driver_error (driver target m e))"

text \<open>
  \<open>Execute\<close> on the target it has read; \<open>ended\<close> says whether the context has ended when the
  resolution, and when the driver, has failed.
\<close>

definition jdbc_execute ::
  "(database_target \<Rightarrow> string \<Rightarrow> pinned_endpoint \<Rightarrow> driver_result) \<Rightarrow>
   (database_target \<Rightarrow> tls_mode option \<times> bool \<Rightarrow> pinned_endpoint \<Rightarrow> driver_result) \<Rightarrow> bool \<times> bool \<Rightarrow>
   database_target option \<Rightarrow> egress_guard \<Rightarrow> test_egress_policy \<Rightarrow> probe_result" where
  "jdbc_execute pgx mysql ended found g policy =
     (case found of
        None \<Rightarrow> failed_probe TestPhaseHandshake TestResultHandshakeFailed ''connection.test.configuration''
      | Some target \<Rightarrow>
         (case egress_resolve g (dt_host target) (dt_port target) policy of
            Inl err \<Rightarrow>
              if fst ended then timed_out_probe TestPhaseDNS
              else if err = PolicyDenied then failed_probe TestPhasePolicy TestResultPolicyDenied ''connection.test.egress_policy''
              else failed_probe TestPhaseDNS TestResultDNSFailed ''connection.test.dns''
          | Inr e \<Rightarrow>
             (case (if dt_driver target = JdbcPostgreSQL then probe_postgresql pgx target e else probe_mysql mysql target e) of
                None \<Rightarrow> successful_probe
              | Some err \<Rightarrow> classify_probe_error (snd ended) err)))"

text \<open>The probes of the CDC connectors, which read their target from the fields of the configuration.\<close>

definition cdc_probe ::
  "(database_target \<Rightarrow> string \<Rightarrow> pinned_endpoint \<Rightarrow> driver_result) \<Rightarrow>
   (database_target \<Rightarrow> tls_mode option \<times> bool \<Rightarrow> pinned_endpoint \<Rightarrow> driver_result) \<Rightarrow> bool \<times> bool \<Rightarrow>
   bool \<Rightarrow> probe" where
  "cdc_probe pgx mysql ended postgres c g policy =
     jdbc_execute pgx mysql ended
       (if postgres then target_from_fields c JdbcPostgreSQL 5432 else target_from_fields c JdbcMySQL 3306) g policy"

section \<open>The executor\<close>

record executor_config =
  ex_executor_id :: string
  ex_concurrency :: int
  ex_claim_batch :: int
  ex_claim_interval :: duration
  ex_lease_duration :: duration
  ex_probe_timeout :: duration
  ex_completion_timeout :: duration

definition executor_config_validate :: "executor_config \<Rightarrow> string option" where
  "executor_config_validate c =
     first_err
       [fail_if (length (ex_executor_id c) = 0 \<or> length (ex_executor_id c) > maximum_test_executor_id \<or>
            ex_concurrency c \<le> 0 \<or> ex_concurrency c > 64 \<or> ex_claim_batch c \<le> 0 \<or>
            ex_claim_batch c > ex_concurrency c \<or> ex_claim_batch c > maximum_test_claim_batch)
          ''Connection test executor identity or concurrency is invalid'',
        fail_if (ex_claim_interval c < 100 * 10 ^ 6 \<or> ex_claim_interval c > 60 * 10 ^ 9 \<or>
            ex_probe_timeout c < 10 ^ 9 \<or> ex_probe_timeout c > 2 * 60 * 10 ^ 9 \<or>
            ex_completion_timeout c \<le> 0 \<or> ex_completion_timeout c > 10 * 10 ^ 9 \<or>
            ex_lease_duration c \<le> ex_probe_timeout c + ex_completion_timeout c \<or>
            ex_lease_duration c > maximum_test_lease)
          ''Connection test executor timing is invalid'']"

definition min_time :: "instant \<Rightarrow> instant \<Rightarrow> instant" where
  "min_time l r = (if l < r then l else r)"

text \<open>
  The credential provider is an interface: \<open>Resolve\<close> on the tenant, its namespace and the locator
  fails (None), or gives values whose \<open>Fields\<close> fail (Some None) or are the fields.
\<close>

type_synonym credential_provider =
  "string \<Rightarrow> string \<Rightarrow> secret_locator \<Rightarrow> (string, string) gomap option option"

record executor =
  exe_provider :: credential_provider
  exe_registry :: registry
  exe_guard :: egress_guard
  exe_config :: executor_config

definition secret_failure :: probe_result where
  "secret_failure = failed_probe TestPhaseAuthentication TestResultSecretUnavailable ''connection.test.secret''"

definition executor_probe :: "executor \<Rightarrow> bool \<Rightarrow> test_work \<Rightarrow> probe_result" where
  "executor_probe e ended w =
     (let g = tw_generation w;
          locator = gen_secret_locator (snap_generation g);
          run = (\<lambda>creds.
            case new_configuration (gen_settings (snap_generation g)) creds of
              Inl _ \<Rightarrow> failed_probe TestPhaseHandshake TestResultHandshakeFailed ''connection.test.configuration''
            | Inr c \<Rightarrow> registry_execute (Some (exe_registry e)) (snap_connector g) (Some c) (Some (exe_guard e))
                (test_egress (tw_operation w)))
      in if locator_provider locator = ProviderNone then run []
         else case exe_provider e (snap_tenant_id g) (snap_tenant_namespace g) locator of
           None \<Rightarrow> if ended then timed_out_probe TestPhaseAuthentication else secret_failure
         | Some None \<Rightarrow> secret_failure
         | Some (Some creds) \<Rightarrow> run creds)"

datatype test_outcome = OutcomeSuccess | OutcomeRejected | OutcomeFailure

definition connection_test_outcome :: "test_completion \<Rightarrow> test_outcome" where
  "connection_test_outcome c =
     (if tc_state c = TestSucceeded \<and> tc_success c \<and> tc_result_code c = TestResultOK then OutcomeSuccess
      else if tc_state c = TestFailed \<and> tc_result_code c = TestResultPolicyDenied then OutcomeRejected
      else OutcomeFailure)"

text \<open>
  What the clocks and contexts show during one execution: the time it starts, whether the context
  of the probe has ended when the secret could not be read, whether the executor's own context and
  that of the probe have ended after it, and the time the completion is written.
\<close>

record attempt =
  at_started :: instant
  at_ended_in_secret :: bool
  at_executor_ended :: bool
  at_probe_ended :: bool
  at_completed :: instant

definition attempt_deadline :: "executor_config \<Rightarrow> attempt \<Rightarrow> test_work \<Rightarrow> instant" where
  "attempt_deadline c a w =
     min_time (min_time (test_deadline_at (tw_operation w)) (at_started a + ex_probe_timeout c))
       (tw_lease_expires_at w - ex_completion_timeout c)"

definition attempt_result :: "executor \<Rightarrow> attempt \<Rightarrow> test_work \<Rightarrow> probe_result" where
  "attempt_result e a w =
     (if attempt_deadline (exe_config e) a w > at_started a then
        if at_executor_ended a then canceled_probe TestPhaseHandshake
        else if at_probe_ended a then timed_out_probe TestPhaseHandshake
        else executor_probe e (at_ended_in_secret a) w
      else timed_out_probe TestPhasePolicy)"

definition attempt_completion :: "executor \<Rightarrow> attempt \<Rightarrow> test_work \<Rightarrow> test_completion" where
  "attempt_completion e a w =
     (case probe_completion (attempt_result e a w) of
        (c, None) \<Rightarrow> c
      | (_, Some _) \<Rightarrow> fst (probe_completion executor_failure))"

text \<open>The error of an execution, the outcome it observes, and the repository it leaves.\<close>

definition execute ::
  "(string \<Rightarrow> bool) \<Rightarrow> executor \<Rightarrow> attempt \<Rightarrow> test_work \<Rightarrow> conn_repo \<Rightarrow>
   (conn_error list \<times> (string \<times> test_outcome) list) \<times> conn_repo" where
  "execute uuid_ok e a w r =
     (let c = attempt_completion e a w;
          op_id = test_operation_id (tw_operation w)
      in case complete_test uuid_ok r op_id (ex_executor_id (exe_config e)) c (at_completed a) of
           (Inl TestLeaseLost, r') \<Rightarrow> (([], []), r')
         | (Inl err, r') \<Rightarrow> (([err], []), r')
         | (Inr _, r') \<Rightarrow> (([], [(op_id, connection_test_outcome c)]), r'))"

fun execute_all ::
  "(string \<Rightarrow> bool) \<Rightarrow> executor \<Rightarrow> (test_work \<Rightarrow> attempt) \<Rightarrow> test_work list \<Rightarrow> conn_repo \<Rightarrow>
   (conn_error list \<times> (string \<times> test_outcome) list) \<times> conn_repo" where
  "execute_all uuid_ok e attempts [] r = (([], []), r)"
| "execute_all uuid_ok e attempts (w # ws) r =
     (case execute uuid_ok e (attempts w) w r of
        ((errs, obs), r') \<Rightarrow>
          (case execute_all uuid_ok e attempts ws r' of
             ((errs', obs'), r'') \<Rightarrow> ((errs @ errs', obs @ obs'), r'')))"

text \<open>
  A round: the executions run concurrently and complete in some order. The result is the number
  claimed, the errors joined and the outcomes observed.
\<close>

record round =
  rn_ended :: bool
  rn_now :: instant
  rn_attempts :: "test_work \<Rightarrow> attempt"
  rn_order :: "test_work list \<Rightarrow> test_work list"
  rn_ended_in_wait :: bool

definition run_once ::
  "(string \<Rightarrow> bool) \<Rightarrow> executor \<Rightarrow> round \<Rightarrow> conn_repo \<Rightarrow>
   (int \<times> conn_error list \<times> (string \<times> test_outcome) list) \<times> conn_repo" where
  "run_once uuid_ok e n r =
     (if rn_ended n then ((0, [], []), r)
      else
        (let c = exe_config e;
             r1 = snd (expire_tests r (rn_now n))
         in case claim_tests uuid_ok r1 (ex_executor_id c) (ex_claim_batch c) (ex_lease_duration c) (rn_now n) of
              (Inl err, r2) \<Rightarrow> ((0, [err], []), r2)
            | (Inr ws, r2) \<Rightarrow>
                (case execute_all uuid_ok e (rn_attempts n) (rn_order n ws) r2 of
                   ((errs, obs), r3) \<Rightarrow> ((int (length ws), errs, obs), r3))))"

text \<open>\<open>Run\<close>, over the rounds that the clock and the context give it.\<close>

fun executor_run ::
  "(string \<Rightarrow> bool) \<Rightarrow> executor \<Rightarrow> round list \<Rightarrow> conn_repo \<Rightarrow> conn_error list \<times> conn_repo" where
  "executor_run uuid_ok e [] r = ([], r)"
| "executor_run uuid_ok e (n # ns) r =
     (case run_once uuid_ok e n r of
        ((claimed, errs, _), r') \<Rightarrow>
          if errs \<noteq> [] then (errs, r')
          else if claimed \<noteq> ex_claim_batch (exe_config e) \<and> rn_ended_in_wait n then ([], r')
          else executor_run uuid_ok e ns r')"

section \<open>The guard confines the traffic\<close>

lemma hard_denied_prefixes_eq:
  "hard_denied_prefixes =
     [\<lparr>pf_addr = Ip4 0, pf_bits = 8\<rparr>, \<lparr>pf_addr = Ip4 (127 * 2 ^ 24), pf_bits = 8\<rparr>,
      \<lparr>pf_addr = Ip4 ((169 * 256 + 254) * 2 ^ 16), pf_bits = 16\<rparr>, \<lparr>pf_addr = Ip4 (14 * 2 ^ 28), pf_bits = 4\<rparr>,
      \<lparr>pf_addr = Ip4 (15 * 2 ^ 28), pf_bits = 4\<rparr>, \<lparr>pf_addr = Ip6 0 [], pf_bits = 128\<rparr>,
      \<lparr>pf_addr = Ip6 1 [], pf_bits = 128\<rparr>, \<lparr>pf_addr = Ip6 (0xFE80 * 2 ^ 112) [], pf_bits = 10\<rparr>,
      \<lparr>pf_addr = Ip6 (0xFF * 2 ^ 120) [], pf_bits = 8\<rparr>, \<lparr>pf_addr = Ip4 0x646464C8, pf_bits = 32\<rparr>,
      \<lparr>pf_addr = Ip6 0xFD000EC2000000000000000000000254 [], pf_bits = 128\<rparr>]"
  by code_simp

lemma restricted_prefixes_eq:
  "restricted_prefixes =
     [\<lparr>pf_addr = Ip4 (401 * 2 ^ 22), pf_bits = 10\<rparr>, \<lparr>pf_addr = Ip4 (192 * 2 ^ 24), pf_bits = 24\<rparr>,
      \<lparr>pf_addr = Ip4 (25353 * 2 ^ 17), pf_bits = 15\<rparr>, \<lparr>pf_addr = Ip6 (126 * 2 ^ 121) [], pf_bits = 7\<rparr>]"
  by code_simp

text \<open>
  The destinations no policy opens, and those that a policy must name, by the numbers of their
  addresses. With a zone, \<open>net/netip\<close> puts an address in no prefix and does not count \<open>::\<close> as
  unspecified, and the guard does not refuse \<open>::%zone\<close>; the metadata address with a zone is left to the
  private addresses, where no block contains it.
\<close>

fun forbidden_address :: "ip_addr \<Rightarrow> bool" where
  "forbidden_address IpInvalid = True"
| "forbidden_address (Ip4 n) =
     (n div 2 ^ 24 \<in> {0, 127} \<or> n div 2 ^ 16 = 169 * 256 + 254 \<or> n div 2 ^ 28 \<in> {14, 15} \<or>
      n = ((100 * 256 + 100) * 256 + 100) * 256 + 200)"
| "forbidden_address (Ip6 n z) =
     (n div 2 ^ 32 = 0xFFFF \<or> n = 1 \<or> n div 2 ^ 118 = 0xFE80 div 64 \<or> n div 2 ^ 120 = 0xFF \<or>
      z = [] \<and> n \<in> {0, 0xFD000EC2000000000000000000000254})"

fun private_address :: "ip_addr \<Rightarrow> bool" where
  "private_address IpInvalid = False"
| "private_address (Ip4 n) =
     (n div 2 ^ 24 = 10 \<or> n div 2 ^ 20 = 172 * 16 + 1 \<or> n div 2 ^ 16 = 192 * 256 + 168 \<or>
      n div 2 ^ 22 = 100 * 4 + 1 \<or> n div 2 ^ 8 = 192 * 65536 \<or> n div 2 ^ 17 = 198 * 128 + 9)"
| "private_address (Ip6 n z) = (n div 2 ^ 121 = 0xFC div 2)"

lemma forbidden_denied:
  assumes "\<not> is4in6 a"
  shows "forbidden_address a \<Longrightarrow> hard_denied a"
  using assms
  by (cases a) (auto simp: hard_denied_def hard_denied_prefixes_eq prefixes_contain_def prefix_contains_def leading_def
      is_valid_addr_def is_loopback_def is_link_local_unicast_def is_multicast_def is_unspecified_def)

lemma private_restricted:
  assumes "\<not> is4in6 a" and "private_address a"
  shows "requires_explicit_allow a protected"
  using assms
  by (cases a) (auto simp: requires_explicit_allow_def restricted_prefixes_eq prefixes_contain_def prefix_contains_def
      leading_def is_private_def)

lemma unmap_not_mapped [simp]: "\<not> is4in6 (unmap a)"
  by (cases a) auto

lemma canonical_loop_set:
  "set (canonical_loop result vs) = set result \<union> {a \<in> unmap ` set vs. is_valid_addr a}"
  by (induction result vs rule: canonical_loop.induct) (auto simp: Let_def)

lemma canonical_loop_distinct: "distinct result \<Longrightarrow> distinct (canonical_loop result vs)"
  by (induction result vs rule: canonical_loop.induct) (auto simp: Let_def)

lemma canonical_addresses_props:
  "distinct (canonical_addresses vs)" "a \<in> set (canonical_addresses vs) \<Longrightarrow> \<not> is4in6 a"
  by (auto simp: canonical_addresses_def canonical_loop_distinct canonical_loop_set)

lemma parse_blocks_set:
  "parse_blocks trim vs = Some ps \<Longrightarrow>
   prefixes_contain ps a \<longleftrightarrow> (\<exists>v \<in> set vs. \<exists>p. parse_prefix (trim v) = Some p \<and> prefix_contains p a)"
proof (induction trim vs arbitrary: ps rule: parse_blocks.induct)
  case (2 trim v vs)
  then obtain p qs where "parse_prefix (trim v) = Some p" "parse_blocks trim vs = Some qs" "ps = masked p # qs"
    by (auto split: option.splits)
  with 2 show ?case by (auto simp: prefixes_contain_def prefix_contains_masked simp del: masked.simps)
qed (simp add: prefixes_contain_def)

lemma dial_loop_dialled:
  "set (snd (dial_loop dial timeout network port as)) \<subseteq> set as \<and>
   length (snd (dial_loop dial timeout network port as)) \<le> length as"
  by (induction dial timeout network port as rule: dial_loop.induct) (auto split: dial_result.splits prod.splits)

lemma dial_context_dialled:
  "set (snd (dial_context dial e network address)) \<subseteq> set (pe_addresses e) \<and>
   length (snd (dial_context dial e network address)) \<le> nat (pe_max_attempts e)"
proof -
  let ?as = "take (nat (min (pe_max_attempts e) (int (length (pe_addresses e))))) (pe_addresses e)"
  have "set ?as \<subseteq> set (pe_addresses e)" "length ?as \<le> nat (pe_max_attempts e)"
    by (auto dest: in_set_takeD)
  moreover have "set (snd (dial_loop dial (pe_dial_timeout e) n p ?as)) \<subseteq> set ?as"
    "length (snd (dial_loop dial (pe_dial_timeout e) n p ?as)) \<le> length ?as" for n p
    using dial_loop_dialled by blast+
  ultimately have "set (snd (dial_loop dial (pe_dial_timeout e) n p ?as)) \<subseteq> set (pe_addresses e) \<and>
      length (snd (dial_loop dial (pe_dial_timeout e) n p ?as)) \<le> nat (pe_max_attempts e)" for n p
    using order_trans by blast
  then show ?thesis by (simp add: dial_context_def split: option.split prod.split)
qed

lemma egress_resolve_inr:
  assumes "egress_resolve g host port policy = Inr e"
  obtains found allowed where "pe_addresses e = canonical_addresses found"
    and "parse_blocks (\<lambda>v. v) (pol_allowed_cidrs policy) = Some allowed"
    and "\<And>a. a \<in> set (pe_addresses e) \<Longrightarrow> \<not> egress_denied g allowed a"
    and "pe_max_attempts e = eg_maximum_dial_attempts g"
  using assms that
  by (auto simp: egress_resolve_def Let_def list_ex_iff split: option.splits if_splits sum.splits)

text \<open>
  C7. A connection test reaches no destination its policy does not open. Whatever the name service
  answers, whatever name or literal the connection has, and however a driver dials, every address
  dialled is outside the loopback, link-local, multicast, reserved and metadata ranges, is not an
  IPv4-mapped one, and is private or protected only where a block of the policy contains it; at
  most two addresses are dialled.
\<close>

theorem egress_confined:
  assumes "new_egress_guard resolver protected maximum timeout = Inr g"
    and "egress_resolve g host port policy = Inr e"
    and "a \<in> set (snd (dial_context dial e network address))"
  shows "\<not> forbidden_address a \<and>
    (private_address a \<or> (\<exists>c \<in> set protected. \<exists>p. parse_prefix (trim_space c) = Some p \<and> prefix_contains p a) \<longrightarrow>
      (\<exists>c \<in> set (pol_allowed_cidrs policy). \<exists>p. parse_prefix c = Some p \<and> prefix_contains p a)) \<and>
    length (snd (dial_context dial e network address)) \<le> 2"
proof -
  obtain ps where ps: "parse_blocks trim_space protected = Some ps" "eg_protected g = ps" "eg_maximum_dial_attempts g = 2"
    using assms(1)
    by (auto simp: new_egress_guard_def Let_def maximum_connection_attempts_def split: if_splits option.splits)
  obtain found allowed where e: "pe_addresses e = canonical_addresses found"
    "parse_blocks (\<lambda>v. v) (pol_allowed_cidrs policy) = Some allowed" "pe_max_attempts e = 2"
    and ok: "\<And>a. a \<in> set (pe_addresses e) \<Longrightarrow> \<not> egress_denied g allowed a"
    using egress_resolve_inr [OF assms(2)] ps(3) by metis
  have a: "a \<in> set (pe_addresses e)" "length (snd (dial_context dial e network address)) \<le> 2"
    using dial_context_dialled [of dial e network address] assms(3) e(3) by auto
  have mapped: "\<not> is4in6 a" using a(1) e(1) canonical_addresses_props(2) by simp
  then have same: "unmap a = a" by (cases a) auto
  have ok: "\<not> hard_denied a" "requires_explicit_allow a ps \<longrightarrow> prefixes_contain allowed a"
    using ok [OF a(1)] ps(2) by (auto simp: egress_denied_def)
  have "requires_explicit_allow a ps" if "prefixes_contain ps a"
    using that same by (simp add: requires_explicit_allow_def)
  then show ?thesis
    using ok forbidden_denied [OF mapped] private_restricted [OF mapped] a(2)
      parse_blocks_set [OF ps(1)] parse_blocks_set [OF e(2)] by blast
qed

section \<open>Claimed tests finish\<close>

text \<open>A test that the repository holds for an executor, as the work it was given says.\<close>

definition held :: "(string \<Rightarrow> bool) \<Rightarrow> string \<Rightarrow> conn_repo \<Rightarrow> test_work \<Rightarrow> bool" where
  "held u executor r w \<longleftrightarrow>
     (let t = tw_operation w; c = claim_of r (test_operation_id t)
      in gget (cr_tests r) (test_operation_id t) = Some t \<and> test_state t = TestRunning \<and> test_validate u t = None \<and>
         tcl_executor_id c = executor \<and> tcl_lease_expires_at c = tw_lease_expires_at w)"

abbreviation work_id :: "test_work \<Rightarrow> string" where
  "work_id w \<equiv> test_operation_id (tw_operation w)"

text \<open>A completion written before the lease and the deadline run out, and not before the start.\<close>

definition timely :: "attempt \<Rightarrow> test_work \<Rightarrow> bool" where
  "timely a w \<longleftrightarrow> at_completed a < tw_lease_expires_at w \<and> at_completed a < test_deadline_at (tw_operation w) \<and>
     opt_all (\<lambda>s. s \<le> at_completed a) (test_started_at (tw_operation w))"

lemma held_frame:
  "held u executor r w \<Longrightarrow> gget (cr_tests r') (work_id w) = gget (cr_tests r) (work_id w) \<Longrightarrow>
   gget (cr_claims r') (work_id w) = gget (cr_claims r) (work_id w) \<Longrightarrow> held u executor r' w"
  by (simp add: held_def claim_of_def Let_def)

lemma claim_one_held:
  assumes "claim_one u executor lease now r (op_id, t) = (Inr w, r')" and "test_operation_id t = op_id"
  shows "held u executor r' w" and "work_id w = op_id"
    and "k \<noteq> op_id \<Longrightarrow> gget (cr_tests r') k = gget (cr_tests r) k \<and> gget (cr_claims r') k = gget (cr_claims r) k"
proof -
  have op: "test_operation_id (run_test now t) = op_id" "test_state (run_test now t) = TestRunning"
    using assms(2) by (simp_all add: run_test_def)
  show "held u executor r' w" and "work_id w = op_id"
    and "k \<noteq> op_id \<Longrightarrow> gget (cr_tests r') k = gget (cr_tests r) k \<and> gget (cr_claims r') k = gget (cr_claims r) k"
    using assms(1) op
    by (auto simp: claim_one_def held_def claim_of_def Let_def work_validate_def split: option.splits if_splits)
qed

lemma claim_loop_held:
  "claim_loop u executor lease now es r = (Inr ws, r') \<Longrightarrow> distinct (map fst es) \<Longrightarrow>
   (\<And>op_id t. (op_id, t) \<in> set es \<Longrightarrow> test_operation_id t = op_id) \<Longrightarrow>
   map work_id ws = map fst es \<and> (\<forall>w \<in> set ws. held u executor r' w) \<and>
   (\<forall>k. k \<notin> fst ` set es \<longrightarrow> gget (cr_tests r') k = gget (cr_tests r) k \<and> gget (cr_claims r') k = gget (cr_claims r) k)"
proof (induction es arbitrary: r ws)
  case (Cons e es)
  obtain op_id t where e: "e = (op_id, t)" by force
  obtain w ws' r1 where one: "claim_one u executor lease now r (op_id, t) = (Inr w, r1)"
    and rest: "claim_loop u executor lease now es r1 = (Inr ws', r')" and ws: "ws = w # ws'"
    using Cons.prems(1) e by (auto split: prod.splits sum.splits)
  have id: "test_operation_id t = op_id" using Cons.prems(3) e by simp
  have IH: "map work_id ws' = map fst es" "\<forall>w \<in> set ws'. held u executor r' w"
    "\<And>k. k \<notin> fst ` set es \<Longrightarrow> gget (cr_tests r') k = gget (cr_tests r1) k \<and> gget (cr_claims r') k = gget (cr_claims r1) k"
    using Cons.IH [OF rest] Cons.prems(2,3) by auto
  have "op_id \<notin> fst ` set es" using Cons.prems(2) e by auto
  then have "held u executor r' w"
    using held_frame [OF claim_one_held(1) [OF one id]] IH(3) [of op_id] claim_one_held(2) [OF one id] by simp
  then show ?case using IH claim_one_held(2,3) [OF one id] ws e by auto
qed simp

lemma claim_tests_held:
  assumes "tests_inv u r" and "claim_tests u r executor limit lease now = (Inr ws, r')"
  shows "distinct (map work_id ws) \<and> (\<forall>w \<in> set ws. held u executor r' w) \<and>
    \<not> blank executor \<and> length executor \<le> maximum_test_executor_id"
proof -
  let ?r1 = "snd (expire_locked r now)"
  let ?es = "take (nat limit) (claim_candidates ?r1 now)"
  have cand: "distinct (map fst ?es)" "(op_id, t) \<in> set ?es \<Longrightarrow> gget (cr_tests ?r1) op_id = Some t" for op_id t
    using claim_candidates_ok [of u ?r1 now, OF expire_locked_inv(1) [OF assms(1)]] expire_locked_inv(2) [OF assms(1)]
    by blast+
  obtain r2 where loop: "claim_loop u executor lease now ?es ?r1 = (Inr ws, r2)"
    and r': "r' = (if ws \<noteq> [] then bump_revision r2 else r2)"
    and ok: "\<not> blank executor" "length executor \<le> maximum_test_executor_id"
    using assms(2) by (auto simp: claim_tests_def Let_def split: if_splits prod.splits sum.splits)
  have id: "test_operation_id t = op_id" if "(op_id, t) \<in> set ?es" for op_id t
    using cand(2) [OF that] expire_locked_inv(1) [OF assms(1), of now] by (auto simp: tests_inv_def test_inv_def)
  have "held u executor r' w" if "held u executor r2 w" for w
    using that by (rule held_frame) (simp_all add: r' bump_revision_def)
  then show ?thesis using claim_loop_held [OF loop cand(1) id] cand(1) ok by auto
qed

lemma executor_failure_ok: "snd (probe_completion executor_failure) = None"
  by code_simp

lemma attempt_completion_ok: "completion_validate (attempt_completion e a w) = None"
  using executor_failure_ok
  by (auto simp: attempt_completion_def probe_completion_def Let_def split: option.splits)

lemma finished_ok:
  assumes "test_validate u t = None" and "test_state t = TestRunning" and "completion_validate c = None"
    and "opt_all (\<lambda>s. s \<le> now) (test_started_at t)"
  shows "test_validate u (finish_test c now t) = None" and "\<not> test_active (finish_test c now t)"
proof -
  have running: "\<exists>s. test_started_at t = Some s" using assms(1,2) by (auto simp: test_validate_def)
  have same: "test_as_completion (finish_test c now t) = c" by (simp add: test_as_completion_def finish_test_def)
  have terminal: "tc_state c \<in> {TestSucceeded, TestFailed, TestTimedOut, TestCanceled}"
    using assms(3) by (auto simp: completion_validate_def)
  have "terminal_test_validate (finish_test c now t) = None"
    using running assms(3,4) same
    by (auto simp: terminal_test_validate_def completed_after_start_def finish_test_def [of c now t])
  then have "test_state_validate (finish_test c now t) = None"
    using terminal by (auto simp: finish_test_def [of c now t])
  then show "test_validate u (finish_test c now t) = None"
    using assms(1) by (simp add: test_validate_def) (simp add: finish_test_def)
  show "\<not> test_active (finish_test c now t)" using terminal by (auto simp: test_active_def finish_test_def)
qed

lemma execute_done:
  assumes "held u (ex_executor_id (exe_config e)) r w" and "timely a w"
    and "\<not> blank (ex_executor_id (exe_config e))" and "length (ex_executor_id (exe_config e)) \<le> maximum_test_executor_id"
  defines "c \<equiv> attempt_completion e a w"
  obtains r' where "execute u e a w r = (([], [(work_id w, connection_test_outcome c)]), r')"
    and "gget (cr_tests r') (work_id w) = Some (finish_test c (at_completed a) (tw_operation w))"
    and "\<And>k. k \<noteq> work_id w \<Longrightarrow> gget (cr_tests r') k = gget (cr_tests r) k \<and> gget (cr_claims r') k = gget (cr_claims r) k"
proof -
  let ?t = "tw_operation w"
  have t: "gget (cr_tests r) (work_id w) = Some ?t" "test_state ?t = TestRunning" "test_validate u ?t = None"
    "tcl_executor_id (claim_of r (work_id w)) = ex_executor_id (exe_config e)"
    "tcl_lease_expires_at (claim_of r (work_id w)) = tw_lease_expires_at w"
    using assms(1) by (simp_all add: held_def Let_def)
  have c: "completion_validate c = None" unfolding c_def by (rule attempt_completion_ok)
  have "test_validate u (finish_test c (at_completed a) ?t) = None"
    using finished_ok(1) [OF t(3,2) c] assms(2) by (simp add: timely_def)
  then have "\<exists>r'. complete_test u r (work_id w) (ex_executor_id (exe_config e)) c (at_completed a) =
      (Inr (finish_test c (at_completed a) ?t), r') \<and>
      cr_tests r' = gput (work_id w) (finish_test c (at_completed a) ?t) (cr_tests r) \<and>
      cr_claims r' = gdel (work_id w) (cr_claims r)"
    using t c assms(2-4) by (simp add: complete_test_def timely_def Let_def)
  then obtain r' where "complete_test u r (work_id w) (ex_executor_id (exe_config e)) c (at_completed a) =
      (Inr (finish_test c (at_completed a) ?t), r')"
    and "cr_tests r' = gput (work_id w) (finish_test c (at_completed a) ?t) (cr_tests r)"
    and "cr_claims r' = gdel (work_id w) (cr_claims r)" by blast
  then show ?thesis using that [of r'] by (simp add: execute_def c_def Let_def)
qed

lemma execute_all_done:
  assumes "distinct (map work_id ws)" and "\<forall>w \<in> set ws. held u (ex_executor_id (exe_config e)) r w"
    and "\<forall>w \<in> set ws. timely (attempts w) w"
    and "\<not> blank (ex_executor_id (exe_config e))" and "length (ex_executor_id (exe_config e)) \<le> maximum_test_executor_id"
  shows "\<exists>r'. execute_all u e attempts ws r =
      (([], map (\<lambda>w. (work_id w, connection_test_outcome (attempt_completion e (attempts w) w))) ws), r') \<and>
    (\<forall>w \<in> set ws. gget (cr_tests r') (work_id w) =
      Some (finish_test (attempt_completion e (attempts w) w) (at_completed (attempts w)) (tw_operation w))) \<and>
    (\<forall>k. k \<notin> work_id ` set ws \<longrightarrow> gget (cr_tests r') k = gget (cr_tests r) k)"
  using assms(1-3)
proof (induction ws arbitrary: r)
  case (Cons w ws)
  obtain r1 where one: "execute u e (attempts w) w r =
      (([], [(work_id w, connection_test_outcome (attempt_completion e (attempts w) w))]), r1)"
    and t1: "gget (cr_tests r1) (work_id w) =
      Some (finish_test (attempt_completion e (attempts w) w) (at_completed (attempts w)) (tw_operation w))"
    and same: "\<And>k. k \<noteq> work_id w \<Longrightarrow> gget (cr_tests r1) k = gget (cr_tests r) k \<and> gget (cr_claims r1) k = gget (cr_claims r) k"
    by (rule execute_done [OF _ _ assms(4,5), of u r w "attempts w"]) (use Cons.prems in auto)
  have fresh: "work_id w \<notin> work_id ` set ws" and distinct: "distinct (map work_id ws)"
    using Cons.prems(1) by auto
  have held: "\<forall>v \<in> set ws. held u (ex_executor_id (exe_config e)) r1 v"
  proof
    fix v assume v: "v \<in> set ws"
    then have "work_id v \<noteq> work_id w" using fresh imageI [OF v, of work_id] by metis
    from same [OF this] show "held u (ex_executor_id (exe_config e)) r1 v"
      using held_frame [of u _ r v r1] Cons.prems(2) v by simp
  qed
  obtain r2 where rest: "execute_all u e attempts ws r1 =
      (([], map (\<lambda>w. (work_id w, connection_test_outcome (attempt_completion e (attempts w) w))) ws), r2)"
    and "\<forall>w \<in> set ws. gget (cr_tests r2) (work_id w) =
      Some (finish_test (attempt_completion e (attempts w) w) (at_completed (attempts w)) (tw_operation w))"
    and "\<And>k. k \<notin> work_id ` set ws \<Longrightarrow> gget (cr_tests r2) k = gget (cr_tests r1) k"
    using Cons.IH [OF distinct held] Cons.prems(3) by force
  then show ?case using one t1 same fresh by simp
qed simp

text \<open>
  C25. Every test an executor claims is finished in that round, whatever the probe does and in
  whatever order the concurrent executions complete, provided each completion is written before
  the lease and the deadline and not before the start of the test: the round reports no error,
  observes one outcome for each test, and each test is stored in a valid final state with the
  result of its attempt.
\<close>

theorem claimed_tests_finish:
  assumes "list_all queued_op ops" and "\<not> rn_ended n"
    and "claim_tests u (snd (expire_tests (conn_run u ops) (rn_now n))) (ex_executor_id (exe_config e))
      (ex_claim_batch (exe_config e)) (ex_lease_duration (exe_config e)) (rn_now n) = (Inr ws, r2)"
    and "mset (rn_order n ws) = mset ws" and "\<forall>w \<in> set ws. timely (rn_attempts n w) w"
  shows "\<exists>obs r3. run_once u e n (conn_run u ops) = ((int (length ws), [], obs), r3) \<and> length obs = length ws \<and>
    (\<forall>w \<in> set ws. \<exists>t. get_test r3 (test_tenant_id (tw_operation w)) (work_id w) = Inr t \<and> \<not> test_active t \<and>
      test_validate u t = None \<and> test_result_code t = tc_result_code (attempt_completion e (rn_attempts n w) w))"
proof -
  let ?r1 = "snd (expire_tests (conn_run u ops) (rn_now n))" and ?id = "ex_executor_id (exe_config e)"
  have "tests_inv u ?r1"
    using expire_locked_inv(1) [of u "conn_run u ops" "rn_now n"] conn_run_inv [OF assms(1), of u]
      tests_inv_cong [of ?r1 "snd (expire_locked (conn_run u ops) (rn_now n))" u]
    by (simp add: expire_tests_def case_prod_unfold)
  note claimed = claim_tests_held [OF this assms(3)]
  have order: "set (rn_order n ws) = set ws" "length (rn_order n ws) = length ws"
    "distinct (map work_id (rn_order n ws))"
    using assms(4) claimed mset_eq_setD mset_eq_length by (blast, blast, metis mset_eq_imp_distinct_iff mset_map)
  have held: "\<forall>w \<in> set (rn_order n ws). held u ?id r2 w" "\<forall>w \<in> set (rn_order n ws). timely (rn_attempts n w) w"
    using claimed order(1) assms(5) by auto
  obtain obs r3 where run: "execute_all u e (rn_attempts n) (rn_order n ws) r2 = (([], obs), r3)"
    and obs: "length obs = length ws"
    and final: "\<forall>w \<in> set ws. gget (cr_tests r3) (work_id w) =
      Some (finish_test (attempt_completion e (rn_attempts n w) w) (at_completed (rn_attempts n w)) (tw_operation w))"
    using execute_all_done [OF order(3) held] claimed order(1,2) by auto
  have "\<exists>t. get_test r3 (test_tenant_id (tw_operation w)) (work_id w) = Inr t \<and> \<not> test_active t \<and>
      test_validate u t = None \<and> test_result_code t = tc_result_code (attempt_completion e (rn_attempts n w) w)"
    if w: "w \<in> set ws" for w
  proof -
    have h: "test_validate u (tw_operation w) = None" "test_state (tw_operation w) = TestRunning"
      using claimed w by (auto simp: held_def Let_def)
    show ?thesis
      using finished_ok [OF h attempt_completion_ok] assms(5) final w
      by (auto simp: get_test_def timely_def finish_test_def)
  qed
  then show ?thesis using run obs assms(2,3) by (simp add: run_once_def Let_def)
qed

section \<open>Sample probes\<close>

definition sample_policy :: test_egress_policy where
  "sample_policy = \<lparr>pol_revision = policy_revision [''10.0.0.0/8''], pol_allowed_cidrs = [''10.0.0.0/8'']\<rparr>"

lemma sample_policy_ok: "policy_validate sample_policy = None"
proof -
  have "canonical_cidrs [] [''10.0.0.0/8''] = Some [''10.0.0.0/8'']" by code_simp
  then show ?thesis
    by (simp add: sample_policy_def policy_validate_def new_test_egress_policy_def policy_revision_ok
        maximum_test_policy_cidrs_def Let_def)
qed

text \<open>A guard whose name service answers with the IPv4-mapped form of 10.1.2.3.\<close>

definition sample_guard :: egress_guard where
  "sample_guard = \<lparr>eg_resolver = Some (\<lambda>_. Inr [Ip6 (0xFFFF * 2 ^ 32 + 0x0A010203) []]), eg_protected = [],
     eg_maximum_dns_addresses = 8, eg_dial_timeout = 10 ^ 9, eg_maximum_dial_attempts = 2\<rparr>"

definition sample_endpoint :: pinned_endpoint where
  "sample_endpoint = \<lparr>pe_host = ''db.example.com'', pe_port = 5432, pe_addresses = [Ip4 0x0A010203],
     pe_dial_timeout = 10 ^ 9, pe_max_attempts = 2\<rparr>"

lemma sample_guard_new: "new_egress_guard (eg_resolver sample_guard) [] 0 (10 ^ 9) = Inr sample_guard"
  by (simp add: sample_guard_def new_egress_guard_def default_maximum_dns_addresses_def maximum_connection_attempts_def)

lemma sample_resolved: "egress_resolve sample_guard ''db.example.com.'' 5432 sample_policy = Inr sample_endpoint"
proof -
  have "valid_host ''db.example.com''" "trim_suffix (CHR ''.'') (trim_space ''db.example.com.'') = ''db.example.com''"
    "parse_addr (trim_chars ''[]'' ''db.example.com'') = None"
    "canonical_addresses [Ip6 (0xFFFF * 2 ^ 32 + 0x0A010203) []] = [Ip4 0x0A010203]"
    "parse_blocks (\<lambda>v. v) [''10.0.0.0/8''] = Some [\<lparr>pf_addr = Ip4 0x0A000000, pf_bits = 8\<rparr>]"
    "\<not> hard_denied (Ip4 0x0A010203)" "prefixes_contain [\<lparr>pf_addr = Ip4 0x0A000000, pf_bits = 8\<rparr>] (Ip4 0x0A010203)"
    by code_simp+
  then show ?thesis
    using sample_policy_ok
    by (simp add: egress_resolve_def resolve_addresses_def egress_denied_def sample_guard_def sample_policy_def
        sample_endpoint_def Let_def)
qed

theorem egress_confined_witness:
  "snd (dial_context (\<lambda>_ _ _. Unreachable) sample_endpoint ''tcp'' ''db.example.com:5432'') = [Ip4 0x0A010203] \<and>
   \<not> forbidden_address (Ip4 0x0A010203) \<and> private_address (Ip4 0x0A010203) \<and>
   (\<exists>c \<in> set (pol_allowed_cidrs sample_policy). \<exists>p. parse_prefix c = Some p \<and> prefix_contains p (Ip4 0x0A010203))"
proof -
  have d: "snd (dial_context (\<lambda>_ _ _. Unreachable) sample_endpoint ''tcp'' ''db.example.com:5432'') = [Ip4 0x0A010203]"
    by code_simp
  moreover have "private_address (Ip4 0x0A010203)" by simp
  ultimately show ?thesis
    using egress_confined [OF sample_guard_new sample_resolved,
      of "Ip4 0x0A010203" "\<lambda>_ _ _. Unreachable" "''tcp''" "''db.example.com:5432''"] by simp
qed

text \<open>An executor whose probe of the sample connector succeeds, and a round that claims the sample test.\<close>

definition sample_executor :: executor where
  "sample_executor = \<lparr>exe_provider = (\<lambda>_ _ _. None), exe_registry = [(''jdbc'', \<lambda>_ _ _. successful_probe)],
     exe_guard = sample_guard,
     exe_config = \<lparr>ex_executor_id = ''executor'', ex_concurrency = 4, ex_claim_batch = 2, ex_claim_interval = 10 ^ 9,
       ex_lease_duration = 60 * 10 ^ 9, ex_probe_timeout = 10 ^ 9, ex_completion_timeout = 10 ^ 9\<rparr>\<rparr>"

definition sample_round :: round where
  "sample_round = \<lparr>rn_ended = False, rn_now = 210,
     rn_attempts = (\<lambda>_. \<lparr>at_started = 220, at_ended_in_secret = False, at_executor_ended = False, at_probe_ended = False,
       at_completed = 250\<rparr>), rn_order = rev, rn_ended_in_wait = False\<rparr>"

definition sample_snapshot :: generation_snapshot where
  "sample_snapshot = \<lparr>snap_tenant_id = sample_tenant, snap_tenant_namespace = ''tenant-00000000'',
     snap_connection_uid = sample_connection_uid, snap_connector = ''jdbc'', snap_generation = sample_generation\<rparr>"

definition sample_work :: test_work where
  "sample_work = \<lparr>tw_operation = run_test 210 (sample_test (fst sample_op_ids)), tw_generation = sample_snapshot,
     tw_executor_id = ''executor'', tw_attempt = 1, tw_lease_expires_at = 210 + 60 * 10 ^ 9\<rparr>"

lemma sample_work_ok: "work_validate uuid_length sample_work = None"
proof -
  have "test_inv uuid_length (fst sample_op_ids) (run_test 210 (sample_test (fst sample_op_ids)))"
    using sample_test_ok [of "fst sample_op_ids"]
    by (intro run_test_inv) (simp_all add: test_inv_def sample_op_ids_def sample_test_def test_active_def)
  then have "test_validate uuid_length (tw_operation sample_work) = None"
    by (simp add: test_inv_def sample_work_def)
  moreover have "snapshot_validate uuid_length sample_snapshot = None" "\<not> blank ''executor''"
    by code_simp+
  ultimately show ?thesis
    by (simp add: work_validate_def sample_work_def run_test_def maximum_test_executor_id_def is_zero_def)
      (simp add: sample_test_def sample_snapshot_def sample_generation_def)
qed

lemma apply_locked_claims: "cr_claims (snd (apply_locked u r m)) = cr_claims r"
  by (cases "cm_kind m") (simp_all add: apply_locked_def effect_defs Let_def split: option.split)

lemma conn_apply_claims: "cr_claims (snd (conn_apply u r m)) = cr_claims r"
  by (rule conn_apply_cases [of u r m]) (use apply_locked_claims [of u r m] in \<open>simp_all add: bump_revision_def\<close>)

lemma sample_claimed:
  "\<exists>r. claim_tests uuid_length (snd (expire_tests (conn_run uuid_length sample_conn_ops) 210)) ''executor'' 2 (60 * 10 ^ 9) 210 =
     (Inr [sample_work], r)"
proof -
  let ?r = "conn_run uuid_length sample_conn_ops" and ?t = "sample_test (fst sample_op_ids)"
  have still: "expire_locked ?r 210 = (0, ?r)"
    using sample_conn_run by (simp add: expire_locked_def expire_one_def sample_test_def test_active_def)
  have "claim_candidates ?r 210 = [(fst sample_op_ids, ?t)]"
    using sample_conn_run by (simp add: claim_candidates_def claimable_def sample_test_def)
  moreover have "\<exists>r. claim_one uuid_length ''executor'' (60 * 10 ^ 9) 210 ?r (fst sample_op_ids, ?t) = (Inr sample_work, r)"
  proof -
    have "claim_of ?r x = no_claim" for x
      by (simp add: claim_of_def conn_run_def sample_conn_ops_def conn_apply_claims) (simp add: new_conn_repo_def)
    moreover have "length sample_tenant = 36" "take 8 sample_tenant = ''00000000''" by code_simp+
    moreover have "test_tenant_id (run_test 210 ?t) = sample_tenant" "test_connection_uid (run_test 210 ?t) = sample_connection_uid"
      "conn_connector sample_connection = ''jdbc''" by (simp_all add: run_test_def sample_test_def sample_connection_def)
    moreover have "wrap32 1 = 1" by code_simp
    ultimately show ?thesis using sample_conn_run sample_work_ok
      by (simp add: claim_one_def Let_def no_claim_def sample_work_def sample_snapshot_def)
  qed
  moreover have "\<not> blank ''executor''" by code_simp
  ultimately show ?thesis
    by (auto simp: claim_tests_def expire_tests_def still maximum_test_executor_id_def maximum_test_claim_batch_def
        maximum_test_lease_def)
qed

theorem claimed_tests_finish_witness:
  "\<exists>obs r t. run_once uuid_length sample_executor sample_round (conn_run uuid_length sample_conn_ops) = ((1, [], obs), r) \<and>
     get_test r sample_tenant (fst sample_op_ids) = Inr t \<and> \<not> test_active t \<and> test_result_code t = TestResultOK"
proof -
  obtain r where "claim_tests uuid_length (snd (expire_tests (conn_run uuid_length sample_conn_ops) (rn_now sample_round)))
      (ex_executor_id (exe_config sample_executor)) (ex_claim_batch (exe_config sample_executor))
      (ex_lease_duration (exe_config sample_executor)) (rn_now sample_round) = (Inr [sample_work], r)"
    using sample_claimed by (auto simp: sample_executor_def sample_round_def)
  moreover have "list_all queued_op sample_conn_ops"
    by (simp add: sample_conn_ops_def sample_create_def sample_test_request_def sample_test_def)
  moreover have "timely (rn_attempts sample_round sample_work) sample_work"
    by (simp add: timely_def sample_round_def sample_work_def run_test_def sample_test_def)
  moreover have "tc_result_code (attempt_completion sample_executor (rn_attempts sample_round sample_work) sample_work) = TestResultOK"
  proof -
    have "probe_completion successful_probe = (\<lparr>tc_state = TestSucceeded, tc_phase = TestPhaseComplete,
        tc_result_code = TestResultOK, tc_success = True, tc_remediation_key = []\<rparr>, None)"
      "new_configuration (gen_settings sample_generation) [] = Inr (Some [(''host'', ''db'')])"
      "locator_provider (gen_secret_locator sample_generation) = ProviderNone"
      by code_simp+
    moreover have "executor_probe sample_executor False sample_work = successful_probe"
      using calculation
      by (auto simp: executor_probe_def registry_execute_def sample_executor_def sample_work_def sample_snapshot_def Let_def)
    ultimately show ?thesis
      by (simp add: attempt_completion_def attempt_result_def sample_round_def attempt_deadline_def min_time_def)
        (simp add: sample_executor_def sample_work_def run_test_def sample_test_def)
  qed
  moreover have "test_tenant_id (tw_operation sample_work) = sample_tenant" "work_id sample_work = fst sample_op_ids"
    by (simp_all add: sample_work_def run_test_def sample_test_def)
  ultimately show ?thesis
    using claimed_tests_finish [of sample_conn_ops sample_round uuid_length sample_executor "[sample_work]" r]
    by (simp add: sample_round_def) blast
qed

end
