(* ===== verification/WalCodec.thy ===== *)
theory WalCodec
  imports Prelude "HOL-Library.Word"
begin

unbundle bit_operations_syntax

text \<open>
  The binary format of the replication log, from \<open>control-plane/replication/wal/wal.go\<close>:
  \<open>Entry.MarshalBinary\<close> and \<open>Entry.UnmarshalBinary\<close> with the parts of \<open>encoding/binary\<close> and
  \<open>hash/crc32\<close> they use. Bytes are \<open>char\<close>s, so that the copy of a Go string into a buffer is the
  string itself. A read past the end of a slice, which panics in Go, is the error \<open>PanicIndex\<close>.
\<close>

section \<open>Little-endian integers\<close>

fun put_le :: "nat \<Rightarrow> nat \<Rightarrow> string" where
  "put_le 0 x = []"
| "put_le (Suc n) x = char_of x # put_le n (x div 256)"

fun get_le :: "string \<Rightarrow> nat" where
  "get_le [] = 0"
| "get_le (c # cs) = of_char c + 256 * get_le cs"

text \<open>The conversions \<open>uint64(int64)\<close> and \<open>int64(uint64)\<close>.\<close>

definition to_uint64 :: "int \<Rightarrow> nat" where
  "to_uint64 x = nat (x mod 2 ^ 64)"

definition to_int64 :: "nat \<Rightarrow> int" where
  "to_int64 n = wrap64 (int n)"

text \<open>\<open>Uint32(data[offset:])\<close> and \<open>Uint64(data[offset:])\<close>, \<open>n\<close> being 4 or 8.\<close>

definition read_le :: "nat \<Rightarrow> string \<Rightarrow> nat \<Rightarrow> nat option" where
  "read_le n data offset =
     (if offset + n \<le> length data then Some (get_le (take n (drop offset data))) else None)"

section \<open>CRC-32C\<close>

definition crc_poly :: "32 word" where
  "crc_poly = 0x82F63B78"

definition crc_bit :: "32 word \<Rightarrow> 32 word" where
  "crc_bit c = (if bit c 0 then drop_bit 1 c XOR crc_poly else drop_bit 1 c)"

definition crc_byte :: "32 word \<Rightarrow> char \<Rightarrow> 32 word" where
  "crc_byte c b = (crc_bit ^^ 8) (c XOR of_char b)"

definition crc32c :: "string \<Rightarrow> 32 word" where
  "crc32c data = NOT (foldl crc_byte (NOT 0) data)"

section \<open>Entries\<close>

datatype wal_error =
    ErrWalClosed
  | ErrEmptySequence
  | ErrInvalidCheckpoint
  | ErrMismatchedRegion
  | ErrGap
  | ErrInvalidEntry string
  | ErrCRCMismatch
  | PanicIndex
  | StorageFailed string

record entry =
  e_sequence :: int
  e_region :: string
  e_epoch :: int
  e_checkpoint_uri :: string
  e_job_id :: string
  e_timestamp :: instant
  e_crc32c :: "32 word"

text \<open>
  \<open>Time.UnixNano\<close> and \<open>time.Unix(0, n)\<close>; \<open>unix_epoch\<close> is 1970-01-01 on the scale of instants.
\<close>

definition unix_epoch :: instant where
  "unix_epoch = 62135596800 * 1000000000"

definition unix_nano :: "instant \<Rightarrow> int" where
  "unix_nano t = wrap64 (t - unix_epoch)"

definition time_unix :: "int \<Rightarrow> instant" where
  "time_unix n = unix_epoch + n"

definition entry_body :: "entry \<Rightarrow> string" where
  "entry_body e =
     put_le 8 (to_uint64 (e_sequence e)) @ put_le 8 (to_uint64 (e_epoch e)) @
     put_le 4 (length (e_job_id e)) @ e_job_id e @
     put_le 4 (length (e_region e)) @ e_region e @
     put_le 4 (length (e_checkpoint_uri e)) @ e_checkpoint_uri e @
     put_le 8 (to_uint64 (unix_nano (e_timestamp e)))"

text \<open>Returns the buffer and the entry with the checksum \<open>MarshalBinary\<close> leaves in it.\<close>

definition marshal_binary :: "entry \<Rightarrow> wal_error + string \<times> entry" where
  "marshal_binary e =
     (if e_sequence e \<le> 0 then Inl ErrEmptySequence
      else if e_checkpoint_uri e = [] then Inl ErrInvalidCheckpoint
      else if length (e_job_id e) > 2 ^ 32 - 1 \<or> length (e_region e) > 2 ^ 32 - 1 \<or>
              length (e_checkpoint_uri e) > 2 ^ 32 - 1
      then Inl (ErrInvalidEntry ''field exceeds uint32 length'')
      else let body = entry_body e; crc = crc32c body
           in Inr (body @ put_le 4 (unat crc), e\<lparr>e_crc32c := crc\<rparr>))"

text \<open>
  One length-prefixed field: the length, the bounds check the code makes, the bytes, and the
  offset after them. \<open>int(uint32)\<close> is never negative on a 64-bit platform.
\<close>

definition read_field :: "string \<Rightarrow> string \<Rightarrow> nat \<Rightarrow> wal_error + string \<times> nat" where
  "read_field what data offset =
     (case read_le 4 data offset of
        None \<Rightarrow> Inl PanicIndex
      | Some n \<Rightarrow>
          if int (offset + 4) > int (length data) - int n
          then Inl (ErrInvalidEntry (''truncated '' @ what))
          else Inr (take n (drop (offset + 4) data), offset + 4 + n))"

definition unmarshal_tail ::
  "string \<Rightarrow> int \<Rightarrow> int \<Rightarrow> string \<Rightarrow> string \<Rightarrow> string \<Rightarrow> nat \<Rightarrow> wal_error + entry" where
  "unmarshal_tail data sq ep job region uri offset =
     (case read_le 8 data offset of
        None \<Rightarrow> Inl PanicIndex
      | Some nanos \<Rightarrow>
          if offset + 8 + 4 \<noteq> length data then Inl (ErrInvalidEntry ''unexpected trailing data'')
          else case read_le 4 data (offset + 8) of
            None \<Rightarrow> Inl PanicIndex
          | Some stored \<Rightarrow>
              if word_of_nat stored \<noteq> crc32c (take (length data - 4) data) then Inl ErrCRCMismatch
              else if sq \<le> 0 then Inl ErrEmptySequence
              else if uri = [] then Inl ErrInvalidCheckpoint
              else Inr \<lparr>e_sequence = sq, e_region = region, e_epoch = ep, e_checkpoint_uri = uri,
                        e_job_id = job, e_timestamp = time_unix (to_int64 nanos),
                        e_crc32c = word_of_nat stored\<rparr>)"

definition unmarshal_binary :: "string \<Rightarrow> wal_error + entry" where
  "unmarshal_binary data =
     (if length data < 44 then Inl (ErrInvalidEntry ''data too short'')
      else case (read_le 8 data 0, read_le 8 data 8) of
        (Some sq, Some ep) \<Rightarrow>
          (case read_field ''job_id'' data 16 of
             Inl e \<Rightarrow> Inl e
           | Inr (job, o1) \<Rightarrow>
              (case read_field ''region'' data o1 of
                 Inl e \<Rightarrow> Inl e
               | Inr (region, o2) \<Rightarrow>
                  (case read_field ''checkpoint_uri'' data o2 of
                     Inl e \<Rightarrow> Inl e
                   | Inr (uri, o3) \<Rightarrow>
                       unmarshal_tail data (to_int64 sq) (to_int64 ep) job region uri o3)))
      | _ \<Rightarrow> Inl PanicIndex)"

section \<open>Lemmas: integers\<close>

lemma length_put_le [simp]: "length (put_le n x) = n"
  by (induction n arbitrary: x) simp_all

lemma put_le_hd: "0 < n \<Longrightarrow> (put_le n x @ ys) ! 0 = char_of x"
  by (cases n) simp_all

lemma get_put_le: "get_le (put_le n x) = x mod 256 ^ n"
proof (induction n arbitrary: x)
  case (Suc n)
  have "of_char (char_of x :: char) = (x mod 256 :: nat)" by simp
  with Suc show ?case by (simp add: mod_mult2_eq)
qed simp

lemma get_put_le_id: "x < 256 ^ n \<Longrightarrow> get_le (put_le n x) = x"
  by (simp add: get_put_le)

lemma get_le_inj: "length xs = length ys \<Longrightarrow> get_le xs = get_le ys \<Longrightarrow> xs = ys"
proof (induction xs ys rule: list_induct2)
  case (Cons x xs y ys)
  have "get_le (x # xs) mod 256 = of_char x" "get_le (y # ys) mod 256 = of_char y"
    by (simp_all add: mod_mult_self2)
  with Cons show ?case by simp
qed simp

lemma get_le_less: "get_le xs < 256 ^ length xs"
proof (induction xs)
  case (Cons x xs)
  have "of_char x < (256 :: nat)" by simp
  moreover have "256 * get_le xs + 256 \<le> 256 * 256 ^ length xs" using Cons by simp
  ultimately show ?case unfolding get_le.simps list.size add_0_right Suc_eq_plus1 [symmetric] add_Suc_right power_Suc by linarith
qed simp

lemma to_uint64_less [simp]: "to_uint64 x < 18446744073709551616"
  by (simp add: to_uint64_def nat_less_iff)

lemma to_int64_to_uint64: "int64_range x \<Longrightarrow> to_int64 (to_uint64 x) = x"
proof -
  assume x: "int64_range x"
  have "wrap64 (x mod 2 ^ 64) = wrap64 x"
    by (simp add: wrap64_def mod_add_left_eq)
  with x show ?thesis by (simp add: to_int64_def to_uint64_def wrap64_id)
qed

section \<open>Lemmas: the checksum\<close>

lemma crc_bit_top: "bit (crc_bit c) 31 \<longleftrightarrow> bit c 0"
proof -
  have "bit crc_poly 31" by (simp add: crc_poly_def)
  moreover have "\<not> bit (drop_bit 1 c) 31"
    by (simp add: bit_drop_bit_eq bit_imp_le_length) (use bit_imp_le_length [of c 32] in auto)
  ultimately show ?thesis by (simp add: crc_bit_def bit_xor_iff)
qed

lemma drop_bit_1_inj:
  assumes "drop_bit 1 a = drop_bit 1 (b :: 32 word)" and "bit a 0 = bit b 0"
  shows "a = b"
proof (rule bit_eqI)
  fix n
  show "bit a n = bit b n"
  proof (cases n)
    case 0
    with assms(2) show ?thesis by simp
  next
    case (Suc m)
    have "bit (drop_bit 1 a) m = bit (drop_bit 1 b) m" using assms(1) by simp
    with Suc show ?thesis by (simp add: bit_drop_bit_eq)
  qed
qed

lemma xor_right_inj: "a XOR k = b XOR (k :: 32 word) \<Longrightarrow> a = b"
proof -
  assume "a XOR k = b XOR k"
  then have "(a XOR k) XOR k = (b XOR k) XOR k" by (rule arg_cong)
  then show ?thesis by (simp only: xor.assoc xor_self_eq xor.right_neutral)
qed

lemma xor_left_inj: "k XOR a = k XOR (b :: 32 word) \<Longrightarrow> a = b"
  by (rule xor_right_inj [of _ k]) (simp only: xor.commute)

lemma crc_bit_inj: "crc_bit a = crc_bit b \<Longrightarrow> a = b"
proof -
  assume eq: "crc_bit a = crc_bit b"
  then have low: "bit a 0 = bit b 0" using crc_bit_top [of a] crc_bit_top [of b] by simp
  have "drop_bit 1 a = drop_bit 1 b"
  proof (cases "bit a 0")
    case True
    then show ?thesis
      using eq low by (simp only: crc_bit_def if_True) (rule xor_right_inj)
  next
    case False
    then show ?thesis using eq low by (simp only: crc_bit_def if_False)
  qed
  then show ?thesis using low by (rule drop_bit_1_inj)
qed

lemma crc_bits_inj: "(crc_bit ^^ n) a = (crc_bit ^^ n) b \<Longrightarrow> a = b"
  by (induction n) (auto dest: crc_bit_inj)

lemma crc_byte_state_inj: "crc_byte a c = crc_byte b c \<Longrightarrow> a = b"
  unfolding crc_byte_def by (drule crc_bits_inj) (rule xor_right_inj)

lemma unat_of_char: "unat (of_char c :: 32 word) = of_char c"
proof -
  have "(of_char c :: nat) < 256" by simp
  then have "(of_char c :: nat) < 2 ^ LENGTH(32)" by (rule less_trans) simp
  then have "unat (word_of_nat (of_char c) :: 32 word) = of_char c"
    by (simp only: unat_of_nat mod_less)
  then show ?thesis by (simp only: of_nat_of_char)
qed

lemma of_char_word_inj: "of_char a = (of_char b :: 32 word) \<Longrightarrow> a = b"
  by (metis unat_of_char of_char_eq_iff)

lemma crc_byte_char_inj: "crc_byte s a = crc_byte s b \<Longrightarrow> a = b"
  unfolding crc_byte_def by (drule crc_bits_inj) (rule of_char_word_inj, erule xor_left_inj)

lemma crc_foldl_inj: "foldl crc_byte a cs = foldl crc_byte b cs \<Longrightarrow> a = b"
  by (induction cs arbitrary: a b) (auto dest: crc_byte_state_inj)

lemma crc32c_single_byte:
  assumes "i < length data" and "data ! i \<noteq> c"
  shows "crc32c (data[i := c]) \<noteq> crc32c data"
proof -
  obtain pre x post where data: "data = pre @ x # post" and len: "length pre = i"
    using id_take_nth_drop [OF assms(1)] assms(1) by (metis length_take min.absorb4)
  let ?s = "foldl crc_byte (NOT 0) pre"
  have "crc_byte ?s c \<noteq> crc_byte ?s x"
    using assms(2) data len by (auto dest: crc_byte_char_inj)
  then have "foldl crc_byte (crc_byte ?s c) post \<noteq> foldl crc_byte (crc_byte ?s x) post"
    by (auto dest: crc_foldl_inj)
  with data len show ?thesis by (auto simp: crc32c_def)
qed

section \<open>Lemmas: the round trip\<close>

lemma read_leI:
  "data = pre @ put_le n x @ post \<Longrightarrow> length pre = offset \<Longrightarrow> x < 256 ^ n \<Longrightarrow>
     read_le n data offset = Some x"
  by (simp add: read_le_def get_put_le)

lemma read_fieldI:
  assumes "data = pre @ put_le 4 (length f) @ f @ post" and "length pre = offset" and "length f < 256 ^ 4"
  shows "read_field what data offset = Inr (f, offset + 4 + length f)"
  using assms read_leI [OF assms(1,2)] by (auto simp: read_field_def)

lemma unat_crc_less [simp]: "unat (c :: 32 word) < 4294967296"
  using unsigned_less [of c] by simp

lemma unmarshal_marshal:
  assumes "marshal_binary e = Inr (data, e')" and "int64_range (e_sequence e)" and "int64_range (e_epoch e)"
    and "int64_range (e_timestamp e - unix_epoch)"
    and "4 \<le> length (e_job_id e) + length (e_region e) + length (e_checkpoint_uri e)"
  shows "unmarshal_binary data = Inr e'"
proof -
  let ?j = "e_job_id e" and ?r = "e_region e" and ?u = "e_checkpoint_uri e"
  let ?crc = "crc32c (entry_body e)"
  let ?nanos = "to_uint64 (unix_nano (e_timestamp e))"
  let ?h = "put_le 8 (to_uint64 (e_sequence e)) @ put_le 8 (to_uint64 (e_epoch e))"
  let ?hj = "?h @ put_le 4 (length ?j) @ ?j"
  let ?hjr = "?hj @ put_le 4 (length ?r) @ ?r"
  let ?hjru = "?hjr @ put_le 4 (length ?u) @ ?u"
  have m: "0 < e_sequence e" "?u \<noteq> []" "length ?j < 256 ^ 4" "length ?r < 256 ^ 4" "length ?u < 256 ^ 4"
    and data: "data = entry_body e @ put_le 4 (unat ?crc)" and e': "e' = e\<lparr>e_crc32c := ?crc\<rparr>"
    using assms(1) by (auto simp: marshal_binary_def Let_def split: if_splits)
  have len: "length (entry_body e) = 36 + length ?j + length ?r + length ?u"
    by (simp add: entry_body_def)
  have rd: "read_le 8 data 0 = Some (to_uint64 (e_sequence e))"
    by (rule read_leI [of _ "[]"]) (simp_all add: data entry_body_def)
  have rd': "read_le 8 data 8 = Some (to_uint64 (e_epoch e))"
    by (rule read_leI [of _ "put_le 8 (to_uint64 (e_sequence e))"]) (simp_all add: data entry_body_def)
  define o1 where "o1 = 16 + 4 + length ?j"
  define o2 where "o2 = o1 + 4 + length ?r"
  define o3 where "o3 = o2 + 4 + length ?u"
  note offsets = o3_def o2_def o1_def
  have fields: "read_field ''job_id'' data 16 = Inr (?j, o1)"
    "read_field ''region'' data o1 = Inr (?r, o2)"
    "read_field ''checkpoint_uri'' data o2 = Inr (?u, o3)"
    unfolding offsets
    by (rule read_fieldI [of _ ?h] read_fieldI [of _ ?hj] read_fieldI [of _ ?hjr];
        use m in \<open>simp add: data entry_body_def\<close>)+
  have nanos: "read_le 8 data o3 = Some ?nanos"
    unfolding offsets by (rule read_leI [of _ ?hjru]) (simp_all add: data entry_body_def)
  have crc: "read_le 4 data (o3 + 8) = Some (unat ?crc)"
    unfolding offsets by (rule read_leI [of _ "entry_body e" _ _ "[]"]) (simp_all add: data len)
  have time: "time_unix (to_int64 ?nanos) = e_timestamp e"
    using assms(4) by (simp add: unix_nano_def time_unix_def to_int64_to_uint64 wrap64_id)
  have body: "take (length data - 4) data = entry_body e" by (simp add: data)
  have total: "length data = o3 + 8 + 4" "44 \<le> length data"
    using assms(5) by (simp_all add: offsets data len)
  have tail: "unmarshal_tail data (e_sequence e) (e_epoch e) ?j ?r ?u o3 = Inr e'"
    unfolding unmarshal_tail_def nanos crc body using m total by (simp add: crc time e')
  show ?thesis
    unfolding unmarshal_binary_def rd rd' using total tail assms(2,3)
    by (simp add: fields to_int64_to_uint64)
qed

lemma unmarshal_short:
  assumes "marshal_binary e = Inr (data, e')"
    and "length (e_job_id e) + length (e_region e) + length (e_checkpoint_uri e) < 4"
  shows "unmarshal_binary data = Inl (ErrInvalidEntry ''data too short'')"
proof -
  have "data = entry_body e @ put_le 4 (unat (crc32c (entry_body e)))"
    using assms(1) by (auto simp: marshal_binary_def Let_def split: if_splits)
  then have "length data < 44" using assms(2) by (simp add: entry_body_def)
  then show ?thesis by (simp add: unmarshal_binary_def)
qed

lemma unmarshal_crc:
  assumes "unmarshal_binary data = Inr e"
  shows "44 \<le> length data \<and>
    word_of_nat (get_le (drop (length data - 4) data)) = crc32c (take (length data - 4) data)"
proof -
  obtain sq ep job region uri offset where
    t: "unmarshal_tail data sq ep job region uri offset = Inr e" and l: "44 \<le> length data"
    using assms by (auto simp: unmarshal_binary_def split: if_splits option.splits sum.splits prod.splits)
  from t have o: "offset + 12 = length data" "offset + 8 = length data - 4"
    by (auto simp: unmarshal_tail_def split: option.splits if_splits)
  with t l show ?thesis
    by (auto simp: unmarshal_tail_def read_le_def split: option.splits if_splits)
qed

lemma word_of_get_le_inj:
  assumes "length xs = 4" and "length ys = 4"
    and "(word_of_nat (get_le xs) :: 32 word) = word_of_nat (get_le ys)"
  shows "xs = ys"
proof -
  have "get_le xs < 2 ^ LENGTH(32)" "get_le ys < 2 ^ LENGTH(32)"
    using get_le_less [of xs] get_le_less [of ys] assms(1,2) by simp_all
  with assms(3) have "get_le xs = get_le ys" by (metis unat_of_nat mod_less)
  with assms(1,2) show ?thesis by (simp add: get_le_inj)
qed

lemma unmarshal_single_byte:
  assumes "unmarshal_binary data = Inr e" and "i < length data" and "data ! i \<noteq> c"
  shows "unmarshal_binary (data[i := c]) \<noteq> Inr e'"
proof
  let ?d = "data[i := c]"
  define n where "n = length data - 4"
  assume acc: "unmarshal_binary ?d = Inr e'"
  have ok: "word_of_nat (get_le (drop n data)) = crc32c (take n data)" and len: "n + 4 = length data"
    using unmarshal_crc [OF assms(1)] by (auto simp: n_def)
  have ok': "word_of_nat (get_le (drop n ?d)) = crc32c (take n ?d)"
    using unmarshal_crc [OF acc] by (simp only: length_list_update n_def)
  show False
  proof (cases "i < n")
    case True
    have t: "take n ?d = (take n data)[i := c]" and d: "drop n ?d = drop n data"
      using True by (simp_all add: take_update_swap)
    from ok' ok have "crc32c ((take n data)[i := c]) = crc32c (take n data)"
      unfolding t d by (rule trans [OF sym])
    moreover have "i < length (take n data)" and "take n data ! i \<noteq> c"
      using True assms(2,3) by auto
    ultimately show False using crc32c_single_byte by blast
  next
    case False
    then have t: "take n ?d = take n data" by simp
    from ok ok' have "drop n ?d = drop n data"
      unfolding t using len by (intro word_of_get_le_inj) auto
    moreover have "drop n ?d ! (i - n) = ?d ! i" "drop n data ! (i - n) = data ! i"
      using False len assms(2) by auto
    ultimately show False using assms(2,3) by simp
  qed
qed

section \<open>Properties\<close>

definition entry_in_range :: "entry \<Rightarrow> bool" where
  "entry_in_range e \<longleftrightarrow> int64_range (e_sequence e) \<and> int64_range (e_epoch e) \<and>
     int64_range (e_timestamp e - unix_epoch)"

text \<open>
  C17. Decoding what \<open>MarshalBinary\<close> wrote gives back every field of the entry and the checksum,
  for all entries whose three strings have at least four bytes together. For the shorter ones,
  which \<open>MarshalBinary\<close> accepts as well, \<open>UnmarshalBinary\<close> always answers that the data is too
  short: its minimum of 44 bytes is four more than the format's own.
\<close>

theorem wal_round_trip:
  assumes "marshal_binary e = Inr (data, e')" and "entry_in_range e"
  shows "unmarshal_binary data =
    (if length (e_job_id e) + length (e_region e) + length (e_checkpoint_uri e) < 4
     then Inl (ErrInvalidEntry ''data too short'') else Inr e')"
  using unmarshal_short [OF assms(1)] unmarshal_marshal [OF assms(1)] assms(2)
  by (simp add: entry_in_range_def)

definition sample_entry :: entry where
  "sample_entry = \<lparr>e_sequence = 1, e_region = ''eu'', e_epoch = 3, e_checkpoint_uri = ''ckpt'',
     e_job_id = ''job'', e_timestamp = unix_epoch + 5, e_crc32c = 0\<rparr>"

definition sample_data :: string where
  "sample_data = entry_body sample_entry @ put_le 4 (unat (crc32c (entry_body sample_entry)))"

lemma sample_marshal:
  "marshal_binary sample_entry = Inr (sample_data, sample_entry\<lparr>e_crc32c := crc32c (entry_body sample_entry)\<rparr>)"
  by (simp add: marshal_binary_def sample_data_def sample_entry_def Let_def)

theorem wal_round_trip_witness:
  "unmarshal_binary sample_data =
     Inr (sample_entry\<lparr>e_crc32c := crc32c (entry_body sample_entry)\<rparr>)"
  using wal_round_trip [OF sample_marshal]
  by (simp add: entry_in_range_def int64_range_def sample_entry_def)

text \<open>
  C18. A stored entry with any one byte changed, wherever it is and whatever it is changed to, is
  never accepted: CRC-32C detects every single-byte corruption, also one of a length field that
  moves all later fields.
\<close>

theorem wal_detects_corruption:
  assumes "unmarshal_binary data = Inr e" and "i < length data" and "data ! i \<noteq> c"
  shows "unmarshal_binary (data[i := c]) \<noteq> Inr e'"
  using assms by (rule unmarshal_single_byte)

theorem wal_detects_corruption_witness:
  "unmarshal_binary (sample_data[0 := CHR 0xFF]) \<noteq> Inr sample_entry"
proof -
  have "unmarshal_binary sample_data =
      Inr (sample_entry\<lparr>e_crc32c := crc32c (entry_body sample_entry)\<rparr>)"
    by (rule unmarshal_marshal [OF sample_marshal]) (simp_all add: int64_range_def sample_entry_def)
  moreover have "0 < length sample_data" by (simp add: sample_data_def)
  moreover have "sample_data ! 0 \<noteq> CHR 0xFF"
    by (simp add: sample_data_def entry_body_def put_le_hd sample_entry_def to_uint64_def char_of_def)
  ultimately show ?thesis by (rule wal_detects_corruption)
qed

text \<open>
  \<open>UnmarshalBinary\<close> checks that a field fits, but not that the length of the next field
  does: when the job id ends fewer than four bytes before the end of the data, the next read is
  out of range and the reader panics instead of reporting an invalid entry.
\<close>

lemma unmarshal_truncated_panics:
  assumes "44 \<le> length data" and "read_le 4 data 16 = Some n"
    and "n + 20 \<le> length data" and "length data < n + 24"
  shows "unmarshal_binary data = Inl PanicIndex"
proof -
  have heads: "read_le 8 data 0 = Some (get_le (take 8 data))"
    "read_le 8 data 8 = Some (get_le (take 8 (drop 8 data)))"
    using assms(1) by (simp_all add: read_le_def)
  have job: "read_field ''job_id'' data 16 = Inr (take n (drop 20 data), 20 + n)"
    using assms(2,3) by (simp add: read_field_def)
  have region: "read_field ''region'' data (20 + n) = Inl PanicIndex"
    using assms(4) by (simp add: read_field_def read_le_def)
  show ?thesis using assms(1) by (simp add: unmarshal_binary_def heads job region)
qed

lemma unmarshal_truncated_panics_witness:
  "unmarshal_binary (replicate 16 (CHR 0x01) @ CHR 0x18 # replicate 27 (CHR 0x00)) = Inl PanicIndex"
  by (rule unmarshal_truncated_panics [of _ 24]) code_simp+

end
