(* ===== verification/ObjectStore.thy ===== *)
theory ObjectStore
  imports Prelude
begin

text \<open>
  The object store the replication log lives in: the interface \<open>wal.ObjectStorage\<close> as a locale
  and \<open>control-plane/replication/objectstore/filesystem.go\<close>, which implements it on a directory.

  A slash-separated path is its rootedness and its list of elements; \<open>parse_path\<close> is
  \<open>filepath.Clean\<close>, \<open>join_path\<close> is \<open>filepath.Join\<close> and \<open>rel_path\<close> is \<open>filepath.Rel\<close> of clean
  paths on Unix. The file system is the set of regular files below the root; directories exist as
  far as files need them. \<open>fs_faults\<close> is the schedule of what the operating system and the context
  answer to the writes to come, \<open>True\<close> being a failure; theorems quantify over all schedules.
\<close>

section \<open>Paths\<close>

record gopath =
  rooted :: bool
  elems :: "string list"

text \<open>One element of the path, read onto the reversed elements so far.\<close>

definition clean_step :: "bool \<Rightarrow> string list \<Rightarrow> string \<Rightarrow> string list" where
  "clean_step r acc c =
     (if c = [] \<or> c = ''.'' then acc
      else if c = ''..'' then
        (case acc of
           [] \<Rightarrow> if r then [] else [''..'']
         | tp # rest \<Rightarrow> if tp = ''..'' then ''..'' # acc else rest)
      else c # acc)"

definition parse_path :: "string \<Rightarrow> gopath" where
  "parse_path s =
     (let r = (case s of [] \<Rightarrow> False | c # _ \<Rightarrow> c = CHR ''/'')
      in \<lparr>rooted = r, elems = rev (foldl (clean_step r) [] (split_on (CHR ''/'') s))\<rparr>)"

definition join_path :: "gopath \<Rightarrow> gopath \<Rightarrow> gopath" where
  "join_path a b = \<lparr>rooted = rooted a, elems = rev (foldl (clean_step (rooted a)) (rev (elems a)) (elems b))\<rparr>"

fun strip_common :: "string list \<Rightarrow> string list \<Rightarrow> string list \<times> string list" where
  "strip_common (x # xs) (y # ys) = (if x = y then strip_common xs ys else (x # xs, y # ys))"
| "strip_common xs ys = (xs, ys)"

definition rel_path :: "gopath \<Rightarrow> gopath \<Rightarrow> string list option" where
  "rel_path base targ =
     (if rooted base \<noteq> rooted targ then None
      else let (b, t) = strip_common (elems base) (elems targ)
           in case b of
                [] \<Rightarrow> Some t
              | x # _ \<Rightarrow> if x = ''..'' then None else Some (replicate (length b) ''..'' @ t))"

section \<open>The file store\<close>

datatype store_error = ErrInvalidKey | ErrIO

record file_store =
  fs_root :: gopath
  fs_files :: "(string list, string) gomap"
  fs_faults :: "bool list"

definition has_windows_volume_prefix :: "string \<Rightarrow> bool" where
  "has_windows_volume_prefix key =
     (case key of a # b # _ \<Rightarrow> b = CHR '':'' \<and> (is_upper a \<or> is_lower a) | _ \<Rightarrow> False)"

definition slashes :: "string \<Rightarrow> string" where
  "slashes s = map (\<lambda>c. if c = CHR 0x5C then CHR ''/'' else c) s"

definition fs_path :: "gopath \<Rightarrow> string \<Rightarrow> store_error + string list" where
  "fs_path root key0 =
     (let key = trim_space (slashes key0) in
      if key = [] \<or> hd key = CHR ''/'' \<or> has_windows_volume_prefix key then Inl ErrInvalidKey
      else let path = join_path root (parse_path key)
      in case rel_path root path of
           None \<Rightarrow> Inl ErrInvalidKey
         | Some rel \<Rightarrow> if rel \<noteq> [] \<and> hd rel = ''..'' then Inl ErrInvalidKey else Inr (elems path))"

text \<open>A write is impossible where the path, or a directory on the way to it, is the other kind of file.\<close>

definition fs_blocked :: "file_store \<Rightarrow> string list \<Rightarrow> bool" where
  "fs_blocked s p \<longleftrightarrow> length p \<le> length (elems (fs_root s)) \<or>
     list_ex (\<lambda>(q, _). q \<noteq> p \<and> (take (length q) p = q \<or> take (length p) q = p)) (fs_files s)"

definition fs_put :: "file_store \<Rightarrow> string \<Rightarrow> string \<Rightarrow> store_error option \<times> file_store" where
  [effect_defs]: "fs_put s key data =
     (let fault = (case fs_faults s of [] \<Rightarrow> False | f # _ \<Rightarrow> f);
          s1 = s\<lparr>fs_faults := tl (fs_faults s)\<rparr>
      in case fs_path (fs_root s) key of
           Inl e \<Rightarrow> (Some e, s1)
         | Inr p \<Rightarrow>
             if fs_blocked s p \<or> fault then (Some ErrIO, s1)
             else (None, s1\<lparr>fs_files := gput p data (fs_files s)\<rparr>))"

definition fs_get :: "file_store \<Rightarrow> string \<Rightarrow> store_error + string" where
  "fs_get s key =
     (case fs_path (fs_root s) key of
        Inl e \<Rightarrow> Inl e
      | Inr p \<Rightarrow> (case gget (fs_files s) p of None \<Rightarrow> Inl ErrIO | Some data \<Rightarrow> Inr data))"

definition fs_delete :: "file_store \<Rightarrow> string \<Rightarrow> store_error option \<times> file_store" where
  [effect_defs]: "fs_delete s key =
     (case fs_path (fs_root s) key of
        Inl e \<Rightarrow> (Some e, s)
      | Inr p \<Rightarrow>
          if gget (fs_files s) p = None then (Some ErrIO, s)
          else (None, s\<lparr>fs_files := gdel p (fs_files s)\<rparr>))"

definition trim_slashes :: "string \<Rightarrow> string" where
  "trim_slashes s = rev (dropWhile (\<lambda>c. c = CHR ''/'') (rev (dropWhile (\<lambda>c. c = CHR ''/'') s)))"

definition fs_key :: "file_store \<Rightarrow> string list \<Rightarrow> string" where
  "fs_key s p = join_with ''/'' (drop (length (elems (fs_root s))) p)"

definition fs_list :: "file_store \<Rightarrow> string \<Rightarrow> store_error + string list" where
  "fs_list s prefix0 =
     (let prefix = trim_slashes (slashes prefix0) in
      case (if prefix = [] then Inr [] else fs_path (fs_root s) (prefix @ ''/.probe'')) of
        Inl e \<Rightarrow> Inl e
      | Inr _ \<Rightarrow>
          Inr (sort (filter (\<lambda>k. prefix = [] \<or> has_prefix k (prefix @ ''/'') \<or> k = prefix)
                 (map (fs_key s \<circ> fst) (fs_files s)))))"

section \<open>Path lemmas\<close>

text \<open>A clean list of elements: \<open>..\<close> only at the front, no empty element and no \<open>.\<close>.\<close>

definition plain :: "string \<Rightarrow> bool" where
  "plain c \<longleftrightarrow> c \<noteq> [] \<and> c \<noteq> ''.'' \<and> c \<noteq> ''..'' \<and> CHR ''/'' \<notin> set c"

definition clean_elems :: "string list \<Rightarrow> bool" where
  "clean_elems cs \<longleftrightarrow> (\<exists>n ds. cs = replicate n ''..'' @ ds \<and> ''..'' \<notin> set ds)"

lemma clean_elems_Cons:
  "clean_elems (c # cs) \<longleftrightarrow> (if c = ''..'' then clean_elems cs else ''..'' \<notin> set cs)"
proof (cases "c = ''..''")
  case True
  have "clean_elems (''..'' # cs) \<longleftrightarrow> clean_elems cs"
  proof
    assume "clean_elems (''..'' # cs)"
    then obtain n ds where n: "''..'' # cs = replicate n ''..'' @ ds" "''..'' \<notin> set ds"
      by (auto simp: clean_elems_def)
    then show "clean_elems cs" by (cases n) (auto simp: clean_elems_def)
  next
    assume "clean_elems cs"
    then obtain n ds where "cs = replicate n ''..'' @ ds" "''..'' \<notin> set ds"
      by (auto simp: clean_elems_def)
    then have "''..'' # cs = replicate (Suc n) ''..'' @ ds" by simp
    with \<open>''..'' \<notin> set ds\<close> show "clean_elems (''..'' # cs)" unfolding clean_elems_def by blast
  qed
  with True show ?thesis by simp
next
  case False
  have "c # cs = replicate n ''..'' @ ds \<longleftrightarrow> n = 0 \<and> ds = c # cs" for n ds
    using False by (cases n) auto
  with False show ?thesis by (auto simp: clean_elems_def)
qed

lemma clean_step_clean:
  assumes "clean_elems (rev acc)"
  shows "clean_elems (rev (clean_step r acc c))"
proof -
  obtain n ds where a: "rev acc = replicate n ''..'' @ ds" "''..'' \<notin> set ds"
    using assms by (auto simp: clean_elems_def)
  have pop: "clean_elems (rev rest)" if "acc = tp # rest" "tp \<noteq> ''..''" for tp rest
  proof (cases ds rule: rev_cases)
    case Nil
    with a that show ?thesis
      by (metis append_Nil2 in_set_replicate last_in_set last_snoc rev.simps(2) snoc_eq_iff_butlast)
  next
    case (snoc ds' d)
    with a that have "rev rest = replicate n ''..'' @ ds'" "''..'' \<notin> set ds'" by auto
    then show ?thesis unfolding clean_elems_def by blast
  qed
  have push: "clean_elems (rev (''..'' # acc))" if "acc = ''..'' # rest" for rest
  proof (cases ds rule: rev_cases)
    case Nil
    with a have "rev (''..'' # acc) = replicate (Suc n) ''..'' @ []"
      by (simp add: replicate_append_same)
    then show ?thesis unfolding clean_elems_def by (intro exI [of _ "Suc n"] exI [of _ "[]"]) simp
  next
    case (snoc ds' d)
    with a that show ?thesis by auto
  qed
  have other: "clean_elems (rev (c # acc))" if "c \<noteq> ''..''"
    unfolding clean_elems_def using a that by (intro exI [of _ n] exI [of _ "ds @ [c]"]) auto
  show ?thesis
    using assms pop push other
    by (auto simp: clean_step_def clean_elems_Cons split: list.splits)
qed

lemma foldl_clean_step_clean:
  "clean_elems (rev acc) \<Longrightarrow> clean_elems (rev (foldl (clean_step r) acc cs))"
  by (induction cs arbitrary: acc) (simp_all add: clean_step_clean)

lemma clean_elems_suffix: "clean_elems (xs @ ys) \<Longrightarrow> clean_elems ys"
proof (induction xs)
  case (Cons x xs)
  have "''..'' \<notin> set zs \<Longrightarrow> clean_elems zs" for zs
    unfolding clean_elems_def by (intro exI [of _ 0] exI [of _ zs]) simp
  with Cons show ?case by (auto simp: clean_elems_Cons split: if_splits)
qed simp

lemma strip_common_split:
  "strip_common b t = (b', t') \<Longrightarrow> \<exists>c. b = c @ b' \<and> t = c @ t'"
  by (induction b t rule: strip_common.induct) (auto split: if_splits)

lemma strip_common_append [simp]: "strip_common xs (xs @ ys) = ([], ys)"
proof (induction xs)
  case Nil
  then show ?case by (cases ys) simp_all
qed simp

lemma fs_path_below_root:
  assumes "fs_path root key = Inr p" and "clean_elems (elems root)"
  shows "\<exists>rest. p = elems root @ rest \<and> ''..'' \<notin> set rest"
proof -
  define path where "path = join_path root (parse_path (trim_space (slashes key)))"
  obtain rel where rel: "rel_path root path = Some rel" "\<not> (rel \<noteq> [] \<and> hd rel = ''..'')"
    and p: "p = elems path"
    using assms(1) by (auto simp: fs_path_def path_def Let_def split: if_splits option.splits)
  obtain b t where bt: "strip_common (elems root) (elems path) = (b, t)" by fastforce
  have b: "b = []"
    using rel bt by (cases b) (auto simp: rel_path_def split: if_splits)
  with rel bt have t: "rel = t" by (auto simp: rel_path_def split: if_splits)
  from strip_common_split [OF bt] b have path': "elems path = elems root @ t" by simp
  have "clean_elems (elems path)"
    unfolding path_def join_path_def using foldl_clean_step_clean [of "rev (elems root)"] assms(2) by simp
  with path' have "clean_elems t" by (metis clean_elems_suffix)
  with rel(2) t have "''..'' \<notin> set t" by (cases t) (auto simp: clean_elems_Cons split: if_splits)
  with p path' show ?thesis by blast
qed

lemma split_on_not_Nil [simp]: "split_on c s \<noteq> []"
  by (induction s) (auto split: list.splits)

lemma join_split [simp]: "join_with [c] (split_on c s) = s"
proof (induction s)
  case (Cons x s)
  then show ?case
    by (cases "split_on c s"; cases "tl (split_on c s)") auto
qed simp

lemma split_on_no_sep: "x \<in> set (split_on c s) \<Longrightarrow> c \<notin> set x"
  by (induction s arbitrary: x) (auto split: if_splits list.splits)

lemma split_on_plain: "c \<notin> set x \<Longrightarrow> split_on c x = [x]"
  by (induction x) auto

lemma split_on_append: "c \<notin> set x \<Longrightarrow> split_on c (x @ c # s) = x # split_on c s"
  by (induction x) auto

lemma split_on_append2: "split_on c (s @ c # t) = split_on c s @ split_on c t"
  by (induction s) (auto split: list.splits)

lemma split_join: "cs \<noteq> [] \<Longrightarrow> \<forall>x \<in> set cs. c \<notin> set x \<Longrightarrow> split_on c (join_with [c] cs) = cs"
  by (induction "[c]" cs rule: join_with.induct) (simp_all add: split_on_plain split_on_append)

lemma clean_step_plain: "plain c \<Longrightarrow> clean_step r acc c = c # acc"
  by (simp add: clean_step_def plain_def)

lemma foldl_clean_plain: "list_all plain cs \<Longrightarrow> foldl (clean_step r) acc cs = rev cs @ acc"
  by (induction cs arbitrary: acc) (simp_all add: clean_step_plain)

lemma clean_step_set: "set (clean_step r acc c) \<subseteq> insert ''..'' (set acc) \<union> ({c} - {[], ''.''})"
  by (auto simp: clean_step_def split: list.splits if_splits)

lemma foldl_clean_set:
  "x \<in> set (foldl (clean_step r) acc cs) \<Longrightarrow> x = ''..'' \<or> x \<in> set acc \<or> x \<in> set cs \<and> x \<noteq> [] \<and> x \<noteq> ''.''"
proof (induction cs arbitrary: acc)
  case (Cons c cs)
  then show ?case using clean_step_set [of r acc c] by fastforce
qed simp

lemma parse_path_elems: "x \<in> set (elems (parse_path s)) \<Longrightarrow> x = ''..'' \<or> plain x"
  by (auto simp: parse_path_def Let_def plain_def dest!: foldl_clean_set split_on_no_sep)

lemma strip_rune_None: "strip_rune rs s = None \<longleftrightarrow> (\<forall>r \<in> set rs. take (length r) s \<noteq> r)"
  by (induction rs) auto

text \<open>A canonical key: the name a file below the root has as an object.\<close>

definition canonical :: "string \<Rightarrow> bool" where
  "canonical k \<longleftrightarrow> list_all plain (split_on (CHR ''/'') k) \<and> CHR 0x5C \<notin> set k \<and>
     strip_rune space_runes k = None \<and> strip_rune (map rev space_runes) (rev k) = None \<and>
     \<not> has_windows_volume_prefix k"

lemma canonical_trim: "canonical k \<Longrightarrow> trim_space k = k"
  by (cases k) (auto simp: canonical_def trim_space_def Let_def)

lemma canonical_slashes: "canonical k \<Longrightarrow> slashes k = k"
  by (auto simp: canonical_def slashes_def intro!: map_idI)

lemma canonical_not_Nil: "canonical k \<Longrightarrow> k \<noteq> []"
  by (auto simp: canonical_def plain_def)

lemma canonical_hd: "canonical k \<Longrightarrow> hd k \<noteq> CHR ''/''"
  by (cases k) (auto simp: canonical_def plain_def)

lemma fs_path_canonical:
  assumes "canonical k"
  shows "fs_path root k = Inr (elems root @ split_on (CHR ''/'') k)"
proof -
  let ?cs = "split_on (CHR ''/'') k"
  have cs: "list_all plain ?cs" and w: "\<not> has_windows_volume_prefix k"
    using assms by (simp_all add: canonical_def)
  have parse: "parse_path k = \<lparr>rooted = False, elems = ?cs\<rparr>"
    using canonical_hd [OF assms] canonical_not_Nil [OF assms] foldl_clean_plain [OF cs, of False "[]"]
    by (auto simp: parse_path_def split: list.splits)
  have join: "join_path root (parse_path k) = \<lparr>rooted = rooted root, elems = elems root @ ?cs\<rparr>"
    unfolding parse by (simp add: join_path_def foldl_clean_plain [OF cs])
  have "hd ?cs \<noteq> ''..''" using cs by (cases ?cs) (auto simp: plain_def)
  then show ?thesis
    using canonical_hd [OF assms] canonical_not_Nil [OF assms] w
    by (simp add: fs_path_def canonical_slashes [OF assms] canonical_trim [OF assms] join rel_path_def)
qed

lemma space_runes_no_slash: "r \<in> set space_runes \<Longrightarrow> CHR ''/'' \<notin> set r"
  by (auto simp: space_runes_def)

lemma strip_rune_append:
  assumes "strip_rune space_runes k = None"
  shows "strip_rune space_runes (k @ CHR ''/'' # x) = None"
  unfolding strip_rune_None
proof (intro ballI notI)
  fix r
  assume r: "r \<in> set space_runes" and t: "take (length r) (k @ CHR ''/'' # x) = r"
  show False
  proof (cases "length r \<le> length k")
    case True
    with t r assms show False by (simp add: strip_rune_None)
  next
    case False
    then have "CHR ''/'' \<in> set (take (length r) (k @ CHR ''/'' # x))"
      by (cases "length r - length k") auto
    with t space_runes_no_slash [OF r] show False by simp
  qed
qed

definition solid_end :: "string \<Rightarrow> bool" where
  "solid_end x \<longleftrightarrow> x \<noteq> [] \<and> last x \<notin> set (map last space_runes)"

lemma strip_rune_solid:
  assumes "solid_end x"
  shows "strip_rune (map rev space_runes) (rev (k @ x)) = None"
proof -
  obtain y c where x: "x = y @ [c]" "c \<notin> set (map last space_runes)"
    using assms by (cases x rule: rev_cases) (auto simp: solid_end_def)
  have "\<forall>r \<in> set space_runes. r \<noteq> []" by (simp add: space_runes_def)
  then have "\<forall>r \<in> set space_runes. take (length (rev r)) (c # rev y @ rev k) \<noteq> rev r"
  proof (intro ballI notI)
    fix r
    assume r: "r \<in> set space_runes" "take (length (rev r)) (c # rev y @ rev k) = rev r"
      and ne: "\<forall>r \<in> set space_runes. r \<noteq> []"
    then obtain r' d where "r = r' @ [d]" by (metis rev_exhaust)
    with r have "d = c" by simp
    with r \<open>r = r' @ [d]\<close> x(2) show False by force
  qed
  with x show ?thesis by (simp add: strip_rune_None)
qed

lemma canonical_append:
  assumes "canonical k" and "list_all plain (split_on (CHR ''/'') x)" and "CHR 0x5C \<notin> set x"
    and "solid_end x"
  shows "canonical (k @ CHR ''/'' # x)"
proof -
  have "\<not> has_windows_volume_prefix (k @ CHR ''/'' # x)"
    using assms(1) canonical_not_Nil [OF assms(1)]
    by (auto simp: canonical_def has_windows_volume_prefix_def split: list.splits)
  moreover have "strip_rune (map rev space_runes) (rev (k @ CHR ''/'' # x)) = None"
    using strip_rune_solid [OF assms(4), of "k @ [CHR ''/'']"] by simp
  ultimately show ?thesis
    using assms strip_rune_append by (simp add: canonical_def split_on_append2)
qed

section \<open>The store invariant\<close>

definition root_ok :: "gopath \<Rightarrow> bool" where
  "root_ok root \<longleftrightarrow> clean_elems (elems root) \<and> (\<forall>x \<in> set (elems root). x = ''..'' \<or> plain x)"

lemma parse_path_root_ok: "root_ok (parse_path s)"
proof -
  have "clean_elems (rev [])" by (simp add: clean_elems_def)
  then have "clean_elems (elems (parse_path s))"
    using foldl_clean_step_clean [of "[]"] by (simp add: parse_path_def Let_def)
  then show ?thesis by (auto simp: root_ok_def dest: parse_path_elems)
qed

definition fs_inv :: "file_store \<Rightarrow> bool" where
  "fs_inv s \<longleftrightarrow> root_ok (fs_root s) \<and> gwf (fs_files s) \<and>
     (\<forall>p \<in> fst ` set (fs_files s).
        \<exists>rest. p = elems (fs_root s) @ rest \<and> rest \<noteq> [] \<and> list_all plain rest)"

lemma fs_path_plain:
  assumes "fs_path root key = Inr p" and "root_ok root"
  shows "\<exists>rest. p = elems root @ rest \<and> list_all plain rest"
proof -
  let ?key = "trim_space (slashes key)"
  obtain rest where rest: "p = elems root @ rest" "''..'' \<notin> set rest"
    using fs_path_below_root [OF assms(1)] assms(2) by (auto simp: root_ok_def)
  have p: "p = elems (join_path root (parse_path ?key))"
    using assms(1) by (auto simp: fs_path_def Let_def split: if_splits option.splits)
  have "plain x" if "x \<in> set rest" for x
  proof -
    have "x \<in> set (elems (join_path root (parse_path ?key)))" and "x \<noteq> ''..''"
      using that rest p by auto
    then have "x \<in> set (elems root) \<or> x \<in> set (elems (parse_path ?key))"
      by (auto simp: join_path_def dest: foldl_clean_set)
    with \<open>x \<noteq> ''..''\<close> assms(2) show ?thesis by (auto simp: root_ok_def dest: parse_path_elems)
  qed
  with rest show ?thesis by (auto simp: list_all_iff)
qed

lemma fst_set_gput: "fst ` set (gput k v m) = insert k (fst ` set m)"
  by (auto simp: update_conv' simp flip: dom_map_of_conv_image_fst)

lemma fs_put_simps:
  "fs_put s key data = (None, s') \<Longrightarrow>
     \<exists>p. fs_path (fs_root s) key = Inr p \<and> \<not> fs_blocked s p \<and>
         s' = s\<lparr>fs_files := gput p data (fs_files s), fs_faults := tl (fs_faults s)\<rparr>"
  by (auto simp: fs_put_def Let_def split: sum.splits if_splits)

lemma fs_put_fail: "fs_put s key data = (Some e, s') \<Longrightarrow> s' = s\<lparr>fs_faults := tl (fs_faults s)\<rparr>"
  by (auto simp: fs_put_def Let_def split: sum.splits if_splits)

lemma fs_key_faults [simp]: "fs_key (s\<lparr>fs_faults := fl\<rparr>) = fs_key s"
  by (rule ext) (simp add: fs_key_def)

lemma fs_get_faults [simp]: "fs_get (s\<lparr>fs_faults := fl\<rparr>) = fs_get s"
  by (rule ext) (simp add: fs_get_def cong: sum.case_cong)

lemma fs_list_faults [simp]: "fs_list (s\<lparr>fs_faults := fl\<rparr>) = fs_list s"
  by (rule ext) (simp add: fs_list_def Let_def cong: sum.case_cong)

lemma fs_inv_faults [simp]: "fs_inv (s\<lparr>fs_faults := fl\<rparr>) = fs_inv s"
  by (simp add: fs_inv_def)

lemma fs_inv_put: "fs_inv s \<Longrightarrow> fs_inv (snd (fs_put s key data))"
proof (cases "fs_put s key data")
  case (Pair r s')
  assume inv: "fs_inv s"
  show ?thesis
  proof (cases r)
    case None
    with fs_put_simps Pair obtain p where p: "fs_path (fs_root s) key = Inr p" "\<not> fs_blocked s p"
      and s': "s' = s\<lparr>fs_files := gput p data (fs_files s), fs_faults := tl (fs_faults s)\<rparr>" by blast
    from fs_path_plain [OF p(1)] inv obtain rest where
      "p = elems (fs_root s) @ rest" "list_all plain rest" by (auto simp: fs_inv_def)
    moreover from this p(2) have "rest \<noteq> []" by (auto simp: fs_blocked_def)
    ultimately show ?thesis
      using inv s' Pair by (auto simp: fs_inv_def fst_set_gput)
  next
    case (Some e)
    with Pair have "s' = s\<lparr>fs_faults := tl (fs_faults s)\<rparr>" using fs_put_fail by blast
    with Pair inv show ?thesis by simp
  qed
qed

lemma set_gdel_subset: "x \<in> set (gdel k m) \<Longrightarrow> x \<in> set m"
  by (auto simp: AList.delete_eq)

lemma fs_inv_delete: "fs_inv s \<Longrightarrow> fs_inv (snd (fs_delete s key))"
  by (auto simp: fs_inv_def fs_delete_def split: sum.splits dest: set_gdel_subset)

lemma fs_key_append: "fs_key s (elems (fs_root s) @ split_on (CHR ''/'') k) = k"
  by (simp add: fs_key_def)

lemma fs_key_inj:
  assumes "fs_inv s" and "p \<in> fst ` set (fs_files s)" and "q \<in> fst ` set (fs_files s)"
    and "fs_key s p = fs_key s q"
  shows "p = q"
proof -
  obtain a b where a: "p = elems (fs_root s) @ a" "a \<noteq> []" "list_all plain a"
    and b: "q = elems (fs_root s) @ b" "b \<noteq> []" "list_all plain b"
    using assms(1-3) unfolding fs_inv_def by meson
  then have "join_with [CHR ''/''] a = join_with [CHR ''/''] b"
    using assms(4) by (simp add: fs_key_def)
  then have "split_on (CHR ''/'') (join_with [CHR ''/''] a) = split_on (CHR ''/'') (join_with [CHR ''/''] b)"
    by simp
  moreover have "\<forall>x \<in> set a. CHR ''/'' \<notin> set x" "\<forall>x \<in> set b. CHR ''/'' \<notin> set x"
    using a b by (auto simp: list_all_iff plain_def)
  ultimately have "a = b" using a(2) b(2) by (simp add: split_join)
  with a b show ?thesis by simp
qed

section \<open>The interface\<close>

text \<open>
  What the log relies on, for canonical keys: a stored object is read back, other objects stay,
  a failed write changes no object, and a listing names exactly the objects below its prefix.
\<close>

locale object_storage =
  fixes put :: "'s \<Rightarrow> string \<Rightarrow> string \<Rightarrow> 'e option \<times> 's"
    and get :: "'s \<Rightarrow> string \<Rightarrow> 'e + string"
    and lst :: "'s \<Rightarrow> string \<Rightarrow> 'e + string list"
    and canon :: "string \<Rightarrow> bool"
    and inv :: "'s \<Rightarrow> bool"
  assumes inv_put: "inv s \<Longrightarrow> inv (snd (put s k d))"
    and put_get: "inv s \<Longrightarrow> canon k \<Longrightarrow> canon k' \<Longrightarrow> put s k d = (None, s') \<Longrightarrow>
      get s' k' = (if k' = k then Inr d else get s k')"
    and put_fail: "put s k d = (Some e, s') \<Longrightarrow> get s' = get s \<and> lst s' = lst s"
    and list_put: "inv s \<Longrightarrow> canon k \<Longrightarrow> canon p \<Longrightarrow> put s k d = (None, s') \<Longrightarrow>
      lst s (p @ ''/'') = Inr ks \<Longrightarrow>
      \<exists>ks'. lst s' (p @ ''/'') = Inr ks' \<and>
        set ks' = set ks \<union> (if has_prefix k (p @ ''/'') \<or> k = p then {k} else {})"
    and list_distinct: "inv s \<Longrightarrow> canon p \<Longrightarrow> lst s (p @ ''/'') = Inr ks \<Longrightarrow> distinct ks"

section \<open>The file store implements the interface\<close>

lemma canonical_last: "canonical k \<Longrightarrow> last k \<noteq> CHR ''/''"
proof
  assume c: "canonical k" and l: "last k = CHR ''/''"
  then obtain y where "k = y @ CHR ''/'' # []"
    using canonical_not_Nil by (metis append_butlast_last_id)
  then have "split_on (CHR ''/'') k = split_on (CHR ''/'') y @ [[]]"
    using split_on_append2 [of "CHR ''/''" y "[]"] by simp
  with c show False by (auto simp: canonical_def plain_def)
qed

lemma trim_slashes_canonical: "canonical p \<Longrightarrow> trim_slashes (p @ ''/'') = p"
proof -
  assume p: "canonical p"
  obtain x y where "p = x # y" "x \<noteq> CHR ''/''"
    using canonical_hd [OF p] canonical_not_Nil [OF p] by (cases p) auto
  then have d: "dropWhile (\<lambda>c. c = CHR ''/'') (p @ ''/'') = p @ ''/''" by simp
  obtain z l where "p = z @ [l]" "l \<noteq> CHR ''/''"
    using canonical_last [OF p] canonical_not_Nil [OF p] by (cases p rule: rev_cases) auto
  then have "dropWhile (\<lambda>c. c = CHR ''/'') (rev p) = rev p" by simp
  with d show ?thesis by (simp add: trim_slashes_def)
qed

lemma canonical_probe: "canonical p \<Longrightarrow> canonical (p @ ''/.probe'')"
proof -
  assume p: "canonical p"
  have "list_all plain (split_on (CHR ''/'') ''.probe'')" "CHR 0x5C \<notin> set ''.probe''" "solid_end ''.probe''"
    by (simp_all add: plain_def solid_end_def space_runes_def)
  from canonical_append [OF p this] show ?thesis by simp
qed

lemma slashes_canonical_slash: "canonical p \<Longrightarrow> slashes (p @ ''/'') = p @ ''/''"
  using canonical_slashes [of p] by (simp add: slashes_def)

lemma fs_list_canonical:
  assumes "canonical p"
  shows "fs_list s (p @ ''/'') =
    Inr (sort (filter (\<lambda>k. has_prefix k (p @ ''/'') \<or> k = p) (map (fs_key s \<circ> fst) (fs_files s))))"
  using fs_path_canonical [OF canonical_probe [OF assms]] canonical_not_Nil [OF assms]
  by (simp add: fs_list_def slashes_canonical_slash [OF assms] trim_slashes_canonical [OF assms])

lemma fs_key_gput: "fs_key (s\<lparr>fs_files := m\<rparr>) = fs_key s"
  by (simp add: fs_key_def fun_eq_iff)

lemma fs_list_set:
  assumes "canonical p"
  shows "\<exists>ks. fs_list s (p @ ''/'') = Inr ks \<and>
    set ks = {k \<in> fs_key s ` fst ` set (fs_files s). has_prefix k (p @ ''/'') \<or> k = p}"
  using fs_list_canonical [OF assms, of s] by (simp add: image_comp)

interpretation file_objects: object_storage fs_put fs_get fs_list canonical fs_inv
proof (unfold_locales, goal_cases)
  case (1 s k d)
  then show ?case by (rule fs_inv_put)
next
  case (2 s k k' d s')
  then have s'': "s' = s\<lparr>fs_files := gput (elems (fs_root s) @ split_on (CHR ''/'') k) d (fs_files s),
      fs_faults := tl (fs_faults s)\<rparr>"
    using fs_put_simps [OF 2(4)] by (auto simp: fs_path_canonical)
  have "split_on (CHR ''/'') k' = split_on (CHR ''/'') k \<longleftrightarrow> k' = k" by (metis join_split)
  with 2 s'' show ?case by (simp add: fs_get_def fs_path_canonical)
next
  case (3 s k d e s')
  then show ?case by (auto dest: fs_put_fail)
next
  case (4 s k p d s' ks)
  then have "s' = s\<lparr>fs_files := gput (elems (fs_root s) @ split_on (CHR ''/'') k) d (fs_files s),
      fs_faults := tl (fs_faults s)\<rparr>"
    using fs_put_simps [OF 4(4)] by (auto simp: fs_path_canonical)
  then have "fs_key s' ` fst ` set (fs_files s') = insert k (fs_key s ` fst ` set (fs_files s))"
    by (simp add: fst_set_gput fs_key_gput fs_key_append)
  moreover obtain ks' where "fs_list s' (p @ ''/'') = Inr ks'"
    "set ks' = {k \<in> fs_key s' ` fst ` set (fs_files s'). has_prefix k (p @ ''/'') \<or> k = p}"
    using fs_list_set [OF 4(3)] by blast
  moreover have "set ks = {k \<in> fs_key s ` fst ` set (fs_files s). has_prefix k (p @ ''/'') \<or> k = p}"
    using fs_list_set [OF 4(3), of s] 4(5) by auto
  ultimately show ?case by auto
next
  case (5 s p ks)
  have "inj_on (fs_key s) (fst ` set (fs_files s))"
    using 5(1) fs_key_inj by (blast intro: inj_onI)
  with 5 show ?case
    by (auto simp: fs_list_canonical fs_inv_def gwf_def distinct_map comp_inj_on intro!: distinct_filter)
qed

section \<open>Properties\<close>

text \<open>
  C35. No object key leads out of the store: whatever the key (dot-dot elements, backslashes,
  blanks, drive letters), a path that \<open>FileStore.path\<close> accepts is the root followed by ordinary
  elements, none of them \<open>.\<close> or \<open>..\<close>. The root is any path as \<open>NewFileStore\<close> cleans it.
\<close>

theorem object_path_contained:
  assumes "fs_path (parse_path root) key = Inr p"
  shows "\<exists>rest. p = elems (parse_path root) @ rest \<and> list_all plain rest"
  using assms parse_path_root_ok by (rule fs_path_plain)

theorem object_path_contained_witness:
  "\<exists>rest. [''data'', ''wal'', ''b''] = elems (parse_path ''/data/wal'') @ rest \<and> list_all plain rest"
proof -
  have "fs_path (parse_path ''/data/wal'') ''a/../../wal/b '' = Inr [''data'', ''wal'', ''b'']"
    by code_simp
  then show ?thesis by (rule object_path_contained)
qed

end
