(* ===== verification/WalLog.thy ===== *)
theory WalLog
  imports WalCodec ObjectStore
begin

text \<open>
  The writer and the reader of the replication log, from \<open>control-plane/replication/wal/wal.go\<close>,
  over any object store: the store's operations are arguments of the definitions, and their laws
  are those of the locale \<open>object_storage\<close>. Every writer method runs under the writer's mutex, so
  a method call and a tick of the background flusher are atomic steps. An entry is a value here;
  that the code keeps the caller's pointer in \<open>pending\<close> until the flush is not modelled.
\<close>

section \<open>Decimal numbers\<close>

definition digit_val :: "char \<Rightarrow> nat" where
  "digit_val c = of_char c - 48"

definition digits_val :: "string \<Rightarrow> nat" where
  "digits_val s = foldl (\<lambda>a c. 10 * a + digit_val c) 0 s"

text \<open>\<open>fmt.Sprintf("%016d", x)\<close>\<close>

definition pad16 :: "int \<Rightarrow> string" where
  "pad16 x =
     (let ds = digits (nat \<bar>x\<bar>) in
      if x \<ge> 0 then replicate (16 - length ds) (CHR ''0'') @ ds
      else CHR ''-'' # replicate (15 - length ds) (CHR ''0'') @ ds)"

definition split_sign :: "string \<Rightarrow> bool \<times> string" where
  "split_sign s =
     (case s of
        [] \<Rightarrow> (False, [])
      | c # cs \<Rightarrow> if c = CHR ''-'' then (True, cs) else if c = CHR ''+'' then (False, cs) else (False, s))"

definition signed_val :: "bool \<Rightarrow> string \<Rightarrow> int option" where
  "signed_val neg ds =
     (let v = int (digits_val ds); x = (if neg then - v else v)
      in if int64_range x then Some x else None)"

text \<open>\<open>strconv.ParseInt(s, 10, 64)\<close>\<close>

definition parse_int64 :: "string \<Rightarrow> int option" where
  "parse_int64 s =
     (let (neg, ds) = split_sign s
      in if ds = [] \<or> \<not> list_all is_digit ds then None else signed_val neg ds)"

text \<open>
  \<open>fmt.Sscanf(s, "%d", &seq)\<close>: blanks are skipped (a newline is an error), then a sign and at
  least one digit are read; what follows the digits is left unread.
\<close>

definition sscan_int64 :: "string \<Rightarrow> int option" where
  "sscan_int64 s =
     (let t = strip_runes (removeAll [CHR 0x0A] space_runes) (length s) s;
          (neg, u) = split_sign t;
          ds = takeWhile is_digit u
      in if ds = [] then None else signed_val neg ds)"

section \<open>The writer\<close>

record wal_config =
  cfg_region :: string
  cfg_prefix :: string
  cfg_flush_interval :: duration
  cfg_batch_size :: int

record writer =
  w_cfg :: wal_config
  w_closed :: bool
  w_closing :: bool
  w_sequence :: int
  w_pending :: "entry list"
  w_flusher :: bool

definition entry_key :: "wal_config \<Rightarrow> int \<Rightarrow> string" where
  "entry_key cfg sq = cfg_prefix cfg @ ''/'' @ cfg_region cfg @ ''/'' @ pad16 sq @ ''.wal''"

definition trim_suffix :: "string \<Rightarrow> string \<Rightarrow> string" where
  "trim_suffix s suf =
     (if drop (length s - length suf) s = suf then take (length s - length suf) s else s)"

definition resume_step :: "wal_config \<Rightarrow> int \<Rightarrow> string \<Rightarrow> int" where
  "resume_step cfg mx key =
     (let parts = split_on (CHR ''/'') (trim_suffix key ''.wal'');
          prefix_parts = split_on (CHR ''/'') (trim_suffix (cfg_prefix cfg) ''/'')
      in if length parts \<noteq> length prefix_parts + 2 \<or>
            join_with ''/'' (take (length prefix_parts) parts) \<noteq> join_with ''/'' prefix_parts \<or>
            parts ! length prefix_parts \<noteq> cfg_region cfg
         then mx
         else case parse_int64 (last parts) of
                Some sq \<Rightarrow> if sq > mx then sq else mx
              | None \<Rightarrow> mx)"

definition resume_sequence ::
  "('s \<Rightarrow> string \<Rightarrow> 'e + string list) \<Rightarrow> 's \<Rightarrow> wal_config \<Rightarrow> wal_error + int" where
  "resume_sequence lst s cfg =
     (case lst s (cfg_prefix cfg @ ''/'') of
        Inl _ \<Rightarrow> Inl (StorageFailed ''list objects'')
      | Inr keys \<Rightarrow> Inr (foldl (resume_step cfg) 0 keys))"

definition new_writer ::
  "('s \<Rightarrow> string \<Rightarrow> 'e + string list) \<Rightarrow> 's \<Rightarrow> wal_config \<Rightarrow> wal_error + writer" where
  "new_writer lst s cfg =
     (if cfg_region cfg = [] \<or> cfg_prefix cfg = []
      then Inl (ErrInvalidEntry ''region and WAL prefix are required'')
      else if cfg_flush_interval cfg \<le> 0 \<or> cfg_batch_size cfg \<le> 0
      then Inl (ErrInvalidEntry ''flush interval and batch size must be positive'')
      else case resume_sequence lst s cfg of
        Inl e \<Rightarrow> Inl e
      | Inr sq \<Rightarrow> Inr \<lparr>w_cfg = cfg, w_closed = False, w_closing = False, w_sequence = sq,
                       w_pending = [], w_flusher = True\<rparr>)"

fun flush_entries ::
  "('s \<Rightarrow> string \<Rightarrow> string \<Rightarrow> 'e option \<times> 's) \<Rightarrow> wal_config \<Rightarrow> 's \<Rightarrow> entry list \<Rightarrow> wal_error option \<times> 's" where
  "flush_entries put cfg s [] = (None, s)"
| "flush_entries put cfg s (e # es) =
     (case marshal_binary e of
        Inl err \<Rightarrow> (Some err, s)
      | Inr (data, _) \<Rightarrow>
          (case put s (entry_key cfg (e_sequence e)) data of
             (Some _, s') \<Rightarrow> (Some (StorageFailed ''put object''), s')
           | (None, s') \<Rightarrow> flush_entries put cfg s' es))"

definition flush_locked ::
  "('s \<Rightarrow> string \<Rightarrow> string \<Rightarrow> 'e option \<times> 's) \<Rightarrow> writer \<Rightarrow> 's \<Rightarrow> wal_error option \<times> writer \<times> 's" where
  [effect_defs]: "flush_locked put w s =
     (case flush_entries put (w_cfg w) s (w_pending w) of
        (None, s') \<Rightarrow> (None, w\<lparr>w_pending := []\<rparr>, s')
      | (Some err, s') \<Rightarrow> (Some err, w, s'))"

text \<open>\<open>Append\<close> and \<open>AppendDurable\<close>; the result also has the entry as the call leaves it.\<close>

definition prepare_entry :: "writer \<Rightarrow> entry \<Rightarrow> instant \<Rightarrow> entry" where
  "prepare_entry w e now =
     e\<lparr>e_sequence := wrap64 (w_sequence w + 1), e_region := cfg_region (w_cfg w), e_timestamp := now\<rparr>"

definition accept_entry :: "writer \<Rightarrow> entry \<Rightarrow> writer" where
  "accept_entry w e = w\<lparr>w_sequence := wrap64 (w_sequence w + 1), w_pending := w_pending w @ [e]\<rparr>"

definition wal_append ::
  "('s \<Rightarrow> string \<Rightarrow> string \<Rightarrow> 'e option \<times> 's) \<Rightarrow> writer \<Rightarrow> 's \<Rightarrow> entry \<Rightarrow> bool \<Rightarrow> instant \<Rightarrow>
     wal_error option \<times> entry \<times> writer \<times> 's" where
  [effect_defs]: "wal_append put w s e durable now =
     (if w_closed w \<or> w_closing w then (Some ErrWalClosed, e, w, s)
      else if e_region e \<noteq> [] \<and> e_region e \<noteq> cfg_region (w_cfg w) then (Some ErrMismatchedRegion, e, w, s)
      else case marshal_binary (prepare_entry w e now) of
        Inl err \<Rightarrow> (Some err, (prepare_entry w e now)\<lparr>e_sequence := 0\<rparr>, w, s)
      | Inr (_, e2) \<Rightarrow>
          if durable \<or> cfg_batch_size (w_cfg w) \<le> 0 \<or>
             int (length (w_pending (accept_entry w e2))) \<ge> cfg_batch_size (w_cfg w)
          then (case flush_locked put (accept_entry w e2) s of (err, w2, s2) \<Rightarrow> (err, e2, w2, s2))
          else (None, e2, accept_entry w e2, s))"

text \<open>One tick of \<open>runFlusher\<close>.\<close>

definition flusher_tick ::
  "('s \<Rightarrow> string \<Rightarrow> string \<Rightarrow> 'e option \<times> 's) \<Rightarrow> writer \<Rightarrow> 's \<Rightarrow> writer \<times> 's" where
  [effect_defs]: "flusher_tick put w s =
     (if w_flusher w \<and> \<not> w_closed w \<and> w_pending w \<noteq> [] then snd (flush_locked put w s) else (w, s))"

text \<open>
  \<open>Close\<close>: it first stops the flusher for good, then flushes. When that flush fails the writer is
  open again, without a flusher.
\<close>

definition wal_close ::
  "('s \<Rightarrow> string \<Rightarrow> string \<Rightarrow> 'e option \<times> 's) \<Rightarrow> writer \<Rightarrow> 's \<Rightarrow> wal_error option \<times> writer \<times> 's" where
  [effect_defs]: "wal_close put w s =
     (if w_closed w \<or> w_closing w then (None, w, s)
      else let w1 = w\<lparr>w_flusher := False\<rparr> in
        (case (if w_pending w1 \<noteq> [] then flush_locked put w1 s else (None, w1, s)) of
           (Some err, w2, s') \<Rightarrow> (Some err, w2\<lparr>w_closing := False\<rparr>, s')
         | (None, w2, s') \<Rightarrow> (None, w2\<lparr>w_closed := True, w_closing := False\<rparr>, s')))"

section \<open>The reader\<close>

record reader =
  r_region :: string
  r_prefix :: string
  r_last :: int

definition new_reader :: "string \<Rightarrow> string \<Rightarrow> int \<Rightarrow> wal_error + reader" where
  "new_reader region prefix from =
     (if region = [] \<or> prefix = [] \<or> from < 0
      then Inl (ErrInvalidEntry ''region, WAL prefix and non-negative resume sequence are required'')
      else Inr \<lparr>r_region = region, r_prefix = prefix, r_last = from\<rparr>)"

definition read_entry ::
  "('s \<Rightarrow> string \<Rightarrow> 'e + string) \<Rightarrow> 's \<Rightarrow> string \<Rightarrow> string \<Rightarrow> int \<Rightarrow> wal_error + entry" where
  "read_entry get s prefix region sq =
     (case get s (prefix @ ''/'' @ region @ ''/'' @ pad16 sq @ ''.wal'') of
        Inl _ \<Rightarrow> Inl (StorageFailed ''get object'')
      | Inr data \<Rightarrow> unmarshal_binary data)"

definition read_next ::
  "('s \<Rightarrow> string \<Rightarrow> 'e + string) \<Rightarrow> 's \<Rightarrow> reader \<Rightarrow> (wal_error + entry) \<times> reader" where
  [effect_defs]: "read_next get s r =
     (let start = wrap64 (r_last r + 1) in
      case read_entry get s (r_prefix r) (r_region r) start of
        Inl err \<Rightarrow> (Inl err, r)
      | Inr e \<Rightarrow>
          if e_sequence e \<noteq> start \<or> e_region e \<noteq> r_region r then (Inl ErrGap, r)
          else (Inr e, r\<lparr>r_last := e_sequence e\<rparr>))"

definition last_slash_part :: "string \<Rightarrow> string" where
  "last_slash_part s = rev (takeWhile (\<lambda>c. c \<noteq> CHR ''/'') (rev s))"

definition parse_sequence_from_key :: "string \<Rightarrow> int" where
  "parse_sequence_from_key key =
     (if length key < 4 \<or> drop (length key - 4) key \<noteq> ''.wal'' then 0
      else let seq_part = take (length key - 4) key in
        if CHR ''/'' \<notin> set seq_part then 0
        else case sscan_int64 (last_slash_part seq_part) of None \<Rightarrow> 0 | Some sq \<Rightarrow> sq)"

text \<open>The loop of \<open>ReadBatch\<close>; \<open>n\<close> is the number of entries read so far.\<close>

fun read_seqs ::
  "('s \<Rightarrow> string \<Rightarrow> 'e + string) \<Rightarrow> 's \<Rightarrow> reader \<Rightarrow> int \<Rightarrow> nat \<Rightarrow> int list \<Rightarrow> wal_error + entry list" where
  "read_seqs get s r start n [] = Inr []"
| "read_seqs get s r start n (sq # sqs) =
     (if sq \<noteq> wrap64 (start + int n) then Inl ErrGap
      else case read_entry get s (r_prefix r) (r_region r) sq of
        Inl err \<Rightarrow> Inl err
      | Inr e \<Rightarrow>
          if e_sequence e \<noteq> sq \<or> e_region e \<noteq> r_region r then Inl ErrGap
          else (case read_seqs get s r start (Suc n) sqs of Inl err \<Rightarrow> Inl err | Inr es \<Rightarrow> Inr (e # es)))"

definition read_batch ::
  "('s \<Rightarrow> string \<Rightarrow> 'e + string) \<Rightarrow> ('s \<Rightarrow> string \<Rightarrow> 'e + string list) \<Rightarrow> 's \<Rightarrow> reader \<Rightarrow> int \<Rightarrow>
     (wal_error + entry list) \<times> reader" where
  [effect_defs]: "read_batch get lst s r max_count =
     (if max_count \<le> 0 then (Inr [], r)
      else let start = wrap64 (r_last r + 1) in
        (case lst s (r_prefix r @ ''/'' @ r_region r @ ''/'') of
           Inl _ \<Rightarrow> (Inl (StorageFailed ''list objects''), r)
         | Inr keys \<Rightarrow>
             let sqs = take (nat max_count) (sort (filter (\<lambda>sq. sq \<ge> start) (map parse_sequence_from_key keys)))
             in case read_seqs get s r start 0 sqs of
                  Inl err \<Rightarrow> (Inl err, r)
                | Inr es \<Rightarrow> (Inr es, if es = [] then r else r\<lparr>r_last := e_sequence (last es)\<rparr>)))"

section \<open>Runs of a writer\<close>

text \<open>
  A run is a sequence of appends, ticks and closes on one writer. Next to the writer and the store
  it keeps the entries the writer has given a sequence number to, in order.
\<close>

datatype wal_op =
    OpAppend entry bool instant
  | OpTick
  | OpClose

fun wal_exec ::
  "('s \<Rightarrow> string \<Rightarrow> string \<Rightarrow> 'e option \<times> 's) \<Rightarrow> writer \<times> 's \<times> entry list \<Rightarrow> wal_op \<Rightarrow> writer \<times> 's \<times> entry list" where
  "wal_exec put (w, s, hist) (OpAppend e durable now) =
     (let (_, e', w', s') = wal_append put w s e durable now
      in (w', s', if w_sequence w' = w_sequence w then hist else hist @ [e']))"
| "wal_exec put (w, s, hist) OpTick = (let (w', s') = flusher_tick put w s in (w', s', hist))"
| "wal_exec put (w, s, hist) OpClose = (let (_, w', s') = wal_close put w s in (w', s', hist))"

definition entry_data :: "entry \<Rightarrow> string" where
  "entry_data e = (case marshal_binary e of Inl _ \<Rightarrow> [] | Inr (data, _) \<Rightarrow> data)"

definition wal_dir :: "wal_config \<Rightarrow> string" where
  "wal_dir cfg = cfg_prefix cfg @ ''/'' @ cfg_region cfg"

definition wal_keys_ok :: "(string \<Rightarrow> bool) \<Rightarrow> wal_config \<Rightarrow> bool" where
  "wal_keys_ok canon cfg \<longleftrightarrow> canon (wal_dir cfg) \<and> (\<forall>n. 0 < n \<longrightarrow> canon (entry_key cfg n))"

text \<open>The store holds exactly the first \<open>m\<close> entries of the history, each under its own key.\<close>

definition wal_stored ::
  "('s \<Rightarrow> string \<Rightarrow> 'e + string) \<Rightarrow> ('s \<Rightarrow> string \<Rightarrow> 'e + string list) \<Rightarrow> 's \<Rightarrow> wal_config \<Rightarrow> entry list \<Rightarrow> nat \<Rightarrow> bool" where
  "wal_stored get lst s cfg hist m \<longleftrightarrow>
     (\<exists>ks. lst s (wal_dir cfg @ ''/'') = Inr ks \<and> set ks = entry_key cfg ` {1..int m}) \<and>
     (\<forall>i < m. get s (entry_key cfg (int i + 1)) = Inr (entry_data (hist ! i)))"

definition hist_ok :: "wal_config \<Rightarrow> entry list \<Rightarrow> bool" where
  "hist_ok cfg hist \<longleftrightarrow> int (length hist) < 2 ^ 63 \<and>
     (\<forall>i < length hist. e_sequence (hist ! i) = int i + 1 \<and> e_region (hist ! i) = cfg_region cfg \<and>
        marshal_binary (hist ! i) = Inr (entry_data (hist ! i), hist ! i))"

text \<open>
  The entries \<open>UnmarshalBinary\<close> can give back: the numbers fit their types, and the strings are long
  enough for its check of the length, which the writer does not make.
\<close>

definition long_enough :: "entry \<Rightarrow> bool" where
  "long_enough e \<longleftrightarrow> 4 \<le> length (e_job_id e) + length (e_region e) + length (e_checkpoint_uri e)"

definition readable :: "entry \<Rightarrow> bool" where
  "readable e \<longleftrightarrow> entry_in_range e \<and> long_enough e"

text \<open>What a reader gets from the entries that it reads one after the other: all, or the error of the decoder.\<close>

definition decoded :: "entry list \<Rightarrow> wal_error + entry list" where
  "decoded es = (if list_all long_enough es then Inr es else Inl (ErrInvalidEntry ''data too short''))"

fun log_inv ::
  "('s \<Rightarrow> string \<Rightarrow> 'e + string) \<Rightarrow> ('s \<Rightarrow> string \<Rightarrow> 'e + string list) \<Rightarrow> wal_config \<Rightarrow>
     writer \<times> 's \<times> entry list \<Rightarrow> bool" where
  "log_inv get lst cfg (w, s, hist) \<longleftrightarrow>
     w_cfg w = cfg \<and> w_sequence w = int (length hist) \<and> hist_ok cfg hist \<and>
     (\<exists>k m. w_pending w = drop k hist \<and> k \<le> m \<and> m \<le> length hist \<and> wal_stored get lst s cfg hist m)"

section \<open>Lemmas: decimal numbers\<close>

lemma digit_char: "n < 10 \<Longrightarrow> digit_val (char_of (48 + n)) = n \<and> is_digit (char_of (48 + n :: nat))"
  by (simp add: digit_val_def is_digit_def less_eq_char_def)

lemma digits_val_snoc: "digits_val (s @ [c]) = 10 * digits_val s + digit_val c"
  by (simp add: digits_val_def)

lemma digits_val_digits: "digits_val (digits n) = n \<and> list_all is_digit (digits n) \<and> digits n \<noteq> []"
proof (induction n rule: digits.induct)
  case (1 n)
  show ?case
  proof (cases "n < 10")
    case True
    then show ?thesis
      using digit_char [OF True] by (subst (1 2 3) digits.simps) (simp add: digits_val_def)
  next
    case False
    have "n mod 10 < 10" by simp
    with 1 False show ?thesis
      using digit_char [of "n mod 10"]
      by (subst (1 2 3) digits.simps) (simp add: digits_val_snoc del: digits.simps)
  qed
qed

lemma digits_val_zeros: "digits_val (replicate k (CHR ''0'') @ s) = digits_val s"
proof (induction k)
  case (Suc k)
  have "digits_val (CHR ''0'' # t) = digits_val t" for t
    by (simp add: digits_val_def digit_val_def)
  with Suc show ?case by simp
qed simp

lemma pad16_nonneg:
  assumes "0 \<le> x"
  shows "digits_val (pad16 x) = nat x" "list_all is_digit (pad16 x)" "pad16 x \<noteq> []"
  using assms digits_val_digits [of "nat x"]
  by (auto simp: pad16_def Let_def digits_val_zeros list_all_iff) (auto simp: is_digit_def)

lemma split_sign_digit: "is_digit c \<Longrightarrow> split_sign (c # cs) = (False, c # cs)"
  by (auto simp: split_sign_def is_digit_def less_eq_char_def)

lemma strip_runes_digit:
  assumes "is_digit c" and "set rs \<subseteq> set space_runes"
  shows "strip_runes rs n (c # cs) = c # cs"
proof -
  have "\<forall>r \<in> set space_runes. take (length r) (c # cs) \<noteq> r"
    using assms(1) by (auto simp: space_runes_def is_digit_def less_eq_char_def)
  with assms(2) have "strip_rune rs (c # cs) = None" by (auto simp: strip_rune_None)
  then show ?thesis by (cases n) simp_all
qed

lemma pad16_parse:
  assumes "0 \<le> x" and "x < 2 ^ 63"
  shows "parse_int64 (pad16 x) = Some x" and "sscan_int64 (pad16 x) = Some x"
proof -
  obtain c cs where p: "pad16 x = c # cs" using pad16_nonneg(3) [OF assms(1)] by (cases "pad16 x") auto
  have d: "list_all is_digit (c # cs)" and v: "int (digits_val (c # cs)) = x"
    using pad16_nonneg [OF assms(1)] assms(1) p by simp_all
  have "signed_val False (c # cs) = Some x"
    using v assms by (simp add: signed_val_def int64_range_def)
  moreover have tw: "takeWhile is_digit cs = cs" using d by (simp add: takeWhile_eq_all_conv list_all_iff)
  moreover have "strip_runes (removeAll [CHR 0x0A] space_runes) n (c # cs) = c # cs" for n
    using d by (intro strip_runes_digit) auto
  ultimately show "parse_int64 (pad16 x) = Some x" and "sscan_int64 (pad16 x) = Some x"
    using d unfolding p by (simp_all only: parse_int64_def sscan_int64_def) (simp_all add: split_sign_digit tw)
qed

lemma pad16_no_slash: "0 \<le> x \<Longrightarrow> CHR ''/'' \<notin> set (pad16 x)"
  using pad16_nonneg(2) [of x] by (auto simp: list_all_iff is_digit_def less_eq_char_def)

lemma last_slash_part_append: "CHR ''/'' \<notin> set t \<Longrightarrow> last_slash_part (s @ CHR ''/'' # t) = t"
proof -
  assume "CHR ''/'' \<notin> set t"
  then have "takeWhile (\<lambda>c. c \<noteq> CHR ''/'') (rev t @ CHR ''/'' # rev s) = rev t"
    by (subst takeWhile_append2) auto
  then show ?thesis by (simp add: last_slash_part_def)
qed

lemma parse_entry_key:
  assumes "0 \<le> sq" and "sq < 2 ^ 63"
  shows "parse_sequence_from_key (entry_key cfg sq) = sq"
proof -
  let ?s = "(cfg_prefix cfg @ ''/'' @ cfg_region cfg) @ CHR ''/'' # pad16 sq"
  have k: "entry_key cfg sq = ?s @ ''.wal''" by (simp add: entry_key_def)
  have "last_slash_part ?s = pad16 sq"
    using pad16_no_slash [OF assms(1)] by (rule last_slash_part_append)
  then show ?thesis
    unfolding parse_sequence_from_key_def k using pad16_parse(2) [OF assms] by (simp add: Let_def)
qed

lemma entry_key_inj:
  "0 \<le> a \<Longrightarrow> a < 2 ^ 63 \<Longrightarrow> 0 \<le> b \<Longrightarrow> b < 2 ^ 63 \<Longrightarrow> entry_key cfg a = entry_key cfg b \<longleftrightarrow> a = b"
  by (metis parse_entry_key)

section \<open>Lemmas: writing over any object store\<close>

lemma image_int_range: "(\<lambda>i. int i + 1) ` {c..<m} = {int c + 1..int m}"
proof
  show "{int c + 1..int m} \<subseteq> (\<lambda>i. int i + 1) ` {c..<m}"
  proof
    fix x assume "x \<in> {int c + 1..int m}"
    then have "x = int (nat (x - 1)) + 1" "nat (x - 1) \<in> {c..<m}" by auto
    then show "x \<in> (\<lambda>i. int i + 1) ` {c..<m}" by (rule image_eqI)
  qed
qed auto

lemma marshal_again: "marshal_binary e = Inr (d, e') \<Longrightarrow> marshal_binary e' = Inr (d, e')"
  by (auto simp: marshal_binary_def entry_body_def Let_def split: if_splits)

lemma marshal_entry_data: "marshal_binary e = Inr (d, e') \<Longrightarrow> d = entry_data e'"
  using marshal_again [of e d e'] by (simp add: entry_data_def)

lemma marshal_fields:
  assumes "marshal_binary e = Inr (d, e')"
  shows "e_sequence e' = e_sequence e" "e_region e' = e_region e" "0 < e_sequence e"
  using assms by (auto simp: marshal_binary_def Let_def split: if_splits)

lemma entry_key_dir: "has_prefix (entry_key cfg n) (wal_dir cfg @ ''/'')"
  by (simp add: has_prefix_def entry_key_def wal_dir_def)

lemma hist_ok_snoc:
  assumes "hist_ok cfg hist" and "int (length hist) + 1 < 2 ^ 63" and "e_sequence e = int (length hist) + 1"
    and "e_region e = cfg_region cfg" and "marshal_binary e = Inr (entry_data e, e)"
  shows "hist_ok cfg (hist @ [e])"
  using assms by (auto simp: hist_ok_def nth_append)

lemma log_invI:
  assumes "w_cfg w = cfg" and "w_sequence w = int (length hist)" and "hist_ok cfg hist"
    and "w_pending w = drop k hist" and "k \<le> m" and "m \<le> length hist" and "wal_stored get lst s cfg hist m"
  shows "log_inv get lst cfg (w, s, hist)"
  using assms unfolding log_inv.simps by blast

lemma log_invE:
  assumes "log_inv get lst cfg (w, s, hist)"
  obtains k m where "w_cfg w = cfg" and "w_sequence w = int (length hist)" and "hist_ok cfg hist"
    and "w_pending w = drop k hist" and "k \<le> m" and "m \<le> length hist" and "wal_stored get lst s cfg hist m"
  using assms unfolding log_inv.simps by blast

declare log_inv.simps [simp del]

lemma wal_append_cases:
  assumes "wal_append put w s e durable now = (err, e', w', s')"
  obtains (rejected) "w' = w" and "s' = s" and "err \<noteq> None"
  | (kept) d where "marshal_binary (prepare_entry w e now) = Inr (d, e')"
      and "w' = accept_entry w e'" and "s' = s" and "\<not> durable"
  | (flushed) d where "marshal_binary (prepare_entry w e now) = Inr (d, e')"
      and "flush_locked put (accept_entry w e') s = (err, w', s')"
proof (cases "w_closed w \<or> w_closing w \<or> e_region e \<noteq> [] \<and> e_region e \<noteq> cfg_region (w_cfg w)")
  case True
  with assms have "w' = w" "s' = s" "err \<noteq> None" by (auto simp: wal_append_def split: if_splits)
  then show ?thesis by (rule rejected)
next
  case False
  then have opn: "\<not> (w_closed w \<or> w_closing w)" "\<not> (e_region e \<noteq> [] \<and> e_region e \<noteq> cfg_region (w_cfg w))"
    by auto
  show ?thesis
  proof (cases "marshal_binary (prepare_entry w e now)")
    case (Inl x)
    with assms opn have "w' = w" "s' = s" "err \<noteq> None"
      by (auto simp: wal_append_def split: if_splits)
    then show ?thesis by (rule rejected)
  next
    case (Inr x)
    obtain d e2 where m: "marshal_binary (prepare_entry w e now) = Inr (d, e2)"
      using Inr by (cases x) simp
    obtain r w2 s2 where f: "flush_locked put (accept_entry w e2) s = (r, w2, s2)"
      by (metis prod_cases3)
    note a = assms [unfolded wal_append_def if_not_P [OF opn(1)] if_not_P [OF opn(2)] m f sum.case prod.case]
    show ?thesis
    proof (cases "durable \<or> cfg_batch_size (w_cfg w) \<le> 0 \<or>
        int (length (w_pending (accept_entry w e2))) \<ge> cfg_batch_size (w_cfg w)")
      case True
      with a f m show ?thesis by (simp add: flushed)
    next
      case False
      with a have "e2 = e'" "accept_entry w e2 = w'" "s = s'" by auto
      with False m show ?thesis by (intro kept [of d]) auto
    qed
  qed
qed

context object_storage
begin

lemma put_stored:
  assumes "inv s" and keys: "wal_keys_ok canon cfg" and h: "hist_ok cfg hist"
    and st: "wal_stored get lst s cfg hist m" and "j \<le> m" and "m \<le> length hist" and j: "j < length hist"
    and "put s (entry_key cfg (int j + 1)) (entry_data (hist ! j)) = (None, s')"
  shows "wal_stored get lst s' cfg hist (max m (Suc j))"
proof -
  let ?k = "entry_key cfg (int j + 1)"
  have canon: "canon ?k" "canon (wal_dir cfg)" "\<And>i. canon (entry_key cfg (int i + 1))"
    using keys by (auto simp: wal_keys_ok_def)
  obtain ks where ks: "lst s (wal_dir cfg @ ''/'') = Inr ks" "set ks = entry_key cfg ` {1..int m}"
    using st by (auto simp: wal_stored_def)
  obtain ks' where ks': "lst s' (wal_dir cfg @ ''/'') = Inr ks'" "set ks' = set ks \<union> {?k}"
    using list_put [OF assms(1) canon(1,2) assms(8) ks(1)] entry_key_dir by auto
  have "{1..int (max m (Suc j))} = insert (int j + 1) {1..int m}" using \<open>j \<le> m\<close> by auto
  with ks ks' have "set ks' = entry_key cfg ` {1..int (max m (Suc j))}" by simp
  moreover have "get s' (entry_key cfg (int i + 1)) = Inr (entry_data (hist ! i))"
    if "i < max m (Suc j)" for i
  proof -
    have "entry_key cfg (int i + 1) = ?k \<longleftrightarrow> i = j"
      using that assms(6) j h by (subst entry_key_inj) (auto simp: hist_ok_def)
    moreover have "i \<noteq> j \<Longrightarrow> i < m" using that \<open>j \<le> m\<close> by auto
    ultimately show ?thesis
      using put_get [OF assms(1) canon(1) canon(3) assms(8), of i] st by (auto simp: wal_stored_def)
  qed
  ultimately show ?thesis using ks'(1) by (auto simp: wal_stored_def)
qed

lemma flush_stored:
  assumes "inv s" and "wal_keys_ok canon cfg" and "hist_ok cfg hist"
    and "wal_stored get lst s cfg hist m" and "j \<le> m" and "m \<le> length hist"
    and "flush_entries put cfg s (drop j hist) = (r, s')"
  shows "inv s' \<and> (\<exists>m'. m \<le> m' \<and> m' \<le> length hist \<and> wal_stored get lst s' cfg hist m' \<and>
    (r = None \<longrightarrow> m' = length hist))"
  using assms
proof (induction "length hist - j" arbitrary: s j m)
  case 0
  then show ?case by (intro conjI exI [of _ m]) auto
next
  case (Suc d)
  then have j: "j < length hist" by simp
  then have dr: "drop j hist = hist ! j # drop (Suc j) hist" by (simp add: Cons_nth_drop_Suc)
  have m: "marshal_binary (hist ! j) = Inr (entry_data (hist ! j), hist ! j)"
    "e_sequence (hist ! j) = int j + 1"
    using Suc.prems(3) j by (auto simp: hist_ok_def)
  obtain pr s1 where p: "put s (entry_key cfg (int j + 1)) (entry_data (hist ! j)) = (pr, s1)" by fastforce
  have inv1: "inv s1" using inv_put [OF Suc.prems(1)] p by (metis snd_conv)
  show ?case
  proof (cases pr)
    case None
    have "wal_stored get lst s1 cfg hist (max m (Suc j))"
      using put_stored Suc.prems j p None by blast
    moreover have "flush_entries put cfg s1 (drop (Suc j) hist) = (r, s')"
      using Suc.prems(7) dr m p None by simp
    moreover have "max m (Suc j) \<le> length hist" "Suc j \<le> max m (Suc j)" "d = length hist - Suc j"
      using Suc.prems Suc.hyps(2) j by auto
    ultimately have "inv s' \<and> (\<exists>m'. max m (Suc j) \<le> m' \<and> m' \<le> length hist \<and>
        wal_stored get lst s' cfg hist m' \<and> (r = None \<longrightarrow> m' = length hist))"
      using Suc.hyps(1) inv1 Suc.prems(2,3) by blast
    then show ?thesis by auto
  next
    case (Some e)
    then have "get s1 = get s" "lst s1 = lst s" using put_fail p by auto
    moreover have "s' = s1" "r \<noteq> None" using Suc.prems(7) dr m p Some by auto
    ultimately show ?thesis using Suc.prems(4,6) inv1 by (auto simp: wal_stored_def)
  qed
qed

lemma flush_locked_inv:
  assumes "inv s" and "wal_keys_ok canon cfg" and "log_inv get lst cfg (w, s, hist)"
    and "flush_locked put w s = (r, w', s')"
  shows "inv s' \<and> log_inv get lst cfg (w', s', hist) \<and> w_sequence w' = w_sequence w \<and> w_cfg w' = w_cfg w \<and>
    (r = None \<longrightarrow> w_pending w' = [] \<and> wal_stored get lst s' cfg hist (length hist))"
proof -
  obtain k m where w: "w_cfg w = cfg" "w_sequence w = int (length hist)" "hist_ok cfg hist"
    and km: "w_pending w = drop k hist" "k \<le> m" "m \<le> length hist" "wal_stored get lst s cfg hist m"
    using assms(3) by (rule log_invE)
  obtain r1 s1 where f: "flush_entries put cfg s (drop k hist) = (r1, s1)" by fastforce
  obtain m' where m': "inv s1" "m \<le> m'" "m' \<le> length hist" "wal_stored get lst s1 cfg hist m'"
    "r1 = None \<longrightarrow> m' = length hist"
    using flush_stored [OF assms(1,2) w(3) km(4,2,3) f] by blast
  show ?thesis
  proof (cases r1)
    case None
    then have s': "s' = s1" "r = None" "w' = w\<lparr>w_pending := []\<rparr>"
      using assms(4) f km(1) w(1) by (simp_all add: flush_locked_def)
    have "log_inv get lst cfg (w', s', hist)"
      by (rule log_invI [of _ _ _ "length hist" "length hist"]) (use s' w m' None in simp_all)
    with s' m' None show ?thesis by simp
  next
    case (Some e)
    then have s': "s' = s1" "r = Some e" "w' = w"
      using assms(4) f km(1) w(1) by (simp_all add: flush_locked_def)
    have "log_inv get lst cfg (w', s', hist)"
      by (rule log_invI [of _ _ _ k m']) (use s' w m' km in simp_all)
    with s' m' show ?thesis by simp
  qed
qed

lemma accept_inv:
  assumes "log_inv get lst cfg (w, s, hist)" and "marshal_binary (prepare_entry w e now) = Inr (d, e')"
  shows "log_inv get lst cfg (accept_entry w e', s, hist @ [e'])"
    and "w_sequence (accept_entry w e') \<noteq> w_sequence w"
proof -
  obtain k m where w: "w_cfg w = cfg" "w_sequence w = int (length hist)" "hist_ok cfg hist"
    and km: "w_pending w = drop k hist" "k \<le> m" "m \<le> length hist" "wal_stored get lst s cfg hist m"
    using assms(1) by (rule log_invE)
  have e': "e_sequence e' = wrap64 (int (length hist) + 1)" "e_region e' = cfg_region cfg"
    "marshal_binary e' = Inr (entry_data e', e')" "0 < e_sequence e'"
    using marshal_again [OF assms(2)] marshal_entry_data [OF assms(2)] marshal_fields [OF assms(2)] w
    by (simp_all add: prepare_entry_def)
  have small: "int (length hist) + 1 < 2 ^ 63"
    by (rule wrap64_pos) (use w(3) e'(1,4) in \<open>simp_all add: hist_ok_def\<close>)
  then have nxt: "wrap64 (int (length hist) + 1) = int (length hist) + 1" by (simp add: wrap64_Suc)
  have st: "wal_stored get lst s cfg (hist @ [e']) m"
    using km(3,4) by (auto simp: wal_stored_def nth_append)
  have h: "hist_ok cfg (hist @ [e'])"
    using hist_ok_snoc [OF w(3) small] e' nxt by simp
  show "log_inv get lst cfg (accept_entry w e', s, hist @ [e'])"
    by (rule log_invI [of _ _ _ k m]) (use w km nxt st h in \<open>simp_all add: accept_entry_def\<close>)
  show "w_sequence (accept_entry w e') \<noteq> w_sequence w"
    using nxt w(2) by (simp add: accept_entry_def)
qed

lemma append_inv:
  assumes "inv s" and "wal_keys_ok canon cfg" and "log_inv get lst cfg (w, s, hist)"
    and "wal_append put w s e durable now = (err, e', w', s')"
  shows "inv s' \<and>
    log_inv get lst cfg (w', s', if w_sequence w' = w_sequence w then hist else hist @ [e']) \<and>
    (err = None \<and> durable \<longrightarrow> w_sequence w' \<noteq> w_sequence w \<and>
       wal_stored get lst s' cfg (hist @ [e']) (Suc (length hist)))"
  using assms(4)
proof (cases rule: wal_append_cases)
  case rejected
  with assms(1,3) show ?thesis by simp
next
  case (kept d)
  with accept_inv [OF assms(3) kept(1)] assms(1) show ?thesis by simp
next
  case (flushed d)
  note a = accept_inv [OF assms(3) flushed(1)]
  from flush_locked_inv [OF assms(1,2) a(1) flushed(2)] a(2) show ?thesis by simp
qed

lemma tick_inv:
  assumes "inv s" and "wal_keys_ok canon cfg" and "log_inv get lst cfg (w, s, hist)"
    and "flusher_tick put w s = (w', s')"
  shows "inv s' \<and> log_inv get lst cfg (w', s', hist)"
proof (cases "w_flusher w \<and> \<not> w_closed w \<and> w_pending w \<noteq> []")
  case True
  obtain r w1 s1 where f: "flush_locked put w s = (r, w1, s1)" by (metis prod_cases3)
  with assms(4) True have "w' = w1" "s' = s1" by (auto simp: flusher_tick_def)
  with flush_locked_inv [OF assms(1-3) f] show ?thesis by simp
next
  case False
  with assms show ?thesis by (auto simp: flusher_tick_def split: if_splits)
qed

lemma log_inv_flags:
  assumes "log_inv get lst cfg (w, s, hist)"
  shows "log_inv get lst cfg (w\<lparr>w_flusher := a\<rparr>, s, hist)" "log_inv get lst cfg (w\<lparr>w_closed := a\<rparr>, s, hist)"
    "log_inv get lst cfg (w\<lparr>w_closing := a\<rparr>, s, hist)"
  using assms by (simp_all add: log_inv.simps)

lemma close_inv:
  assumes "inv s" and "wal_keys_ok canon cfg" and "log_inv get lst cfg (w, s, hist)"
    and "wal_close put w s = (err, w', s')"
  shows "inv s' \<and> log_inv get lst cfg (w', s', hist)"
proof (cases "w_closed w \<or> w_closing w")
  case True
  with assms show ?thesis by (auto simp: wal_close_def split: if_splits)
next
  case False
  let ?w = "w\<lparr>w_flusher := False\<rparr>"
  obtain r w1 s1 where f: "(if w_pending ?w \<noteq> [] then flush_locked put ?w s else (None, ?w, s)) = (r, w1, s1)"
    by (metis prod_cases3)
  have i: "log_inv get lst cfg (?w, s, hist)" using assms(3) by (rule log_inv_flags)
  have "inv s1 \<and> log_inv get lst cfg (w1, s1, hist)"
  proof (cases "w_pending ?w = []")
    case True
    with f assms(1) i show ?thesis by auto
  next
    case False
    with f flush_locked_inv [OF assms(1,2) i] show ?thesis by simp
  qed
  moreover have "s' = s1" "w' = w1\<lparr>w_closing := False\<rparr> \<or> w' = w1\<lparr>w_closed := True, w_closing := False\<rparr>"
    using assms(4) False f unfolding wal_close_def Let_def by (cases r; simp)+
  ultimately show ?thesis by (auto intro!: log_inv_flags)
qed

lemma wal_exec_inv:
  assumes "wal_keys_ok canon cfg" and "inv (fst (snd st))" and "log_inv get lst cfg st"
  shows "inv (fst (snd (wal_exec put st op))) \<and> log_inv get lst cfg (wal_exec put st op)"
proof -
  obtain w s hist where st: "st = (w, s, hist)" by (cases st)
  show ?thesis
  proof (cases op)
    case (OpAppend e durable now)
    obtain err e' w' s' where a: "wal_append put w s e durable now = (err, e', w', s')"
      by (metis prod_cases4)
    with append_inv [OF _ assms(1) _ a] assms(2,3) show ?thesis by (simp add: st OpAppend)
  next
    case OpTick
    obtain w' s' where t: "flusher_tick put w s = (w', s')" by fastforce
    with tick_inv [OF _ assms(1) _ t] assms(2,3) show ?thesis by (simp add: st OpTick)
  next
    case OpClose
    obtain err w' s' where c: "wal_close put w s = (err, w', s')" by (metis prod_cases3)
    with close_inv [OF _ assms(1) _ c] assms(2,3) show ?thesis by (simp add: st OpClose)
  qed
qed

lemma wal_run_inv:
  assumes "wal_keys_ok canon cfg" and "inv (fst (snd st))" and "log_inv get lst cfg st"
  shows "inv (fst (snd (foldl (wal_exec put) st ops))) \<and> log_inv get lst cfg (foldl (wal_exec put) st ops)"
  using assms(2,3)
proof (induction ops arbitrary: st)
  case (Cons op ops)
  with wal_exec_inv [OF assms(1)] show ?case by simp
qed simp

lemma read_stored:
  assumes "hist_ok cfg hist" and "wal_stored get lst s cfg hist m" and "m \<le> length hist"
    and "list_all entry_in_range hist" and "i < m"
  shows "read_entry get s (cfg_prefix cfg) (cfg_region cfg) (int i + 1) =
    (if long_enough (hist ! i) then Inr (hist ! i) else Inl (ErrInvalidEntry ''data too short''))"
proof -
  have m: "marshal_binary (hist ! i) = Inr (entry_data (hist ! i), hist ! i)"
    using assms(1,3,5) by (simp add: hist_ok_def)
  have "entry_in_range (hist ! i)" using assms(3-5) by (simp add: list_all_length)
  then have "unmarshal_binary (entry_data (hist ! i)) =
      (if long_enough (hist ! i) then Inr (hist ! i) else Inl (ErrInvalidEntry ''data too short''))"
    using unmarshal_marshal [OF m] unmarshal_short [OF m] by (simp add: long_enough_def entry_in_range_def)
  moreover have "get s (entry_key cfg (int i + 1)) = Inr (entry_data (hist ! i))"
    using assms(2,5) by (simp add: wal_stored_def)
  ultimately show ?thesis by (simp add: read_entry_def entry_key_def)
qed

lemma read_seqs_stored:
  assumes "hist_ok cfg hist" and "wal_stored get lst s cfg hist m" and "m \<le> length hist"
    and "list_all entry_in_range hist" and "r_prefix r = cfg_prefix cfg" and "r_region r = cfg_region cfg"
    and "b \<le> m"
  shows "read_seqs get s r (int c + 1) n (map (\<lambda>i. int i + 1) [c + n..<b]) =
    decoded (map (\<lambda>i. hist ! i) [c + n..<b])"
proof (induction "b - (c + n)" arbitrary: n)
  case 0
  then show ?case by (simp add: decoded_def)
next
  case (Suc d)
  then have lt: "c + n < b" by simp
  then have u: "[c + n..<b] = (c + n) # [c + Suc n..<b]" by (simp add: upt_conv_Cons)
  have h: "e_sequence (hist ! (c + n)) = int (c + n) + 1" "e_region (hist ! (c + n)) = cfg_region cfg"
    "int (length hist) < 2 ^ 63"
    using assms(1,3,7) lt by (auto simp: hist_ok_def)
  have w: "wrap64 (int c + 1 + int n) = int (c + n) + 1"
    using h(3) assms(3,7) lt by (subst wrap64_id) (auto simp: int64_range_def)
  have re: "read_entry get s (cfg_prefix cfg) (cfg_region cfg) (int (c + n) + 1) =
      (if long_enough (hist ! (c + n)) then Inr (hist ! (c + n)) else Inl (ErrInvalidEntry ''data too short''))"
    using read_stored [OF assms(1-4), of "c + n"] assms(7) lt by simp
  have "read_seqs get s r (int c + 1) (Suc n) (map (\<lambda>i. int i + 1) [c + Suc n..<b]) =
    decoded (map (\<lambda>i. hist ! i) [c + Suc n..<b])"
    by (rule Suc.hyps(1)) (use Suc.hyps(2) in simp)
  then show ?case
    unfolding u list.map read_seqs.simps w assms(5,6) re using h by (simp add: decoded_def)
qed

lemma stored_sequences:
  assumes "inv s" and "wal_keys_ok canon cfg" and "wal_stored get lst s cfg hist m" and "int m < 2 ^ 63"
  shows "\<exists>ks. lst s (wal_dir cfg @ ''/'') = Inr ks \<and>
    sort (filter (\<lambda>sq. sq \<ge> int c + 1) (map parse_sequence_from_key ks)) = map (\<lambda>i. int i + 1) [c..<m]"
proof -
  obtain ks where ks: "lst s (wal_dir cfg @ ''/'') = Inr ks" "set ks = entry_key cfg ` {1..int m}"
    using assms(3) by (auto simp: wal_stored_def)
  have d: "distinct ks" using list_distinct [OF assms(1) _ ks(1)] assms(2) by (simp add: wal_keys_ok_def)
  have parse: "parse_sequence_from_key (entry_key cfg n) = n" if "n \<in> {1..int m}" for n
    using that assms(4) by (intro parse_entry_key) auto
  then have inj: "inj_on parse_sequence_from_key (set ks)"
    unfolding ks(2) by (auto simp: inj_on_def)
  have "parse_sequence_from_key ` set ks = {1..int m}" unfolding ks(2) image_image using parse by auto
  moreover have "(\<lambda>i. int i + 1) ` {c..<m} = {int c + 1..int m}" by (rule image_int_range)
  ultimately have "set (filter (\<lambda>sq. sq \<ge> int c + 1) (map parse_sequence_from_key ks)) =
      set (map (\<lambda>i. int i + 1) [c..<m])"
    by auto
  moreover have "distinct (filter (\<lambda>sq. sq \<ge> int c + 1) (map parse_sequence_from_key ks))"
    using d inj by (simp add: distinct_map)
  moreover have "distinct (map (\<lambda>i. int i + 1) [c..<m])" "sorted (map (\<lambda>i. int i + 1) [c..<m])"
    by (simp_all add: distinct_map inj_on_def sorted_map sorted_wrt_upt)
  ultimately show ?thesis
    using ks(1) by (intro exI conjI) (auto intro: sorted_distinct_set_unique)
qed

lemma read_batch_decoded:
  assumes "inv s" and "wal_keys_ok canon cfg" and "hist_ok cfg hist"
    and "wal_stored get lst s cfg hist m" and "m \<le> length hist" and "list_all entry_in_range hist"
    and "r_prefix r = cfg_prefix cfg" and "r_region r = cfg_region cfg" and "r_last r = int c" and "c \<le> m"
    and "0 < max_count" and "int c < 2 ^ 63 - 1"
  shows "fst (read_batch get lst s r max_count) = decoded (take (nat max_count) (drop c (take m hist)))"
proof -
  have m: "int m < 2 ^ 63" using assms(3,5) by (simp add: hist_ok_def)
  obtain ks where ks: "lst s (wal_dir cfg @ ''/'') = Inr ks"
    "sort (filter (\<lambda>sq. sq \<ge> int c + 1) (map parse_sequence_from_key ks)) = map (\<lambda>i. int i + 1) [c..<m]"
    using stored_sequences [OF assms(1,2,4) m] by blast
  define b where "b = min m (c + nat max_count)"
  have dir: "r_prefix r @ ''/'' @ r_region r @ ''/'' = wal_dir cfg @ ''/''"
    using assms(7,8) by (simp add: wal_dir_def)
  have start: "wrap64 (r_last r + 1) = int c + 1" using assms(9,12) by (simp add: wrap64_Suc)
  have t: "take (nat max_count) [c..<m] = [c..<b]"
    by (cases "c + nat max_count \<le> m") (simp_all add: b_def min_def)
  have tm: "take (nat max_count) (map (\<lambda>i. int i + 1) [c..<m]) = map (\<lambda>i. int i + 1) [c..<b]"
    by (simp add: take_map t)
  have seqs: "read_seqs get s r (int c + 1) 0 (map (\<lambda>i. int i + 1) [c..<b]) = decoded (map (\<lambda>i. hist ! i) [c..<b])"
    using read_seqs_stored [OF assms(3,4,5,6,7,8), of b c 0] by (simp add: b_def)
  have "map (\<lambda>i. hist ! i) [c..<m] = drop c (take m hist)"
    using assms(5,10) by (intro nth_equalityI) simp_all
  then have h: "map (\<lambda>i. hist ! i) [c..<b] = take (nat max_count) (drop c (take m hist))"
    unfolding t [symmetric] take_map [symmetric] by (rule arg_cong)
  show ?thesis
    unfolding read_batch_def Let_def start dir ks(1) sum.case ks(2) tm seqs h using assms(11) by (simp add: decoded_def)
qed

end

section \<open>Lemmas: the keys of a writer over the file store\<close>

lemma pad16_wal_plain: "0 < n \<Longrightarrow> plain (pad16 n @ ''.wal'')"
  using pad16_no_slash [of n] pad16_nonneg(3) [of n] by (auto simp: plain_def append_eq_Cons_conv)

lemma wal_keys_canonical:
  assumes "canonical (wal_dir cfg)"
  shows "wal_keys_ok canonical cfg"
  unfolding wal_keys_ok_def
proof (intro conjI allI impI assms)
  fix n :: int
  assume "0 < n"
  let ?x = "pad16 n @ ''.wal''"
  have "CHR ''/'' \<notin> set ?x" and "CHR 0x5C \<notin> set ?x"
    using pad16_nonneg(2) [of n] \<open>0 < n\<close> by (auto simp: list_all_iff is_digit_def less_eq_char_def)
  then have "canonical (wal_dir cfg @ CHR ''/'' # ?x)"
    by (intro canonical_append assms) (simp_all add: split_on_plain pad16_wal_plain [OF \<open>0 < n\<close>] solid_end_def space_runes_def)
  then show "canonical (entry_key cfg n)" by (simp add: entry_key_def wal_dir_def)
qed

lemma resume_step_ge: "mx \<le> resume_step cfg mx key"
  by (auto simp: resume_step_def Let_def split: option.splits)

lemma resume_foldl_ge: "mx \<le> foldl (resume_step cfg) mx keys"
  by (induction keys arbitrary: mx) (auto intro: order_trans resume_step_ge)

lemma trim_suffix_append: "trim_suffix (s @ suf) suf = s"
  by (simp add: trim_suffix_def)

lemma resume_step_key:
  assumes "0 \<le> n" and "n < 2 ^ 63" and "CHR ''/'' \<notin> set (cfg_region cfg)"
    and "trim_suffix (cfg_prefix cfg) ''/'' = cfg_prefix cfg"
  shows "n \<le> resume_step cfg mx (entry_key cfg n)"
proof -
  let ?p = "split_on (CHR ''/'') (cfg_prefix cfg)"
  have "entry_key cfg n = (cfg_prefix cfg @ CHR ''/'' # cfg_region cfg @ CHR ''/'' # pad16 n) @ ''.wal''"
    by (simp add: entry_key_def)
  then have t: "trim_suffix (entry_key cfg n) ''.wal'' = cfg_prefix cfg @ CHR ''/'' # cfg_region cfg @ CHR ''/'' # pad16 n"
    by (simp only: trim_suffix_append)
  have parts: "split_on (CHR ''/'') (cfg_prefix cfg @ CHR ''/'' # cfg_region cfg @ CHR ''/'' # pad16 n) =
      ?p @ [cfg_region cfg, pad16 n]"
    using assms(3) pad16_no_slash [OF assms(1)]
    by (simp add: split_on_append2 split_on_append split_on_plain)
  show ?thesis
    unfolding resume_step_def Let_def t parts assms(4)
    using pad16_parse(1) [OF assms(1,2)] by (simp add: nth_append)
qed

lemma resume_foldl_key:
  assumes "entry_key cfg n \<in> set keys" and "0 \<le> n" and "n < 2 ^ 63" and "CHR ''/'' \<notin> set (cfg_region cfg)"
    and "trim_suffix (cfg_prefix cfg) ''/'' = cfg_prefix cfg"
  shows "n \<le> foldl (resume_step cfg) mx keys"
  using assms(1)
proof (induction keys arbitrary: mx)
  case (Cons k ks)
  then show ?case
    using order_trans [OF resume_step_key [OF assms(2-5)] resume_foldl_ge] by auto
qed simp

lemma fresh_log_inv:
  assumes "canonical (wal_dir cfg)" and "canonical (cfg_prefix cfg)" and "fs_files s = []"
    and "new_writer fs_list s cfg = Inr w"
  shows "log_inv fs_get fs_list cfg (w, s, [])"
proof -
  have "fs_list s (wal_dir cfg @ ''/'') = Inr []" "fs_list s (cfg_prefix cfg @ ''/'') = Inr []"
    using assms(3) fs_list_canonical [OF assms(1)] fs_list_canonical [OF assms(2)] by simp_all
  then have "w_cfg w = cfg" "w_sequence w = 0" "w_pending w = []"
    "wal_stored fs_get fs_list s cfg [] 0"
    using assms(4) by (auto simp: new_writer_def resume_sequence_def wal_stored_def split: if_splits)
  then show ?thesis by (intro log_invI [of _ _ _ 0 0]) (simp_all add: hist_ok_def)
qed

lemma fs_get_listed:
  assumes "canonical p" and "canonical k" and "has_prefix k (p @ ''/'')" and "fs_get s k = Inr d"
    and "fs_list s (p @ ''/'') = Inr ks"
  shows "k \<in> set ks"
proof -
  have "(elems (fs_root s) @ split_on (CHR ''/'') k, d) \<in> set (fs_files s)"
    using assms(2,4) by (auto simp: fs_get_def fs_path_canonical split: option.splits dest: gget_in_set)
  then have "k \<in> fs_key s ` fst ` set (fs_files s)" by (force simp: fs_key_append)
  with fs_list_set [OF assms(1), of s] assms(3,5) show ?thesis by auto
qed

lemma canonical_trim_suffix: "canonical p \<Longrightarrow> trim_suffix p ''/'' = p"
  using canonical_last [of p] canonical_not_Nil [of p]
  by (cases p rule: rev_cases) (auto simp: trim_suffix_def)

text \<open>The state of any run of a fresh writer over a file store.\<close>

lemma file_log_run:
  assumes "canonical (wal_dir cfg)" and "canonical (cfg_prefix cfg)" and "fs_inv s0" and "fs_files s0 = []"
    and "new_writer fs_list s0 cfg = Inr w0"
    and "foldl (wal_exec fs_put) (w0, s0, []) ops = (w, s, hist)"
  shows "wal_keys_ok canonical cfg" "fs_inv s" "log_inv fs_get fs_list cfg (w, s, hist)"
proof -
  show keys: "wal_keys_ok canonical cfg" using assms(1) by (rule wal_keys_canonical)
  have "log_inv fs_get fs_list cfg (w0, s0, [])" using assms(1,2,4,5) by (rule fresh_log_inv)
  then show "fs_inv s" "log_inv fs_get fs_list cfg (w, s, hist)"
    using file_objects.wal_run_inv [OF keys, of "(w0, s0, [])" ops] assms(3,6) by simp_all
qed

section \<open>Properties\<close>

text \<open>
  C14. The log has no gaps and no reordering. Start a writer on an empty file store and let it
  serve any sequence of appends, flusher ticks and closes, with any pattern of failing writes, for
  entries whose epoch and time fit the 64 bits they are stored in. Then for some \<open>m\<close>, which misses at
  most the entries that are still pending, a reader that starts at the beginning gets, in order and
  unchanged, the first of the \<open>m\<close> entries the writer numbered first, up to the number it asked for; but
  if one of those has strings of less than four bytes together, it gets none of them and the error
  of the decoder, because the writer accepts such an entry and the reader refuses it.
\<close>

theorem log_reads_back_in_order:
  assumes "canonical (wal_dir cfg)" and "canonical (cfg_prefix cfg)" and "fs_inv s0" and "fs_files s0 = []"
    and "new_writer fs_list s0 cfg = Inr w0"
    and "foldl (wal_exec fs_put) (w0, s0, []) ops = (w, s, hist)" and "list_all entry_in_range hist"
    and "new_reader (cfg_region cfg) (cfg_prefix cfg) 0 = Inr r" and "0 < max_count"
  shows "\<exists>m. length hist - length (w_pending w) \<le> m \<and> m \<le> length hist \<and>
    fst (read_batch fs_get fs_list s r max_count) =
      (if list_all long_enough (take (nat max_count) (take m hist)) then Inr (take (nat max_count) (take m hist))
       else Inl (ErrInvalidEntry ''data too short''))"
proof -
  note keys = file_log_run(1) [OF assms(1-6)] and i = file_log_run(2,3) [OF assms(1-6)]
  obtain k m where "hist_ok cfg hist" "w_pending w = drop k hist" "k \<le> m" "m \<le> length hist"
    "wal_stored fs_get fs_list s cfg hist m"
    using i(2) by (rule log_invE)
  moreover have "r_prefix r = cfg_prefix cfg" "r_region r = cfg_region cfg" "r_last r = int 0"
    using assms(8) by (auto simp: new_reader_def split: if_splits)
  ultimately show ?thesis
    using file_objects.read_batch_decoded [OF i(1) keys _ _ _ assms(7), of m r 0 max_count] assms(9)
    by (intro exI [of _ m]) (simp add: decoded_def)
qed

definition sample_cfg :: wal_config where
  "sample_cfg = \<lparr>cfg_region = ''eu'', cfg_prefix = ''wal'', cfg_flush_interval = 1000000000,
     cfg_batch_size = 100\<rparr>"

definition sample_store :: file_store where
  "sample_store = \<lparr>fs_root = parse_path ''/data'', fs_files = [], fs_faults = [True]\<rparr>"

definition sample_writer :: writer where
  "sample_writer = \<lparr>w_cfg = sample_cfg, w_closed = False, w_closing = False, w_sequence = 0,
     w_pending = [], w_flusher = True\<rparr>"

definition sample_reader :: reader where
  "sample_reader = \<lparr>r_region = ''eu'', r_prefix = ''wal'', r_last = 0\<rparr>"

lemma sample_log_ok:
  "canonical (wal_dir sample_cfg)" "canonical (cfg_prefix sample_cfg)" "fs_inv sample_store"
  "fs_files sample_store = []" "new_writer fs_list sample_store sample_cfg = Inr sample_writer"
  "new_reader (cfg_region sample_cfg) (cfg_prefix sample_cfg) 0 = Inr sample_reader"
proof -
  show "canonical (wal_dir sample_cfg)" "canonical (cfg_prefix sample_cfg)"
    "fs_files sample_store = []" "new_writer fs_list sample_store sample_cfg = Inr sample_writer"
    "new_reader (cfg_region sample_cfg) (cfg_prefix sample_cfg) 0 = Inr sample_reader"
    by code_simp+
  show "fs_inv sample_store" by (simp add: sample_store_def fs_inv_def parse_path_root_ok)
qed

text \<open>The entry of the codec's example, appended at the instant it carries.\<close>

definition sample_append :: wal_op where
  "sample_append = OpAppend (sample_entry\<lparr>e_region := []\<rparr>) False (unix_epoch + 5)"

definition sample_logged :: entry where
  "sample_logged = sample_entry\<lparr>e_crc32c := crc32c (entry_body sample_entry)\<rparr>"

lemma sample_prepare: "prepare_entry sample_writer (sample_entry\<lparr>e_region := []\<rparr>) (unix_epoch + 5) = sample_entry"
  by (simp add: prepare_entry_def sample_writer_def sample_cfg_def sample_entry_def wrap64_def)

lemma sample_wal_append:
  "wal_append fs_put sample_writer sample_store (sample_entry\<lparr>e_region := []\<rparr>) False (unix_epoch + 5) =
     (None, sample_logged, accept_entry sample_writer sample_logged, sample_store)"
  unfolding wal_append_def sample_prepare sample_marshal
  by (simp add: sample_logged_def sample_writer_def sample_cfg_def accept_entry_def)

lemma sample_run:
  "foldl (wal_exec fs_put) (sample_writer, sample_store, []) [sample_append] =
     (accept_entry sample_writer sample_logged, sample_store, [sample_logged])"
  by (simp add: sample_append_def sample_wal_append)
    (simp add: accept_entry_def sample_writer_def wrap64_def)

lemma sample_readable: "readable sample_logged"
  by (simp add: readable_def long_enough_def sample_logged_def sample_entry_def entry_in_range_def int64_range_def)

theorem log_reads_back_in_order_witness:
  "\<exists>m. length [sample_logged] - length (w_pending (accept_entry sample_writer sample_logged)) \<le> m \<and>
    m \<le> length [sample_logged] \<and>
    fst (read_batch fs_get fs_list sample_store sample_reader 10) =
      (if list_all long_enough (take (nat 10) (take m [sample_logged])) then Inr (take (nat 10) (take m [sample_logged]))
       else Inl (ErrInvalidEntry ''data too short''))"
  by (rule log_reads_back_in_order [OF sample_log_ok(1-5) sample_run _ sample_log_ok(6)])
    (use sample_readable in \<open>simp_all add: readable_def\<close>)

text \<open>
  C16. What a successful \<open>AppendDurable\<close> is worth, at any point of a run, for an entry whose epoch and
  time fit the 64 bits they are stored in: the reader positioned at the previous sequence number
  finds the object of the appended entry, and gets the entry from it, field by field, exactly if its
  strings have at least four bytes together. For a shorter entry success has been reported although
  no reader will ever get it, or any entry after it.
\<close>

theorem durable_append_read_back:
  assumes "canonical (wal_dir cfg)" and "canonical (cfg_prefix cfg)" and "fs_inv s0" and "fs_files s0 = []"
    and "new_writer fs_list s0 cfg = Inr w0"
    and "foldl (wal_exec fs_put) (w0, s0, []) ops = (w, s, hist)"
    and "wal_append fs_put w s e True now = (None, e', w', s')" and "entry_in_range e'"
  shows "read_next fs_get s' \<lparr>r_region = cfg_region cfg, r_prefix = cfg_prefix cfg, r_last = w_sequence w\<rparr> =
    (if long_enough e'
     then (Inr e', \<lparr>r_region = cfg_region cfg, r_prefix = cfg_prefix cfg, r_last = w_sequence w + 1\<rparr>)
     else (Inl (ErrInvalidEntry ''data too short''),
           \<lparr>r_region = cfg_region cfg, r_prefix = cfg_prefix cfg, r_last = w_sequence w\<rparr>))"
proof -
  note keys = file_log_run(1) [OF assms(1-6)] and i = file_log_run(2,3) [OF assms(1-6)]
  from file_objects.append_inv [OF i(1) keys i(2) assms(7)]
  have st: "wal_stored fs_get fs_list s' cfg (hist @ [e']) (Suc (length hist))"
    and l: "log_inv fs_get fs_list cfg (w', s', hist @ [e'])" by auto
  have sq: "w_sequence w = int (length hist)" using i(2) by (rule log_invE)
  have h: "hist_ok cfg (hist @ [e'])" using l by (rule log_invE)
  have g: "fs_get s' (entry_key cfg (int (length hist) + 1)) = Inr (entry_data e')"
    using st by (simp add: wal_stored_def)
  have e': "marshal_binary e' = Inr (entry_data e', e')" "e_sequence e' = int (length hist) + 1"
    "e_region e' = cfg_region cfg" "int (length hist) + 1 < 2 ^ 63"
    using h by (auto simp: hist_ok_def dest: spec [of _ "length hist"])
  have "unmarshal_binary (entry_data e') =
      (if long_enough e' then Inr e' else Inl (ErrInvalidEntry ''data too short''))"
    using unmarshal_marshal [OF e'(1)] unmarshal_short [OF e'(1)] assms(8)
    by (simp add: long_enough_def entry_in_range_def)
  then have "read_entry fs_get s' (cfg_prefix cfg) (cfg_region cfg) (int (length hist) + 1) =
      (if long_enough e' then Inr e' else Inl (ErrInvalidEntry ''data too short''))"
    using g by (simp add: read_entry_def entry_key_def)
  then show ?thesis using e' by (simp add: read_next_def sq wrap64_Suc Let_def)
qed

lemma sample_fs_put:
  "fst (fs_put (sample_store\<lparr>fs_faults := []\<rparr>) (entry_key sample_cfg 1) d) = None"
proof -
  have "entry_key sample_cfg 1 = ''wal/eu/0000000000000001.wal''" by code_simp
  moreover have "fs_path (parse_path ''/data'') ''wal/eu/0000000000000001.wal'' =
      Inr [''data'', ''wal'', ''eu'', ''0000000000000001.wal'']"
    by code_simp
  moreover have "elems (parse_path ''/data'') = [''data'']" by code_simp
  ultimately show ?thesis by (simp add: fs_put_def sample_store_def fs_blocked_def)
qed

lemma sample_durable:
  "\<exists>w' s'. wal_append fs_put sample_writer (sample_store\<lparr>fs_faults := []\<rparr>) (sample_entry\<lparr>e_region := []\<rparr>)
     True (unix_epoch + 5) = (None, sample_logged, w', s')"
proof -
  obtain s' where p: "fs_put (sample_store\<lparr>fs_faults := []\<rparr>) (entry_key sample_cfg 1) (entry_data sample_logged) = (None, s')"
    using sample_fs_put by (metis prod.collapse)
  have m: "marshal_binary sample_logged = Inr (entry_data sample_logged, sample_logged)"
    using marshal_again [OF sample_marshal] marshal_entry_data [OF sample_marshal]
    by (simp add: sample_logged_def)
  have "e_sequence sample_logged = 1" "w_cfg sample_writer = sample_cfg" "w_pending sample_writer = []"
    "\<not> w_closed sample_writer" "\<not> w_closing sample_writer"
    by (simp_all add: sample_logged_def sample_entry_def sample_writer_def)
  then have "flush_locked fs_put (accept_entry sample_writer sample_logged) (sample_store\<lparr>fs_faults := []\<rparr>) =
      (None, (accept_entry sample_writer sample_logged)\<lparr>w_pending := []\<rparr>, s')"
    using p m by (simp add: flush_locked_def accept_entry_def)
  then show ?thesis
    unfolding wal_append_def sample_prepare sample_marshal
    by (simp add: sample_logged_def [symmetric]) (simp add: sample_writer_def)
qed

theorem durable_append_read_back_witness:
  "\<exists>s'. read_next fs_get s' \<lparr>r_region = ''eu'', r_prefix = ''wal'', r_last = 0\<rparr> =
     (Inr sample_logged, \<lparr>r_region = ''eu'', r_prefix = ''wal'', r_last = 1\<rparr>)"
proof -
  obtain w' s' where a: "wal_append fs_put sample_writer (sample_store\<lparr>fs_faults := []\<rparr>)
      (sample_entry\<lparr>e_region := []\<rparr>) True (unix_epoch + 5) = (None, sample_logged, w', s')"
    using sample_durable by blast
  have r: "entry_in_range sample_logged" "long_enough sample_logged"
    using sample_readable by (simp_all add: readable_def)
  have s: "fs_inv (sample_store\<lparr>fs_faults := []\<rparr>)" "fs_files (sample_store\<lparr>fs_faults := []\<rparr>) = []"
    using sample_log_ok(3,4) by simp_all
  have w: "new_writer fs_list (sample_store\<lparr>fs_faults := []\<rparr>) sample_cfg = Inr sample_writer"
    by code_simp
  have "foldl (wal_exec fs_put) (sample_writer, sample_store\<lparr>fs_faults := []\<rparr>, []) [] =
      (sample_writer, sample_store\<lparr>fs_faults := []\<rparr>, [])" by simp
  note durable_append_read_back [OF sample_log_ok(1,2) s w this a r(1), unfolded if_P [OF r(2)]]
  then show ?thesis by (auto simp: sample_cfg_def sample_writer_def)
qed

text \<open>
  C15. A restarted writer never overwrites an entry: whatever is in the store, for every entry of
  its region that can be read from it, the sequence number the new writer resumes from is at least
  the entry's, so that the next append uses a larger one.
\<close>

theorem restart_never_overwrites:
  assumes "canonical (cfg_prefix cfg)" and "canonical (wal_dir cfg)" and "CHR ''/'' \<notin> set (cfg_region cfg)"
    and "new_writer fs_list s cfg = Inr w" and "0 < n" and "n < 2 ^ 63"
    and "fs_get s (entry_key cfg n) = Inr data"
  shows "n \<le> w_sequence w"
proof -
  obtain ks where ks: "fs_list s (cfg_prefix cfg @ ''/'') = Inr ks"
    and w: "w_sequence w = foldl (resume_step cfg) 0 ks"
    using assms(4) by (auto simp: new_writer_def resume_sequence_def split: if_splits sum.splits)
  have "canonical (entry_key cfg n)"
    using wal_keys_canonical [OF assms(2)] assms(5) by (simp add: wal_keys_ok_def)
  moreover have "has_prefix (entry_key cfg n) (cfg_prefix cfg @ ''/'')"
    by (simp add: has_prefix_def entry_key_def)
  ultimately have "entry_key cfg n \<in> set ks"
    using fs_get_listed [OF assms(1)] assms(7) ks by blast
  then show ?thesis
    unfolding w using assms canonical_trim_suffix [OF assms(1)] by (intro resume_foldl_key) auto
qed

definition sample_full_store :: file_store where
  "sample_full_store = sample_store\<lparr>fs_files := [([''data'', ''wal'', ''eu'', ''0000000000000007.wal''], ''x''),
     ([''data'', ''wal'', ''us'', ''0000000000000009.wal''], ''y'')]\<rparr>"

theorem restart_never_overwrites_witness:
  "new_writer fs_list sample_full_store sample_cfg = Inr (sample_writer\<lparr>w_sequence := 7\<rparr>) \<and>
   7 \<le> w_sequence (sample_writer\<lparr>w_sequence := 7\<rparr>)"
proof -
  have "CHR ''/'' \<notin> set (cfg_region sample_cfg)"
    and w: "new_writer fs_list sample_full_store sample_cfg = Inr (sample_writer\<lparr>w_sequence := 7\<rparr>)"
    and "fs_get sample_full_store (entry_key sample_cfg 7) = Inr ''x''"
    by code_simp+
  then show ?thesis
    using restart_never_overwrites [OF sample_log_ok(2,1)] w by fastforce
qed

end
