(* ===== verification/ReplicationStore.thy ===== *)
theory ReplicationStore
  imports Sha256 WalLog
begin

text \<open>
  The replication tables in PostgreSQL and the statements of
  \<open>control-plane/replication/adapters/{postgres,progress,admission}.go\<close> on them, together with the
  promotion record of \<open>control-plane/replication/promotion/promotion.go\<close> that one table holds.

  A table is a map from its primary key. Each statement is atomic; its first argument says whether
  the database refuses it (a lost connection, a canceled context), in which case it changes
  nothing. A \<open>BIGINT\<close> that would leave its range is an error of the statement, and timestamps are
  kept as they are given.
\<close>

section \<open>Promotion records\<close>

datatype promotion_state =
    StatePending | StateEpochBumped | StateEpochWritten | StateCapabilityRevalidating
  | StateCapabilityConfirmed | StateFailoverComplete | StatePromotionFailed

fun promotion_rank :: "promotion_state \<Rightarrow> nat" where
  "promotion_rank StatePending = 0"
| "promotion_rank StateEpochBumped = 1"
| "promotion_rank StateEpochWritten = 2"
| "promotion_rank StateCapabilityRevalidating = 3"
| "promotion_rank StateCapabilityConfirmed = 4"
| "promotion_rank StateFailoverComplete = 5"
| "promotion_rank StatePromotionFailed = 6"

lemma promotion_rank_inj: "promotion_rank a = promotion_rank b \<longleftrightarrow> a = b"
  by (cases a; cases b) simp_all

text \<open>The order of the \<open>iota\<close> constants, which \<open>TransitionTo\<close> compares.\<close>

instantiation promotion_state :: linorder
begin

definition less_eq_promotion_state :: "promotion_state \<Rightarrow> promotion_state \<Rightarrow> bool" where
  "a \<le> b \<longleftrightarrow> promotion_rank a \<le> promotion_rank b"

definition less_promotion_state :: "promotion_state \<Rightarrow> promotion_state \<Rightarrow> bool" where
  "a < b \<longleftrightarrow> promotion_rank a < promotion_rank b"

instance
  by standard (auto simp: less_eq_promotion_state_def less_promotion_state_def promotion_rank_inj)

end

record promotion =
  p_id :: string
  p_job_id :: string
  p_previous_region :: string
  p_target_region :: string
  p_key :: string
  p_previous_epoch :: int
  p_new_epoch :: int
  p_state :: promotion_state
  p_error :: string
  p_started_at :: instant
  p_completed_at :: "instant option"

definition new_promotion ::
  "string \<Rightarrow> string \<Rightarrow> string \<Rightarrow> string \<Rightarrow> int \<Rightarrow> instant \<Rightarrow> promotion" where
  "new_promotion job prev target key previous_epoch now =
     \<lparr>p_id = key, p_job_id = job, p_previous_region = prev, p_target_region = target, p_key = key,
      p_previous_epoch = previous_epoch, p_new_epoch = wrap64 (previous_epoch + 1),
      p_state = StatePending, p_error = [], p_started_at = now, p_completed_at = None\<rparr>"

text \<open>\<open>TransitionTo\<close>; \<open>None\<close> is its error, which leaves the promotion as it is.\<close>

definition transition_to :: "promotion \<Rightarrow> promotion_state \<Rightarrow> string \<Rightarrow> instant \<Rightarrow> promotion option" where
  "transition_to p st msg now =
     (if p_state p = StatePromotionFailed then None
      else if st \<le> p_state p then None
      else let p1 = p\<lparr>p_state := st\<rparr>;
               p2 = (if msg \<noteq> [] then p1\<lparr>p_error := msg\<rparr> else p1)
           in Some (if st = StatePromotionFailed \<or> st = StateFailoverComplete
                    then p2\<lparr>p_completed_at := Some now\<rparr> else p2))"

definition promotion_is_complete :: "promotion \<Rightarrow> bool" where
  "promotion_is_complete p \<longleftrightarrow> p_state p = StateFailoverComplete \<or> p_state p = StatePromotionFailed"

definition promotion_is_failed :: "promotion \<Rightarrow> bool" where
  "promotion_is_failed p \<longleftrightarrow> p_state p = StatePromotionFailed"

section \<open>Tables\<close>

datatype pg_error =
    DbFailed
  | DbNoRows
  | DbConstraint
  | PgEpochConflict
  | PgInvalid
  | AdmissionConflict
  | AdmissionInProgress

record admission =
  adm_epoch :: int
  adm_uri :: string
  adm_crc32c :: int
  adm_fingerprint :: string
  adm_committed :: bool

type_synonym admission_key = "string \<times> string \<times> string \<times> int"

record repl_db =
  db_epochs :: "(string, int) gomap"
  db_promotions :: "(string, promotion) gomap"
  db_progress :: "(string \<times> string, int) gomap"
  db_admissions :: "(admission_key, admission) gomap"

section \<open>Epochs\<close>

definition pg_assign :: "bool \<Rightarrow> repl_db \<Rightarrow> string \<Rightarrow> (pg_error + int) \<times> repl_db" where
  [effect_defs]: "pg_assign fails db job =
     (if job = [] then (Inl PgInvalid, db)
      else if fails then (Inl DbFailed, db)
      else case gget (db_epochs db) job of
        None \<Rightarrow> (Inr 1, db\<lparr>db_epochs := gput job 1 (db_epochs db)\<rparr>)
      | Some e \<Rightarrow>
          if e + 1 \<ge> 2 ^ 63 then (Inl DbConstraint, db)
          else (Inr (e + 1), db\<lparr>db_epochs := gput job (e + 1) (db_epochs db)\<rparr>))"

definition pg_get_epoch :: "bool \<Rightarrow> repl_db \<Rightarrow> string \<Rightarrow> pg_error + int" where
  "pg_get_epoch fails db job =
     (if fails then Inl DbFailed
      else case gget (db_epochs db) job of None \<Rightarrow> Inr 0 | Some e \<Rightarrow> Inr e)"

text \<open>The two statements of \<open>UpdateEpoch\<close>: the conditional update, then the look at a conflict.\<close>

definition pg_update_epoch_exec ::
  "bool \<Rightarrow> repl_db \<Rightarrow> string \<Rightarrow> int \<Rightarrow> int \<Rightarrow> (pg_error + bool) \<times> repl_db" where
  [effect_defs]: "pg_update_epoch_exec fails db job expected new =
     (if fails then (Inl DbFailed, db)
      else if gget (db_epochs db) job \<noteq> Some expected then (Inr False, db)
      else if new < 0 then (Inl DbConstraint, db)
      else (Inr True, db\<lparr>db_epochs := gput job new (db_epochs db)\<rparr>))"

definition pg_update_epoch_check :: "bool \<Rightarrow> repl_db \<Rightarrow> string \<Rightarrow> int \<Rightarrow> pg_error option" where
  "pg_update_epoch_check fails db job new =
     (if fails then Some DbFailed
      else case gget (db_epochs db) job of
        None \<Rightarrow> Some DbNoRows
      | Some current \<Rightarrow> if current = new then None else Some PgEpochConflict)"

definition pg_fence :: "bool \<Rightarrow> repl_db \<Rightarrow> string \<Rightarrow> int \<Rightarrow> pg_error option" where
  "pg_fence fails db job expected =
     (case pg_get_epoch fails db job of
        Inl e \<Rightarrow> Some e
      | Inr current \<Rightarrow> if current \<noteq> expected then Some PgEpochConflict else None)"

section \<open>Promotions\<close>

definition pg_create :: "bool \<Rightarrow> repl_db \<Rightarrow> promotion \<Rightarrow> pg_error option \<times> repl_db" where
  [effect_defs]: "pg_create fails db p =
     (if fails then (Some DbFailed, db)
      else if gget (db_promotions db) (p_key p) \<noteq> None then (Some DbConstraint, db)
      else (None, db\<lparr>db_promotions := gput (p_key p) p (db_promotions db)\<rparr>))"

definition pg_update :: "bool \<Rightarrow> repl_db \<Rightarrow> promotion \<Rightarrow> pg_error option \<times> repl_db" where
  [effect_defs]: "pg_update fails db p =
     (if fails then (Some DbFailed, db)
      else case gget (db_promotions db) (p_key p) of
        None \<Rightarrow> (None, db)
      | Some row \<Rightarrow>
          (None, db\<lparr>db_promotions := gput (p_key p)
             (row\<lparr>p_new_epoch := p_new_epoch p, p_state := p_state p, p_error := p_error p,
                  p_completed_at := p_completed_at p\<rparr>) (db_promotions db)\<rparr>))"

definition pg_get :: "bool \<Rightarrow> repl_db \<Rightarrow> string \<Rightarrow> string \<Rightarrow> pg_error + promotion option" where
  "pg_get fails db job key =
     (if fails then Inl DbFailed
      else case gget (db_promotions db) key of
        None \<Rightarrow> Inr None
      | Some p \<Rightarrow> Inr (if p_job_id p = job then Some (p\<lparr>p_id := p_key p\<rparr>) else None))"

definition pg_get_latest :: "bool \<Rightarrow> repl_db \<Rightarrow> string \<Rightarrow> pg_error + promotion option" where
  "pg_get_latest fails db job =
     (if fails then Inl DbFailed
      else let rows = sort_key (\<lambda>p. - p_started_at p) (filter (\<lambda>p. p_job_id p = job) (map snd (db_promotions db)))
           in Inr (case rows of [] \<Rightarrow> None | p # _ \<Rightarrow> Some (p\<lparr>p_id := p_key p\<rparr>)))"

section \<open>Progress\<close>

definition load_replication_progress :: "bool \<Rightarrow> repl_db \<Rightarrow> string \<Rightarrow> string \<Rightarrow> pg_error + int" where
  "load_replication_progress fails db source target =
     (if fails then Inl DbFailed
      else case gget (db_progress db) (source, target) of None \<Rightarrow> Inr 0 | Some n \<Rightarrow> Inr n)"

definition save_replication_progress ::
  "bool \<Rightarrow> repl_db \<Rightarrow> string \<Rightarrow> string \<Rightarrow> int \<Rightarrow> pg_error option \<times> repl_db" where
  [effect_defs]: "save_replication_progress fails db source target sq =
     (if sq < 0 then (Some PgInvalid, db)
      else if fails then (Some DbFailed, db)
      else (None, db\<lparr>db_progress := gput (source, target)
              (case gget (db_progress db) (source, target) of None \<Rightarrow> sq | Some n \<Rightarrow> max n sq) (db_progress db)\<rparr>))"

section \<open>Admissions\<close>

definition checkpoint_fingerprint ::
  "string \<Rightarrow> string \<Rightarrow> string \<Rightarrow> int \<Rightarrow> int \<Rightarrow> string \<Rightarrow> int \<Rightarrow> string" where
  "checkpoint_fingerprint source target job sq ep uri crc =
     sha256_hex (join_with [CHR 0x00] [source, target, job, dec_int sq, dec_int ep, uri, dec_int crc])"

definition new_admission ::
  "string \<Rightarrow> string \<Rightarrow> string \<Rightarrow> int \<Rightarrow> int \<Rightarrow> string \<Rightarrow> int \<Rightarrow> admission" where
  "new_admission source target job sq ep uri crc =
     \<lparr>adm_epoch = ep, adm_uri = uri, adm_crc32c = crc,
      adm_fingerprint = checkpoint_fingerprint source target job sq ep uri crc, adm_committed = False\<rparr>"

text \<open>The two statements of \<open>ClaimCheckpoint\<close>: the reservation, then the look at a reservation that exists.\<close>

definition claim_insert ::
  "bool \<Rightarrow> repl_db \<Rightarrow> string \<Rightarrow> string \<Rightarrow> string \<Rightarrow> int \<Rightarrow> int \<Rightarrow> string \<Rightarrow> int \<Rightarrow> (pg_error + bool) \<times> repl_db" where
  [effect_defs]: "claim_insert fails db source target job sq ep uri crc =
     (if fails then (Inl DbFailed, db)
      else if gget (db_admissions db) (source, target, job, sq) \<noteq> None then (Inr False, db)
      else (Inr True, db\<lparr>db_admissions := gput (source, target, job, sq)
              (new_admission source target job sq ep uri crc) (db_admissions db)\<rparr>))"

definition claim_look ::
  "bool \<Rightarrow> repl_db \<Rightarrow> string \<Rightarrow> string \<Rightarrow> string \<Rightarrow> int \<Rightarrow> string \<Rightarrow> pg_error + bool" where
  "claim_look fails db source target job sq fingerprint =
     (if fails then Inl DbFailed
      else case gget (db_admissions db) (source, target, job, sq) of
        None \<Rightarrow> Inl DbNoRows
      | Some a \<Rightarrow>
          if adm_fingerprint a \<noteq> fingerprint then Inl AdmissionConflict
          else if \<not> adm_committed a then Inl AdmissionInProgress
          else Inr False)"

definition claim_checkpoint ::
  "bool \<Rightarrow> bool \<Rightarrow> repl_db \<Rightarrow> string \<Rightarrow> string \<Rightarrow> string \<Rightarrow> int \<Rightarrow> int \<Rightarrow> string \<Rightarrow> int \<Rightarrow>
     (pg_error + bool) \<times> repl_db" where
  [effect_defs]: "claim_checkpoint fails1 fails2 db source target job sq ep uri crc =
     (if source = [] \<or> target = [] \<or> job = [] \<or> sq < 0 \<or> ep < 0 then (Inl PgInvalid, db)
      else case claim_insert fails1 db source target job sq ep uri crc of
        (Inl e, db1) \<Rightarrow> (Inl e, db1)
      | (Inr True, db1) \<Rightarrow> (Inr True, db1)
      | (Inr False, db1) \<Rightarrow>
          (claim_look fails2 db1 source target job sq (checkpoint_fingerprint source target job sq ep uri crc), db1))"

definition commit_checkpoint ::
  "bool \<Rightarrow> repl_db \<Rightarrow> string \<Rightarrow> string \<Rightarrow> string \<Rightarrow> int \<Rightarrow> pg_error option \<times> repl_db" where
  [effect_defs]: "commit_checkpoint fails db source target job sq =
     (if fails then (Some DbFailed, db)
      else case gget (db_admissions db) (source, target, job, sq) of
        None \<Rightarrow> (Some DbNoRows, db)
      | Some a \<Rightarrow>
          (None, db\<lparr>db_admissions := gput (source, target, job, sq) (a\<lparr>adm_committed := True\<rparr>) (db_admissions db)\<rparr>))"

definition release_checkpoint ::
  "bool \<Rightarrow> repl_db \<Rightarrow> string \<Rightarrow> string \<Rightarrow> string \<Rightarrow> int \<Rightarrow> pg_error option \<times> repl_db" where
  [effect_defs]: "release_checkpoint fails db source target job sq =
     (if fails then (Some DbFailed, db)
      else case gget (db_admissions db) (source, target, job, sq) of
        None \<Rightarrow> (None, db)
      | Some a \<Rightarrow>
          if adm_committed a then (None, db)
          else (None, db\<lparr>db_admissions := gdel (source, target, job, sq) (db_admissions db)\<rparr>))"

section \<open>Runs of admissions and of progress\<close>

datatype admission_op =
    Claim bool bool string string string int int string int
  | Commit bool string string string int
  | Release bool string string string int

fun admission_exec :: "repl_db \<Rightarrow> admission_op \<Rightarrow> (pg_error + bool) \<times> repl_db" where
  "admission_exec db (Claim f1 f2 source target job sq ep uri crc) =
     claim_checkpoint f1 f2 db source target job sq ep uri crc"
| "admission_exec db (Commit f source target job sq) = (Inr False, snd (commit_checkpoint f db source target job sq))"
| "admission_exec db (Release f source target job sq) = (Inr False, snd (release_checkpoint f db source target job sq))"

fun admission_op_key :: "admission_op \<Rightarrow> admission_key" where
  "admission_op_key (Claim f1 f2 source target job sq ep uri crc) = (source, target, job, sq)"
| "admission_op_key (Commit f source target job sq) = (source, target, job, sq)"
| "admission_op_key (Release f source target job sq) = (source, target, job, sq)"

fun is_release :: "admission_op \<Rightarrow> bool" where
  "is_release (Release _ _ _ _ _) = True"
| "is_release _ = False"

text \<open>How often a run tells a caller that the checkpoint \<open>k\<close> has to be delivered.\<close>

fun deliveries :: "admission_key \<Rightarrow> repl_db \<Rightarrow> admission_op list \<Rightarrow> nat" where
  "deliveries k db [] = 0"
| "deliveries k db (op # ops) =
     (case admission_exec db op of (r, db') \<Rightarrow>
        (if admission_op_key op = k \<and> r = Inr True then 1 else 0) + deliveries k db' ops)"

definition releases :: "admission_key \<Rightarrow> admission_op list \<Rightarrow> nat" where
  "releases k ops = length (filter (\<lambda>op. is_release op \<and> admission_op_key op = k) ops)"

definition delivery_budget :: "admission_key \<Rightarrow> repl_db \<Rightarrow> admission_op list \<Rightarrow> nat" where
  "delivery_budget k db ops =
     (case gget (db_admissions db) k of
        None \<Rightarrow> 1 + releases k ops
      | Some a \<Rightarrow> if adm_committed a then 0 else releases k ops)"

section \<open>Lemmas\<close>

lemma releases_Cons:
  "releases k (op # ops) = (if is_release op \<and> admission_op_key op = k then 1 else 0) + releases k ops"
  by (simp add: releases_def)

lemma new_admission_uncommitted [simp]: "\<not> adm_committed (new_admission source target job sq ep uri crc)"
  by (simp add: new_admission_def)

lemma claim_cases:
  assumes "claim_checkpoint f1 f2 db source target job sq ep uri crc = (r, db')"
  obtains (granted) "r = Inr True" and "gget (db_admissions db) (source, target, job, sq) = None"
      and "db' = db\<lparr>db_admissions := gput (source, target, job, sq)
              (new_admission source target job sq ep uri crc) (db_admissions db)\<rparr>"
  | (refused) "r \<noteq> Inr True" and "db' = db"
proof (cases "(source = [] \<or> target = [] \<or> job = [] \<or> sq < 0 \<or> ep < 0) \<or> f1")
  case True
  with assms have "r \<noteq> Inr True" "db' = db"
    by (auto simp: claim_checkpoint_def claim_insert_def split: if_splits)
  then show ?thesis by (rule refused)
next
  case False
  note c = assms [unfolded claim_checkpoint_def claim_insert_def]
  show ?thesis
  proof (cases "gget (db_admissions db) (source, target, job, sq)")
    case None
    with c False show ?thesis by (intro granted) auto
  next
    case (Some a)
    with c False have "(r, db') = (claim_look f2 db source target job sq
        (checkpoint_fingerprint source target job sq ep uri crc), db)" by auto
    moreover have "claim_look f2 db source target job sq fp \<noteq> Inr True" for fp
      by (simp add: claim_look_def split: option.splits)
    ultimately show ?thesis by (intro refused) auto
  qed
qed

lemma admission_exec_other:
  assumes "admission_op_key op \<noteq> k" and "admission_exec db op = (r, db')"
  shows "gget (db_admissions db') k = gget (db_admissions db) k"
proof (cases op)
  case (Claim f1 f2 source target job sq ep uri crc)
  with assms(2) have "claim_checkpoint f1 f2 db source target job sq ep uri crc = (r, db')" by simp
  then show ?thesis by (cases rule: claim_cases) (use assms(1) Claim in auto)
next
  case (Commit f source target job sq)
  with assms show ?thesis by (auto simp: commit_checkpoint_def split: option.splits)
next
  case (Release f source target job sq)
  with assms show ?thesis by (auto simp: release_checkpoint_def split: option.splits)
qed

lemma deliveries_le_budget: "deliveries k db ops \<le> delivery_budget k db ops"
proof (induction ops arbitrary: db)
  case Nil
  then show ?case by simp
next
  case (Cons op ops)
  obtain r db' where x: "admission_exec db op = (r, db')" by fastforce
  have ih: "deliveries k db' ops \<le> delivery_budget k db' ops" by (rule Cons)
  show ?case
  proof (cases "admission_op_key op = k")
    case False
    with admission_exec_other [OF False x] x ih show ?thesis
      by (auto simp: delivery_budget_def releases_Cons split: option.splits if_splits)
  next
    case True
    show ?thesis
    proof (cases op)
      case (Claim f1 f2 source target job sq ep uri crc)
      with x have "claim_checkpoint f1 f2 db source target job sq ep uri crc = (r, db')" by simp
      then show ?thesis
        by (cases rule: claim_cases) (use True Claim x ih in \<open>auto simp: delivery_budget_def releases_Cons split: option.splits if_splits\<close>)
    next
      case (Commit f source target job sq)
      with True x ih show ?thesis
        by (cases "gget (db_admissions db) k")
          (auto simp: delivery_budget_def releases_Cons commit_checkpoint_def split: if_splits)
    next
      case (Release f source target job sq)
      with True x ih show ?thesis
        by (cases "gget (db_admissions db) k")
          (auto simp: delivery_budget_def releases_Cons release_checkpoint_def split: if_splits)
    qed
  qed
qed

lemma load_save:
  assumes "load_replication_progress False db source target = Inr p"
  shows "load_replication_progress False (snd (save_replication_progress f db source target n)) source target =
    Inr (if \<not> f \<and> 0 \<le> n then max p n else p)"
  using assms by (auto simp: load_replication_progress_def save_replication_progress_def split: option.splits)

lemma load_saves:
  assumes "load_replication_progress False db source target = Inr p"
  shows "load_replication_progress False
    (foldl (\<lambda>db (f, n). snd (save_replication_progress f db source target n)) db saves) source target =
    Inr (foldl max p (map snd (filter (\<lambda>(f, n). \<not> f \<and> 0 \<le> n) saves)))"
  using assms
proof (induction saves arbitrary: db p)
  case (Cons x saves)
  obtain f n where x: "x = (f, n)" by (cases x)
  from Cons.IH [OF load_save [OF Cons.prems, of f n]] show ?case by (simp add: x)
qed simp

section \<open>Properties\<close>

text \<open>
  C19. A checkpoint is handed out for delivery at most once per attempt: in any sequence of claims,
  commits and releases, with any statements failing, the number of claims that are answered with
  "deliver" is at most one more than the number of releases in between, and none is once the
  admission is committed.
\<close>

theorem checkpoint_delivered_once:
  "deliveries k db ops \<le>
     (case gget (db_admissions db) k of
        None \<Rightarrow> 1 + releases k ops
      | Some a \<Rightarrow> if adm_committed a then 0 else releases k ops)"
  using deliveries_le_budget [of k db ops] by (simp add: delivery_budget_def)

text \<open>
  The recorded replication progress is the largest acknowledgement: after any sequence of
  saves, the loaded sequence is the maximum of the old one and of all that were saved
  successfully, in whatever order they arrived.
\<close>

lemma progress_is_maximum:
  "\<exists>p. load_replication_progress False db source target = Inr p \<and>
     load_replication_progress False
       (foldl (\<lambda>db (f, n). snd (save_replication_progress f db source target n)) db saves) source target =
     Inr (foldl max p (map snd (filter (\<lambda>(f, n). \<not> f \<and> 0 \<le> n) saves)))"
proof -
  obtain p where p: "load_replication_progress False db source target = Inr p"
    by (cases "gget (db_progress db) (source, target)") (auto simp: load_replication_progress_def)
  with load_saves [OF p] show ?thesis by blast
qed

end
