(* ===== verification/Promotion.thy ===== *)
theory Promotion
  imports ReplicationStore
begin

text \<open>
  Region promotion, from \<open>control-plane/replication/promotion/promotion.go\<close>, over the PostgreSQL
  store. \<open>Promote\<close> makes its calls one after the other while other promotions run, in this process
  and in others, so a call is a program counter and \<open>promote_step\<close> takes it from one call to the
  next; what a step is given in its \<open>answer\<close> is the clock and what the database, the capability
  revalidator and the recovery coordinator reply. Promotions are referenced by pointer: \<open>wd_heap\<close>
  holds the promotion each call creates and \<open>wd_tracked\<close> is the \<open>promotions\<close> map of each manager.
\<close>

section \<open>Data\<close>

datatype promotion_error =
    ErrNotStandbyRegion | ErrAlreadyPromoting | ErrEpochConflict | ErrCapabilityFailed
  | ErrInvalidRequest | ErrTransition | ErrDb pg_error | ErrExternal string

definition error_text :: "promotion_error \<Rightarrow> string" where
  "error_text e =
     (case e of
        ErrCapabilityFailed \<Rightarrow> ''promotion: sink capability revalidation failed''
      | ErrDb PgEpochConflict \<Rightarrow> ''promotion: epoch conflict''
      | ErrExternal m \<Rightarrow> m
      | _ \<Rightarrow> ''database error'')"

record promotion_config =
  pc_current_region :: string
  pc_topology :: "(string \<Rightarrow> bool) option"
  pc_has_fencer :: bool
  pc_has_revalidator :: bool
  pc_has_recovery :: bool

record promote_call =
  call_manager :: nat
  call_job :: string
  call_target :: string
  call_key :: string
  call_expected :: int

record answer =
  ans_fails :: bool
  ans_now :: instant
  ans_error :: "string option"

record world =
  wd_db :: repl_db
  wd_tracked :: "(nat \<times> string, nat) gomap"
  wd_heap :: "(nat, promotion) gomap"

datatype pc =
    PcValidate
  | PcTracked
  | PcLookup
  | PcReadEpoch
  | PcTrack int
  | PcCreate int
  | PcFence int
  | PcAssign int
  | PcUpdateEpoch int int
  | PcUpdateCheck int int
  | PcRevalidate int
  | PcRecover int
  | PcSave
  | PcFail promotion_error
  | PcDone "promotion_error + promotion"

section \<open>Promote\<close>

text \<open>\<open>promotion.TransitionTo(st, "")\<close> with its error check.\<close>

definition move_to :: "world \<Rightarrow> nat \<Rightarrow> promotion_state \<Rightarrow> instant \<Rightarrow> pc \<Rightarrow> pc \<times> world" where
  "move_to w i st now next =
     (case gget (wd_heap w) i of
        None \<Rightarrow> (PcDone (Inl ErrTransition), w)
      | Some p \<Rightarrow>
         (case transition_to p st [] now of
            None \<Rightarrow> (PcDone (Inl ErrTransition), w)
          | Some p' \<Rightarrow> (next, w\<lparr>wd_heap := gput i p' (wd_heap w)\<rparr>)))"

text \<open>\<open>promotion.TransitionTo(StatePromotionFailed, err.Error())\<close>, whose error the code ignores.\<close>

definition fail_with :: "world \<Rightarrow> nat \<Rightarrow> promotion_error \<Rightarrow> instant \<Rightarrow> pc \<times> world" where
  "fail_with w i err now =
     (case gget (wd_heap w) i of
        None \<Rightarrow> (PcFail err, w)
      | Some p \<Rightarrow>
         (case transition_to p StatePromotionFailed (error_text err) now of
            None \<Rightarrow> (PcFail err, w)
          | Some p' \<Rightarrow> (PcFail err, w\<lparr>wd_heap := gput i p' (wd_heap w)\<rparr>)))"

text \<open>\<open>m.store.Update(ctx, promotion)\<close>, whose result the code ignores.\<close>

definition save_promotion :: "bool \<Rightarrow> world \<Rightarrow> nat \<Rightarrow> world" where
  "save_promotion fails w i =
     (case gget (wd_heap w) i of
        None \<Rightarrow> w
      | Some p \<Rightarrow> w\<lparr>wd_db := snd (pg_update fails (wd_db w) p)\<rparr>)"

definition track_promotion :: "promotion_config \<Rightarrow> promote_call \<Rightarrow> nat \<Rightarrow> int \<Rightarrow> instant \<Rightarrow> world \<Rightarrow> world" where
  "track_promotion cfg c i e now w =
     w\<lparr>wd_heap := gput i (new_promotion (call_job c) (pc_current_region cfg) (call_target c) (call_key c) e now)
                   (wd_heap w),
       wd_tracked := gput (call_manager c, call_job c) i (wd_tracked w)\<rparr>"

fun promote_step ::
  "promotion_config \<Rightarrow> promote_call \<Rightarrow> nat \<Rightarrow> answer \<Rightarrow> pc \<times> world \<Rightarrow> pc \<times> world" where
  "promote_step cfg c i a (PcValidate, w) =
     (if call_job c = [] \<or> call_target c = [] \<or> length (call_key c) < 16 \<or> length (call_key c) > 128 \<or>
         call_expected c < 0
      then (PcDone (Inl ErrInvalidRequest), w)
      else if \<not> opt_all (\<lambda>is_standby. is_standby (call_target c)) (pc_topology cfg)
      then (PcDone (Inl ErrNotStandbyRegion), w)
      else (PcTracked, w))"
| "promote_step cfg c i a (PcTracked, w) =
     (case gget (wd_tracked w) (call_manager c, call_job c) of
        None \<Rightarrow> (PcLookup, w)
      | Some r \<Rightarrow>
          if opt_all promotion_is_complete (gget (wd_heap w) r) then (PcLookup, w)
          else (PcDone (Inl ErrAlreadyPromoting), w))"
| "promote_step cfg c i a (PcLookup, w) =
     (case pg_get (ans_fails a) (wd_db w) (call_job c) (call_key c) of
        Inr (Some p) \<Rightarrow> (PcDone (Inr p), w)
      | _ \<Rightarrow> (PcReadEpoch, w))"
| "promote_step cfg c i a (PcReadEpoch, w) =
     (case pg_get_epoch (ans_fails a) (wd_db w) (call_job c) of
        Inl err \<Rightarrow> (PcDone (Inl (ErrDb err)), w)
      | Inr e \<Rightarrow>
          if e \<noteq> call_expected c then (PcDone (Inl ErrEpochConflict), w) else (PcTrack e, w))"
| "promote_step cfg c i a (PcTrack e, w) = (PcCreate e, track_promotion cfg c i e (ans_now a) w)"
| "promote_step cfg c i a (PcCreate e, w) =
     (case gget (wd_heap w) i of
        None \<Rightarrow> (PcDone (Inl ErrTransition), w)
      | Some p \<Rightarrow>
         (case pg_create (ans_fails a) (wd_db w) p of
            (Some err, db) \<Rightarrow> (PcDone (Inl (ErrDb err)), w\<lparr>wd_db := db\<rparr>)
          | (None, db) \<Rightarrow> move_to (w\<lparr>wd_db := db\<rparr>) i StateEpochBumped (ans_now a) (PcFence e)))"
| "promote_step cfg c i a (PcFence e, w) =
     (if \<not> pc_has_fencer cfg then (PcAssign e, w)
      else case pg_fence (ans_fails a) (wd_db w) (call_job c) e of
        Some err \<Rightarrow> fail_with w i (ErrDb err) (ans_now a)
      | None \<Rightarrow> (PcAssign e, w))"
| "promote_step cfg c i a (PcAssign e, w) =
     (case pg_assign (ans_fails a) (wd_db w) (call_job c) of
        (Inl err, db) \<Rightarrow> fail_with (w\<lparr>wd_db := db\<rparr>) i (ErrDb err) (ans_now a)
      | (Inr n, db) \<Rightarrow>
         (case gget (wd_heap w) i of
            None \<Rightarrow> (PcDone (Inl ErrTransition), w\<lparr>wd_db := db\<rparr>)
          | Some p \<Rightarrow>
              move_to (w\<lparr>wd_db := db, wd_heap := gput i (p\<lparr>p_new_epoch := n\<rparr>) (wd_heap w)\<rparr>) i
                StateEpochWritten (ans_now a) (PcUpdateEpoch e n)))"
| "promote_step cfg c i a (PcUpdateEpoch e n, w) =
     (case pg_update_epoch_exec (ans_fails a) (wd_db w) (call_job c) e n of
        (Inl err, db) \<Rightarrow> fail_with (w\<lparr>wd_db := db\<rparr>) i (ErrDb err) (ans_now a)
      | (Inr True, db) \<Rightarrow> move_to (w\<lparr>wd_db := db\<rparr>) i StateCapabilityRevalidating (ans_now a) (PcRevalidate n)
      | (Inr False, db) \<Rightarrow> (PcUpdateCheck e n, w\<lparr>wd_db := db\<rparr>))"
| "promote_step cfg c i a (PcUpdateCheck e n, w) =
     (case pg_update_epoch_check (ans_fails a) (wd_db w) (call_job c) n of
        Some err \<Rightarrow> fail_with w i (ErrDb err) (ans_now a)
      | None \<Rightarrow> move_to w i StateCapabilityRevalidating (ans_now a) (PcRevalidate n))"
| "promote_step cfg c i a (PcRevalidate n, w) =
     (if \<not> pc_has_revalidator cfg then fail_with w i ErrCapabilityFailed (ans_now a)
      else case ans_error a of
        Some m \<Rightarrow> fail_with w i (ErrExternal m) (ans_now a)
      | None \<Rightarrow> move_to w i StateCapabilityConfirmed (ans_now a) (PcRecover n))"
| "promote_step cfg c i a (PcRecover n, w) =
     (case (if pc_has_recovery cfg then ans_error a else None) of
        Some m \<Rightarrow> fail_with w i (ErrExternal m) (ans_now a)
      | None \<Rightarrow> move_to w i StateFailoverComplete (ans_now a) PcSave)"
| "promote_step cfg c i a (PcSave, w) =
     (case gget (wd_heap w) i of
        None \<Rightarrow> (PcDone (Inl ErrTransition), w)
      | Some p \<Rightarrow> (PcDone (Inr p), save_promotion (ans_fails a) w i))"
| "promote_step cfg c i a (PcFail err, w) = (PcDone (Inl err), save_promotion (ans_fails a) w i)"
| "promote_step cfg c i a (PcDone r, w) = (PcDone r, w)"

text \<open>A call that runs alone: one answer per step.\<close>

fun promote_run ::
  "promotion_config \<Rightarrow> promote_call \<Rightarrow> nat \<Rightarrow> answer list \<Rightarrow> pc \<times> world \<Rightarrow> pc \<times> world" where
  "promote_run cfg c i [] st = st"
| "promote_run cfg c i (a # as) st = promote_run cfg c i as (promote_step cfg c i a st)"

section \<open>Several calls at once\<close>

text \<open>
  Calls \<open>0, 1, 2, ...\<close> of the list \<open>cs\<close>, each with its program counter; a step of the system is
  a step of any one of them with any answer.
\<close>

inductive system_step ::
  "promotion_config \<Rightarrow> promote_call list \<Rightarrow> pc list \<times> world \<Rightarrow> pc list \<times> world \<Rightarrow> bool" for cfg cs where
  system_step: "i < length cs \<Longrightarrow> promote_step cfg (cs ! i) i a (pcs ! i, w) = (q, w') \<Longrightarrow>
     system_step cfg cs (pcs, w) (pcs[i := q], w')"

inductive_cases system_stepE: "system_step cfg cs (pcs, w) st'"

definition system_start :: "promote_call list \<Rightarrow> repl_db \<Rightarrow> pc list \<times> world" where
  "system_start cs db =
     (replicate (length cs) PcValidate, \<lparr>wd_db = db, wd_tracked = [], wd_heap = []\<rparr>)"

text \<open>\<open>Stats\<close> of one manager.\<close>

definition promotion_stats :: "nat \<Rightarrow> world \<Rightarrow> nat \<times> nat \<times> nat" where
  "promotion_stats m w =
     (let ps = List.map_filter (\<lambda>((m', _), r). if m' = m then gget (wd_heap w) r else None) (wd_tracked w)
      in (length ps, length (filter (\<lambda>p. promotion_is_complete p \<and> \<not> promotion_is_failed p) ps),
          length (filter (\<lambda>p. promotion_is_complete p \<and> promotion_is_failed p) ps)))"

text \<open>\<open>GetStatus\<close>.\<close>

definition promotion_get_status :: "bool \<Rightarrow> repl_db \<Rightarrow> string \<Rightarrow> string \<Rightarrow> pg_error + promotion option" where
  "promotion_get_status fails db job key =
     (if key \<noteq> [] then pg_get fails db job key else pg_get_latest fails db job)"

section \<open>Lemmas: one step\<close>

definition epoch_of :: "repl_db \<Rightarrow> string \<Rightarrow> int" where
  "epoch_of db job = (case gget (db_epochs db) job of None \<Rightarrow> 0 | Some e \<Rightarrow> e)"

text \<open>A promotion that holds an epoch: it was assigned one and has not failed since.\<close>

definition granted :: "promotion \<Rightarrow> bool" where
  "granted p \<longleftrightarrow> StateEpochWritten \<le> p_state p \<and> p_state p \<noteq> StatePromotionFailed"

lemma transition_Some:
  assumes "transition_to p st msg now = Some p'"
  shows "p_state p' = st \<and> p_state p < st \<and> p_job_id p' = p_job_id p \<and> p_new_epoch p' = p_new_epoch p \<and>
    p_key p' = p_key p \<and> p_previous_epoch p' = p_previous_epoch p"
  using assms by (auto simp: transition_to_def Let_def split: if_splits)

lemma transition_advances:
  "p_state p < st \<Longrightarrow> p_state p \<noteq> StatePromotionFailed \<Longrightarrow> \<exists>p'. transition_to p st msg now = Some p'"
  by (auto simp: transition_to_def Let_def)

lemma pg_get_epoch_Inr: "pg_get_epoch f db job = Inr e \<Longrightarrow> e = epoch_of db job"
  by (auto simp: pg_get_epoch_def epoch_of_def split: if_splits option.splits)

lemma pg_assign_cases:
  assumes "pg_assign f db job = (r, db')"
  shows "(\<exists>err. r = Inl err) \<and> db' = db \<or>
    r = Inr (epoch_of db job + 1) \<and> (\<forall>j. epoch_of db' j = (if j = job then epoch_of db job + 1 else epoch_of db j))"
  using assms by (auto simp: pg_assign_def epoch_of_def split: if_splits option.splits)

lemma pg_update_epoch_cases:
  assumes "pg_update_epoch_exec f db job e n = (r, db')"
  shows "r \<noteq> Inr True \<and> db' = db \<or> r = Inr True \<and> gget (db_epochs db) job = Some e"
  using assms by (auto simp: pg_update_epoch_exec_def split: if_splits)

lemma pg_promotions_epochs [simp]:
  "db_epochs (snd (pg_create f db p)) = db_epochs db" "db_epochs (snd (pg_update f db p)) = db_epochs db"
  by (simp_all add: pg_create_def pg_update_def split: option.split)

lemma epoch_of_cong: "db_epochs db' = db_epochs db \<Longrightarrow> epoch_of db' = epoch_of db"
  by (simp add: fun_eq_iff epoch_of_def)

text \<open>
  What is true of one call: \<open>h\<close> is its promotion on the heap and \<open>ep\<close> the job's epoch in the
  database.
\<close>

fun pc_inv :: "int \<Rightarrow> promotion option \<Rightarrow> pc \<Rightarrow> bool" where
  "pc_inv ep h (PcTrack e) = (h = None \<and> e \<le> ep)"
| "pc_inv ep h (PcCreate e) = (e \<le> ep \<and> (\<exists>p. h = Some p \<and> p_state p = StatePending))"
| "pc_inv ep h (PcFence e) = (e \<le> ep \<and> (\<exists>p. h = Some p \<and> p_state p = StateEpochBumped))"
| "pc_inv ep h (PcAssign e) = (e \<le> ep \<and> (\<exists>p. h = Some p \<and> p_state p = StateEpochBumped))"
| "pc_inv ep h (PcUpdateEpoch e n) = (e < n \<and> (\<exists>p. h = Some p \<and> p_state p = StateEpochWritten \<and> p_new_epoch p = n))"
| "pc_inv ep h (PcUpdateCheck e n) = (e < n \<and> (\<exists>p. h = Some p \<and> p_state p = StateEpochWritten \<and> p_new_epoch p = n))"
| "pc_inv ep h (PcRevalidate n) = (\<exists>p. h = Some p \<and> p_state p = StateCapabilityRevalidating)"
| "pc_inv ep h (PcRecover n) = (\<exists>p. h = Some p \<and> p_state p = StateCapabilityConfirmed)"
| "pc_inv ep h PcSave = (\<exists>p. h = Some p \<and> p_state p = StateFailoverComplete)"
| "pc_inv ep h (PcFail err) = True"
| "pc_inv ep h (PcDone r) = True"
| "pc_inv ep h _ = (h = None)"

definition local_inv :: "string \<Rightarrow> int \<Rightarrow> promotion option \<Rightarrow> pc \<Rightarrow> bool" where
  "local_inv job ep h pc \<longleftrightarrow> pc_inv ep h pc \<and>
     (\<forall>p. h = Some p \<longrightarrow> p_job_id p = job \<and> (granted p \<longrightarrow> p_new_epoch p \<le> ep))"

text \<open>The effect of one step of call \<open>i\<close> on what the other calls can see.\<close>

definition step_effect :: "string \<Rightarrow> nat \<Rightarrow> world \<Rightarrow> world \<Rightarrow> bool" where
  "step_effect job i w w' \<longleftrightarrow>
     (\<forall>j. j \<noteq> i \<longrightarrow> gget (wd_heap w') j = gget (wd_heap w) j) \<and>
     (\<forall>j. epoch_of (wd_db w) j \<le> epoch_of (wd_db w') j) \<and>
     (\<forall>p'. gget (wd_heap w') i = Some p' \<and> granted p' \<longrightarrow>
        (\<exists>p. gget (wd_heap w) i = Some p \<and> granted p \<and> p_new_epoch p = p_new_epoch p') \<or>
        epoch_of (wd_db w) job < p_new_epoch p')"

lemma step_effect_refl [simp]: "step_effect job i w w"
  by (auto simp: step_effect_def)

lemma save_promotion_simps [simp]:
  "wd_heap (save_promotion f w i) = wd_heap w" "wd_tracked (save_promotion f w i) = wd_tracked w"
  by (simp_all add: save_promotion_def split: option.split)

lemma save_promotion_epoch [simp]: "epoch_of (wd_db (save_promotion f w i)) = epoch_of (wd_db w)"
  by (rule epoch_of_cong) (simp add: save_promotion_def split: option.split)

lemma move_to_cases:
  assumes "move_to w i st now nxt = (q, w')" and "gget (wd_heap w) i = Some p" and "p_state p < st"
    and "p_state p \<noteq> StatePromotionFailed"
  obtains p' where "q = nxt" and "w' = w\<lparr>wd_heap := gput i p' (wd_heap w)\<rparr>" and "p_state p' = st"
    and "p_job_id p' = p_job_id p" and "p_new_epoch p' = p_new_epoch p"
proof -
  obtain p' where t: "transition_to p st [] now = Some p'"
    using transition_advances [OF assms(3,4)] by blast
  with assms(1,2) have "q = nxt" "w' = w\<lparr>wd_heap := gput i p' (wd_heap w)\<rparr>" by (simp_all add: move_to_def)
  with transition_Some [OF t] that show ?thesis by blast
qed

lemma fail_with_cases:
  assumes "fail_with w i err now = (q, w')" and "gget (wd_heap w) i = Some p"
  obtains p' where "q = PcFail err" and "wd_db w' = wd_db w"
    and "\<forall>j. gget (wd_heap w') j = (if j = i then Some p' else gget (wd_heap w) j)"
    and "p_job_id p' = p_job_id p" and "p' = p \<or> p_state p' = StatePromotionFailed"
proof (cases "transition_to p StatePromotionFailed (error_text err) now")
  case None
  with assms show ?thesis by (intro that [of p]) (auto simp: fail_with_def)
next
  case (Some p')
  with assms transition_Some [OF Some] show ?thesis by (intro that [of p']) (auto simp: fail_with_def)
qed

lemma fail_step:
  assumes "fail_with w i err now = (q, w')" and "gget (wd_heap w) i = Some p"
    and "local_inv job (epoch_of (wd_db w) job) (Some p) pc"
  shows "local_inv job (epoch_of (wd_db w') job) (gget (wd_heap w') i) q \<and> step_effect job i w w'"
proof -
  obtain p' where "q = PcFail err" "wd_db w' = wd_db w"
    "\<forall>j. gget (wd_heap w') j = (if j = i then Some p' else gget (wd_heap w) j)"
    "p_job_id p' = p_job_id p" "p' = p \<or> p_state p' = StatePromotionFailed"
    using assms(1,2) by (rule fail_with_cases)
  with assms(2,3) show ?thesis by (auto simp: local_inv_def step_effect_def granted_def)
qed

lemma move_step:
  assumes "move_to w i st now nxt = (q, w')" and "gget (wd_heap w) i = Some p" and "p_state p < st"
    and "p_state p \<noteq> StatePromotionFailed" and "local_inv job (epoch_of (wd_db w) job) (Some p) pc"
    and "granted p \<or> st \<le> StateEpochBumped"
    and "\<And>p'. p_state p' = st \<Longrightarrow> p_new_epoch p' = p_new_epoch p \<Longrightarrow> pc_inv (epoch_of (wd_db w) job) (Some p') nxt"
  shows "local_inv job (epoch_of (wd_db w') job) (gget (wd_heap w') i) q \<and> step_effect job i w w'"
proof -
  obtain p' where "q = nxt" "w' = w\<lparr>wd_heap := gput i p' (wd_heap w)\<rparr>" "p_state p' = st"
    "p_job_id p' = p_job_id p" "p_new_epoch p' = p_new_epoch p"
    using assms(1-4) by (rule move_to_cases)
  moreover have "st \<le> StateEpochBumped \<Longrightarrow> p_state p' = st \<Longrightarrow> \<not> granted p'"
    by (auto simp: granted_def less_eq_promotion_state_def)
  ultimately show ?thesis using assms(2,5-7) by (auto simp: local_inv_def step_effect_def)
qed

text \<open>The three groups of steps: before the promotion exists, up to the assignment, after it.\<close>

lemma early_step:
  assumes "promote_step cfg c i a (pc, w) = (q, w')"
    and "pc \<in> {PcValidate, PcTracked, PcLookup, PcReadEpoch}"
    and "local_inv (call_job c) (epoch_of (wd_db w) (call_job c)) (gget (wd_heap w) i) pc"
  shows "local_inv (call_job c) (epoch_of (wd_db w') (call_job c)) (gget (wd_heap w') i) q \<and>
    step_effect (call_job c) i w w'"
proof -
  have h: "gget (wd_heap w) i = None" using assms(2,3) by (auto simp: local_inv_def)
  have "w' = w \<and> pc_inv (epoch_of (wd_db w) (call_job c)) None q"
    using assms(1,2) pg_get_epoch_Inr [of "ans_fails a" "wd_db w" "call_job c"]
    by (auto split: if_splits option.splits sum.splits)
  with h show ?thesis by (auto simp: local_inv_def)
qed

lemma track_step:
  assumes "local_inv (call_job c) (epoch_of (wd_db w) (call_job c)) (gget (wd_heap w) i) (PcTrack e)"
  shows "local_inv (call_job c) (epoch_of (wd_db (track_promotion cfg c i e now w)) (call_job c))
      (gget (wd_heap (track_promotion cfg c i e now w)) i) (PcCreate e) \<and>
    step_effect (call_job c) i w (track_promotion cfg c i e now w)"
  using assms
  by (auto simp: local_inv_def step_effect_def track_promotion_def new_promotion_def granted_def
      less_eq_promotion_state_def)

lemma create_step:
  assumes "promote_step cfg c i a (PcCreate e, w) = (q, w')"
    and "local_inv (call_job c) (epoch_of (wd_db w) (call_job c)) (gget (wd_heap w) i) (PcCreate e)"
  shows "local_inv (call_job c) (epoch_of (wd_db w') (call_job c)) (gget (wd_heap w') i) q \<and>
    step_effect (call_job c) i w w'"
proof -
  obtain p where p: "gget (wd_heap w) i = Some p" "p_state p = StatePending" "e \<le> epoch_of (wd_db w) (call_job c)"
    using assms(2) by (auto simp: local_inv_def)
  obtain r db where cr: "pg_create (ans_fails a) (wd_db w) p = (r, db)" by fastforce
  have ep: "epoch_of db = epoch_of (wd_db w)"
    using epoch_of_cong [OF pg_promotions_epochs(1)] cr by (metis snd_conv)
  let ?w = "w\<lparr>wd_db := db\<rparr>"
  have eff: "step_effect (call_job c) i w ?w" using ep by (auto simp: step_effect_def)
  show ?thesis
  proof (cases r)
    case None
    then have mv: "move_to ?w i StateEpochBumped (ans_now a) (PcFence e) = (q, w')"
      using assms(1) p(1) cr by simp
    have "local_inv (call_job c) (epoch_of (wd_db w') (call_job c)) (gget (wd_heap w') i) q \<and>
        step_effect (call_job c) i ?w w'"
      using move_step [OF mv, of p "call_job c" "PcCreate e"] p ep assms(2)
      by (auto simp: less_promotion_state_def)
    then show ?thesis using ep by (auto simp: step_effect_def)
  next
    case (Some err)
    with assms(1) p(1) cr have "q = PcDone (Inl (ErrDb err))" "w' = ?w" by auto
    with eff ep assms(2) show ?thesis by (simp add: local_inv_def)
  qed
qed

lemma assign_step:
  assumes "promote_step cfg c i a (PcAssign e, w) = (q, w')"
    and "local_inv (call_job c) (epoch_of (wd_db w) (call_job c)) (gget (wd_heap w) i) (PcAssign e)"
  shows "local_inv (call_job c) (epoch_of (wd_db w') (call_job c)) (gget (wd_heap w') i) q \<and>
    step_effect (call_job c) i w w'"
proof -
  let ?ep = "epoch_of (wd_db w) (call_job c)"
  obtain p where p: "gget (wd_heap w) i = Some p" "p_state p = StateEpochBumped" "e \<le> ?ep"
    using assms(2) by (auto simp: local_inv_def)
  obtain r db where as: "pg_assign (ans_fails a) (wd_db w) (call_job c) = (r, db)" by fastforce
  from pg_assign_cases [OF as] show ?thesis
  proof (elim disjE conjE exE)
    fix err
    assume r: "r = Inl err" and db: "db = wd_db w"
    then have "fail_with w i (ErrDb err) (ans_now a) = (q, w')" using assms(1) as by simp
    from fail_step [OF this p(1)] assms(2) p(1) show ?thesis by simp
  next
    assume r: "r = Inr (?ep + 1)"
      and db: "\<forall>j. epoch_of db j = (if j = call_job c then ?ep + 1 else epoch_of (wd_db w) j)"
    let ?p = "p\<lparr>p_new_epoch := ?ep + 1\<rparr>"
    let ?w = "w\<lparr>wd_db := db, wd_heap := gput i ?p (wd_heap w)\<rparr>"
    have mv: "move_to ?w i StateEpochWritten (ans_now a) (PcUpdateEpoch e (?ep + 1)) = (q, w')"
      using assms(1) as r p(1) by simp
    obtain p' where "q = PcUpdateEpoch e (?ep + 1)" "w' = ?w\<lparr>wd_heap := gput i p' (wd_heap ?w)\<rparr>"
      "p_state p' = StateEpochWritten" "p_job_id p' = p_job_id p" "p_new_epoch p' = ?ep + 1"
      using move_to_cases [OF mv, of ?p] p by (auto simp: less_promotion_state_def)
    then show ?thesis using assms(2) p db by (auto simp: local_inv_def step_effect_def)
  qed
qed

lemma update_epoch_unchanged:
  assumes "pg_update_epoch_exec f db job e n = (r, db')" and "e < n" and "n \<le> epoch_of db job"
  shows "db' = db \<and> r \<noteq> Inr True"
  using pg_update_epoch_cases [OF assms(1)] assms(2,3) by (auto simp: epoch_of_def)

lemma late_step:
  assumes "promote_step cfg c i a (pc, w) = (q, w')"
    and "pc \<in> {PcUpdateEpoch e n, PcUpdateCheck e n, PcRevalidate n, PcRecover n, PcFence e}"
    and "local_inv (call_job c) (epoch_of (wd_db w) (call_job c)) (gget (wd_heap w) i) pc"
  shows "local_inv (call_job c) (epoch_of (wd_db w') (call_job c)) (gget (wd_heap w') i) q \<and>
    step_effect (call_job c) i w w'"
proof -
  obtain p where p: "gget (wd_heap w) i = Some p" using assms(2,3) by (auto simp: local_inv_def)
  note inv = assms(3) [unfolded p]
  note fl = fail_step [OF _ p inv]
  note mv = move_step [OF _ p _ _ inv]
  consider (fence) "pc = PcFence e" | (update) "pc = PcUpdateEpoch e n" | (check) "pc = PcUpdateCheck e n"
    | (reval) "pc = PcRevalidate n" | (recov) "pc = PcRecover n"
    using assms(2) by auto
  then show ?thesis
  proof cases
    case fence
    show ?thesis
    proof (cases "q = PcAssign e \<and> w' = w")
      case True
      with inv fence p show ?thesis by (auto simp: local_inv_def)
    next
      case False
      then obtain err where "fail_with w i err (ans_now a) = (q, w')"
        using assms(1) fence by (auto split: if_splits option.splits)
      then show ?thesis by (rule fl)
    qed
  next
    case update
    obtain r db where u: "pg_update_epoch_exec (ans_fails a) (wd_db w) (call_job c) e n = (r, db)" by fastforce
    have "e < n" "n \<le> epoch_of (wd_db w) (call_job c)"
      using inv update by (auto simp: local_inv_def granted_def less_eq_promotion_state_def)
    then have "db = wd_db w" "r \<noteq> Inr True" using update_epoch_unchanged [OF u] by auto
    show ?thesis
    proof (cases "q = PcUpdateCheck e n \<and> w' = w")
      case True
      with inv update p show ?thesis by (auto simp: local_inv_def)
    next
      case False
      then obtain err where "fail_with w i err (ans_now a) = (q, w')"
        using assms(1) update u \<open>db = wd_db w\<close> \<open>r \<noteq> Inr True\<close> by (auto split: sum.splits bool.splits)
      then show ?thesis by (rule fl)
    qed
  next
    case check
    have st: "p_state p = StateEpochWritten" using inv check by (simp add: local_inv_def)
    show ?thesis
    proof (cases "move_to w i StateCapabilityRevalidating (ans_now a) (PcRevalidate n) = (q, w')")
      case True
      then show ?thesis by (rule mv) (simp_all add: less_promotion_state_def st granted_def less_eq_promotion_state_def)
    next
      case False
      then obtain err where "fail_with w i err (ans_now a) = (q, w')"
        using assms(1) check by (auto split: option.splits)
      then show ?thesis by (rule fl)
    qed
  next
    case reval
    have st: "p_state p = StateCapabilityRevalidating" using inv reval by (simp add: local_inv_def)
    show ?thesis
    proof (cases "move_to w i StateCapabilityConfirmed (ans_now a) (PcRecover n) = (q, w')")
      case True
      then show ?thesis by (rule mv) (simp_all add: less_promotion_state_def st granted_def less_eq_promotion_state_def)
    next
      case False
      then obtain err where "fail_with w i err (ans_now a) = (q, w')"
        using assms(1) reval by (auto split: option.splits if_splits)
      then show ?thesis by (rule fl)
    qed
  next
    case recov
    have st: "p_state p = StateCapabilityConfirmed" using inv recov by (simp add: local_inv_def)
    show ?thesis
    proof (cases "move_to w i StateFailoverComplete (ans_now a) PcSave = (q, w')")
      case True
      then show ?thesis by (rule mv) (simp_all add: less_promotion_state_def st granted_def less_eq_promotion_state_def)
    next
      case False
      then obtain err where "fail_with w i err (ans_now a) = (q, w')"
        using assms(1) recov by (auto split: option.splits if_splits)
      then show ?thesis by (rule fl)
    qed
  qed
qed

lemma promote_step_inv:
  assumes "promote_step cfg c i a (pc, w) = (q, w')"
    and "local_inv (call_job c) (epoch_of (wd_db w) (call_job c)) (gget (wd_heap w) i) pc"
  shows "local_inv (call_job c) (epoch_of (wd_db w') (call_job c)) (gget (wd_heap w') i) q \<and>
    step_effect (call_job c) i w w'"
proof -
  have final: "local_inv job ep h pc \<Longrightarrow> local_inv job ep h (PcDone r)" for job ep h r
    by (simp add: local_inv_def)
  have saved: "step_effect (call_job c) i w (save_promotion f w i)" for f
    by (auto simp: step_effect_def)
  show ?thesis
  proof (cases pc)
    case (PcTrack e)
    with assms track_step [of c w i e cfg "ans_now a"] show ?thesis by auto
  next
    case (PcCreate e)
    with assms create_step show ?thesis by blast
  next
    case (PcAssign e)
    with assms assign_step show ?thesis by blast
  next
    case PcSave
    then have "gget (wd_heap w) i \<noteq> None" using assms(2) by (auto simp: local_inv_def)
    with PcSave assms final saved show ?thesis by auto
  next
    case (PcFail err)
    with assms final saved show ?thesis by auto
  next
    case (PcDone r)
    with assms show ?thesis by auto
  qed (use assms early_step late_step in \<open>blast+\<close>)
qed

section \<open>Lemmas: the system\<close>

fun system_inv :: "promote_call list \<Rightarrow> pc list \<times> world \<Rightarrow> bool" where
  "system_inv cs (pcs, w) \<longleftrightarrow> length pcs = length cs \<and>
     (\<forall>i < length cs. local_inv (call_job (cs ! i)) (epoch_of (wd_db w) (call_job (cs ! i))) (gget (wd_heap w) i) (pcs ! i)) \<and>
     (\<forall>i j p q. i < length cs \<longrightarrow> j < length cs \<longrightarrow> i \<noteq> j \<longrightarrow> gget (wd_heap w) i = Some p \<longrightarrow> gget (wd_heap w) j = Some q \<longrightarrow>
        granted p \<longrightarrow> granted q \<longrightarrow> p_job_id p = p_job_id q \<longrightarrow> p_new_epoch p \<noteq> p_new_epoch q)"

lemma local_inv_mono: "local_inv job ep h pc \<Longrightarrow> ep \<le> ep' \<Longrightarrow> local_inv job ep' h pc"
  by (cases pc) (auto simp: local_inv_def)

lemma system_step_inv:
  assumes "system_step cfg cs st st'" and "system_inv cs st"
  shows "system_inv cs st' \<and> (\<forall>j. epoch_of (wd_db (snd st)) j \<le> epoch_of (wd_db (snd st')) j)"
  using assms(1)
proof cases
  case (system_step i a pcs w q w')
  let ?job = "\<lambda>k. call_job (cs ! k)"
  have len: "length pcs = length cs"
    and li: "\<And>k. k < length cs \<Longrightarrow> local_inv (?job k) (epoch_of (wd_db w) (?job k)) (gget (wd_heap w) k) (pcs ! k)"
    and old: "\<And>k l p p'. k < length cs \<Longrightarrow> l < length cs \<Longrightarrow> k \<noteq> l \<Longrightarrow> gget (wd_heap w) k = Some p \<Longrightarrow>
      gget (wd_heap w) l = Some p' \<Longrightarrow> granted p \<Longrightarrow> granted p' \<Longrightarrow> p_job_id p = p_job_id p' \<Longrightarrow>
      p_new_epoch p \<noteq> p_new_epoch p'"
    using assms(2) unfolding system_step(1) system_inv.simps by blast+
  have both: "local_inv (?job i) (epoch_of (wd_db w') (?job i)) (gget (wd_heap w') i) q \<and> step_effect (?job i) i w w'"
    using promote_step_inv [OF system_step(4) li [OF system_step(3)]] .
  then have frame: "\<And>j. j \<noteq> i \<Longrightarrow> gget (wd_heap w') j = gget (wd_heap w) j"
    and mono: "\<And>j. epoch_of (wd_db w) j \<le> epoch_of (wd_db w') j"
    and fresh: "\<And>p'. gget (wd_heap w') i = Some p' \<Longrightarrow> granted p' \<Longrightarrow>
      (\<exists>p. gget (wd_heap w) i = Some p \<and> granted p \<and> p_new_epoch p = p_new_epoch p') \<or>
      epoch_of (wd_db w) (?job i) < p_new_epoch p'"
    unfolding step_effect_def by blast+
  have lall: "local_inv (?job k) (epoch_of (wd_db w') (?job k)) (gget (wd_heap w') k) (pcs[i := q] ! k)"
    if k: "k < length cs" for k
  proof (cases "k = i")
    case True
    with both len system_step(3) show ?thesis by simp
  next
    case False
    then show ?thesis using local_inv_mono [OF li [OF k] mono] frame by simp
  qed
  have new: "p_new_epoch p \<noteq> p_new_epoch p'"
    if j: "j < length cs" "j \<noteq> i" "gget (wd_heap w) j = Some p" "gget (wd_heap w') i = Some p'"
      "granted p" "granted p'" "p_job_id p = p_job_id p'" for j p p'
  proof -
    have job: "p_job_id p' = ?job i" "p_job_id p = ?job j" "p_new_epoch p \<le> epoch_of (wd_db w) (?job j)"
      using both j(3-5) li [OF j(1)] unfolding local_inv_def by blast+
    from fresh [OF j(4,6)] show ?thesis
    proof
      assume "\<exists>p0. gget (wd_heap w) i = Some p0 \<and> granted p0 \<and> p_new_epoch p0 = p_new_epoch p'"
      then obtain p0 where p0: "gget (wd_heap w) i = Some p0" "granted p0" "p_new_epoch p0 = p_new_epoch p'"
        by blast
      moreover have "p_job_id p0 = ?job i" using li [OF system_step(3)] p0(1) unfolding local_inv_def by blast
      ultimately show ?thesis using old [OF j(1) system_step(3) j(2,3) p0(1) j(5) p0(2)] job j(7) by simp
    next
      assume "epoch_of (wd_db w) (?job i) < p_new_epoch p'"
      with job j(7) show ?thesis by simp
    qed
  qed
  have "p_new_epoch p \<noteq> p_new_epoch p'"
    if k: "k < length cs" "l < length cs" "k \<noteq> l" "gget (wd_heap w') k = Some p" "gget (wd_heap w') l = Some p'"
      "granted p" "granted p'" "p_job_id p = p_job_id p'" for k l p p'
  proof -
    consider "k = i" "l \<noteq> i" | "l = i" "k \<noteq> i" | "k \<noteq> i" "l \<noteq> i" using k(3) by blast
    then show ?thesis
    proof cases
      case 1
      then show ?thesis using new [of l p' p] k frame [of l] by simp
    next
      case 2
      then show ?thesis using new [of k p p'] k frame [of k] by simp
    next
      case 3
      then show ?thesis using old [of k l p p'] k frame [of k] frame [of l] by simp
    qed
  qed
  then have "system_inv cs (pcs[i := q], w')" using lall len unfolding system_inv.simps by simp
  with mono show ?thesis using system_step(1,2) by simp
qed

lemma system_reach_inv:
  assumes "(system_step cfg cs)\<^sup>*\<^sup>* st st'" and "system_inv cs st"
  shows "system_inv cs st' \<and> (\<forall>j. epoch_of (wd_db (snd st)) j \<le> epoch_of (wd_db (snd st')) j)"
  using assms(1)
proof (induction rule: rtranclp_induct)
  case base
  with assms(2) show ?case by simp
next
  case (step y z)
  then have "system_inv cs z \<and> (\<forall>j. epoch_of (wd_db (snd y)) j \<le> epoch_of (wd_db (snd z)) j)"
    using system_step_inv by blast
  with step(3) show ?case by (meson order_trans)
qed

lemma system_start_inv: "system_inv cs (system_start cs db)"
  by (simp add: system_start_def local_inv_def)

section \<open>Lemmas: one call\<close>

text \<open>How many steps a call still takes at most.\<close>

fun steps_left :: "pc \<Rightarrow> nat" where
  "steps_left PcValidate = 13"
| "steps_left PcTracked = 12"
| "steps_left PcLookup = 11"
| "steps_left PcReadEpoch = 10"
| "steps_left (PcTrack _) = 9"
| "steps_left (PcCreate _) = 8"
| "steps_left (PcFence _) = 7"
| "steps_left (PcAssign _) = 6"
| "steps_left (PcUpdateEpoch _ _) = 5"
| "steps_left (PcUpdateCheck _ _) = 4"
| "steps_left (PcRevalidate _) = 3"
| "steps_left (PcRecover _) = 2"
| "steps_left PcSave = 1"
| "steps_left (PcFail _) = 1"
| "steps_left (PcDone _) = 0"

lemma steps_left_move: "steps_left (fst (move_to w i st now nxt)) \<le> steps_left nxt"
  by (simp add: move_to_def split: option.split)

lemma steps_left_fail: "steps_left (fst (fail_with w i err now)) = 1"
  by (simp add: fail_with_def split: option.split)

lemma steps_left_step:
  assumes "0 < steps_left pc"
  shows "steps_left (fst (promote_step cfg c i a (pc, w))) < steps_left pc"
  using assms
  by (cases pc)
    (auto simp: steps_left_fail split: option.split sum.split bool.split prod.split
      intro: le_less_trans [OF steps_left_move])

lemma promote_run_done: "promote_run cfg c i as (PcDone r, w) = (PcDone r, w)"
  by (induction as) simp_all

lemma promote_run_terminates:
  "steps_left pc \<le> length as \<Longrightarrow> \<exists>r w'. promote_run cfg c i as (pc, w) = (PcDone r, w')"
proof (induction as arbitrary: pc w)
  case Nil
  then show ?case by (cases pc) simp_all
next
  case (Cons a as)
  obtain q w1 where s: "promote_step cfg c i a (pc, w) = (q, w1)" by fastforce
  have "steps_left q \<le> length as"
    using steps_left_step [of pc cfg c i a w] s Cons.prems by (cases "steps_left pc") (auto, cases pc, auto)
  with Cons.IH s show ?case by simp
qed

definition quiet :: "answer \<Rightarrow> bool" where
  "quiet a \<longleftrightarrow> \<not> ans_fails a \<and> ans_error a = None"

definition valid_call :: "promotion_config \<Rightarrow> promote_call \<Rightarrow> bool" where
  "valid_call cfg c \<longleftrightarrow> call_job c \<noteq> [] \<and> call_target c \<noteq> [] \<and> 16 \<le> length (call_key c) \<and>
     length (call_key c) \<le> 128 \<and> 0 \<le> call_expected c \<and>
     opt_all (\<lambda>is_standby. is_standby (call_target c)) (pc_topology cfg)"

lemmas transition_defs = transition_to_def less_eq_promotion_state_def Let_def

lemma promote_prefix:
  assumes "valid_call cfg c" and "list_all quiet [a1, a2, a3, a4, a5]"
    and "\<forall>r. gget (wd_tracked w) (call_manager c, call_job c) = Some r \<longrightarrow> opt_all promotion_is_complete (gget (wd_heap w) r)"
    and "gget (db_promotions (wd_db w)) (call_key c) = None" and "epoch_of (wd_db w) (call_job c) = call_expected c"
  shows "promote_run cfg c i [a1, a2, a3, a4, a5] (PcValidate, w) =
    (PcCreate (call_expected c), track_promotion cfg c i (call_expected c) (ans_now a5) w)"
proof -
  have "pg_get_epoch False (wd_db w) (call_job c) = Inr (call_expected c)"
    using assms(5) by (simp add: pg_get_epoch_def epoch_of_def split: option.splits)
  moreover have "pg_get False (wd_db w) (call_job c) (call_key c) = Inr None"
    using assms(4) by (simp add: pg_get_def)
  ultimately show ?thesis
    using assms(1-3) by (auto simp: valid_call_def quiet_def split: option.splits)
qed

lemma promote_suffix:
  assumes "list_all quiet [a1, a2, a3, a4, a5, a6, a7, a8]" and "call_job c \<noteq> []" and "pc_has_revalidator cfg"
    and "gget (wd_heap w) i = Some p" and "p_state p = StatePending" and "gget (db_promotions (wd_db w)) (p_key p) = None"
    and "epoch_of (wd_db w) (call_job c) = e" and "e + 1 < 2 ^ 63"
  shows "\<exists>p' w'. promote_run cfg c i [a1, a2, a3, a4, a5, a6, a7, a8] (PcCreate e, w) = (PcDone (Inr p'), w') \<and>
    p_state p' = StateFailoverComplete \<and> p_new_epoch p' = e + 1 \<and> p_job_id p' = p_job_id p \<and> p_key p' = p_key p \<and>
    epoch_of (wd_db w') (call_job c) = e + 1 \<and> gget (db_promotions (wd_db w')) (p_key p) = Some p'"
proof -
  have q: "\<not> ans_fails a1" "\<not> ans_fails a2" "\<not> ans_fails a3" "\<not> ans_fails a4" "\<not> ans_fails a5"
    "\<not> ans_fails a8" "ans_error a6 = None" "ans_error a7 = None"
    using assms(1) by (simp_all add: quiet_def)
  have fence: "pg_fence False db (call_job c) e = None" if "db_epochs db = db_epochs (wd_db w)" for db
    using assms(7) that by (simp add: pg_fence_def pg_get_epoch_def epoch_of_def split: option.splits)
  have assign: "pg_assign False db (call_job c) = (Inr (e + 1), db\<lparr>db_epochs := gput (call_job c) (e + 1) (db_epochs db)\<rparr>)"
    if "db_epochs db = db_epochs (wd_db w)" for db
    using assms(2,7,8) that by (auto simp: pg_assign_def epoch_of_def split: option.splits)
  show ?thesis
    using q assms(3-6)
    by (simp add: pg_create_def move_to_def transition_defs fence assign pg_update_epoch_exec_def
        pg_update_epoch_check_def save_promotion_def pg_update_def epoch_of_def)
qed

lemma promote_run_append: "promote_run cfg c i (as @ bs) st = promote_run cfg c i bs (promote_run cfg c i as st)"
  by (induction as arbitrary: st) simp_all

lemma list5_cases: "length xs = 5 \<Longrightarrow> \<exists>a b c d e. xs = [a, b, c, d, e]"
  by (auto simp: numeral_eq_Suc length_Suc_conv)

lemma list8_cases: "length xs = 8 \<Longrightarrow> \<exists>a b c d e f g h. xs = [a, b, c, d, e, f, g, h]"
  by (auto simp: numeral_eq_Suc length_Suc_conv)

lemma promote_quiet:
  assumes "valid_call cfg c" and "pc_has_revalidator cfg" and "length as = 13" and "list_all quiet as"
    and "\<forall>r. gget (wd_tracked w) (call_manager c, call_job c) = Some r \<longrightarrow> opt_all promotion_is_complete (gget (wd_heap w) r)"
    and "gget (db_promotions (wd_db w)) (call_key c) = None" and "epoch_of (wd_db w) (call_job c) = call_expected c"
    and "call_expected c < 2 ^ 63 - 1"
  shows "\<exists>p w'. promote_run cfg c i as (PcValidate, w) = (PcDone (Inr p), w') \<and>
    p_state p = StateFailoverComplete \<and> p_new_epoch p = call_expected c + 1 \<and>
    epoch_of (wd_db w') (call_job c) = call_expected c + 1 \<and>
    gget (db_promotions (wd_db w')) (call_key c) = Some p"
proof -
  obtain a1 a2 a3 a4 a5 where t: "take 5 as = [a1, a2, a3, a4, a5]" using assms(3) list5_cases [of "take 5 as"] by auto
  obtain b1 b2 b3 b4 b5 b6 b7 b8 where d: "drop 5 as = [b1, b2, b3, b4, b5, b6, b7, b8]"
    using assms(3) list8_cases [of "drop 5 as"] by auto
  have as: "as = [a1, a2, a3, a4, a5] @ [b1, b2, b3, b4, b5, b6, b7, b8]"
    using append_take_drop_id [of 5 as] unfolding t d by (rule sym)
  then have q: "list_all quiet [a1, a2, a3, a4, a5]" "list_all quiet [b1, b2, b3, b4, b5, b6, b7, b8]"
    using assms(4) by simp_all
  let ?w = "track_promotion cfg c i (call_expected c) (ans_now a5) w"
  let ?p = "new_promotion (call_job c) (pc_current_region cfg) (call_target c) (call_key c) (call_expected c) (ans_now a5)"
  have w: "gget (wd_heap ?w) i = Some ?p" "wd_db ?w = wd_db w" by (simp_all add: track_promotion_def)
  have p: "p_state ?p = StatePending" "p_key ?p = call_key c" by (simp_all add: new_promotion_def)
  have "call_job c \<noteq> []" using assms(1) by (simp add: valid_call_def)
  from promote_suffix [OF q(2) this assms(2) w(1) p(1)] assms(6-8) w p
  show ?thesis
    unfolding as promote_run_append promote_prefix [OF assms(1) q(1) assms(5-7)] by auto
qed

text \<open>The first seven steps of a call, up to the increment of the epoch, and the six from there on.\<close>

lemma promote_front:
  assumes "valid_call cfg c" and "quiet a" and "gget (wd_tracked w) (call_manager c, call_job c) = None"
    and "gget (db_promotions (wd_db w)) (call_key c) = None" and "epoch_of (wd_db w) (call_job c) = call_expected c"
  shows "\<exists>w'. promote_run cfg c i (replicate 7 a) (PcValidate, w) = (PcAssign (call_expected c), w') \<and>
    db_epochs (wd_db w') = db_epochs (wd_db w) \<and> (\<forall>j. j \<noteq> i \<longrightarrow> gget (wd_heap w') j = gget (wd_heap w) j) \<and>
    fst ` set (wd_tracked w') = insert (call_manager c, call_job c) (fst ` set (wd_tracked w)) \<and>
    fst ` set (db_promotions (wd_db w')) = insert (call_key c) (fst ` set (db_promotions (wd_db w))) \<and>
    (\<exists>p. gget (wd_heap w') i = Some p \<and> p_state p = StateEpochBumped \<and> p_job_id p = call_job c \<and>
      p_previous_epoch p = call_expected c)"
proof -
  have r: "replicate 7 a = [a, a, a, a, a] @ [a, a]" by (simp add: numeral_eq_Suc)
  have fence: "pg_fence False (d\<lparr>db_promotions := ps\<rparr>) (call_job c) (call_expected c) = None" if "d = wd_db w" for d ps
    using assms(5) that by (simp add: pg_fence_def pg_get_epoch_def epoch_of_def split: option.splits)
  have "list_all quiet [a, a, a, a, a]" using assms(2) by simp
  note promote_prefix [OF assms(1) this, of w i]
  then show ?thesis
    using assms(2-5) unfolding r promote_run_append
    by (simp add: quiet_def track_promotion_def pg_create_def new_promotion_def move_to_def transition_defs fence
        fst_set_gput)
qed

lemma promote_back:
  assumes "call_job c \<noteq> []" and "pc_has_revalidator cfg" and "quiet a" and "gget (wd_heap w) i = Some p"
    and "p_state p = StateEpochBumped" and "epoch_of (wd_db w) (call_job c) = n" and "e \<le> n" and "0 \<le> n"
    and "n + 1 < 2 ^ 63"
  shows "\<exists>p' w'. promote_run cfg c i (replicate 6 a) (PcAssign e, w) = (PcDone (Inr p'), w') \<and>
    epoch_of (wd_db w') (call_job c) = n + 1 \<and> wd_heap w' = gput i p' (wd_heap w) \<and>
    p_state p' = StateFailoverComplete \<and> p_new_epoch p' = n + 1 \<and> p_job_id p' = p_job_id p \<and>
    p_previous_epoch p' = p_previous_epoch p"
proof -
  have r: "replicate 6 a = [a, a, a, a, a, a]" by (simp add: numeral_eq_Suc)
  have assign: "pg_assign False (wd_db w) (call_job c) =
      (Inr (n + 1), (wd_db w)\<lparr>db_epochs := gput (call_job c) (n + 1) (db_epochs (wd_db w))\<rparr>)"
    using assms(1,6,8,9) by (auto simp: pg_assign_def epoch_of_def split: option.splits)
  show ?thesis
    unfolding r using assms(2-5,7)
    by (simp add: quiet_def move_to_def transition_defs assign pg_update_epoch_exec_def
        pg_update_epoch_check_def save_promotion_def pg_update_def epoch_of_def split: option.split)
qed

lemma system_run:
  assumes "i < length cs" and "length pcs = length cs" and "promote_run cfg (cs ! i) i as (pcs ! i, w) = (q, w')"
  shows "(system_step cfg cs)\<^sup>*\<^sup>* (pcs, w) (pcs[i := q], w')"
  using assms(2,3)
proof (induction as arbitrary: pcs w)
  case (Cons a as)
  obtain q1 w1 where s: "promote_step cfg (cs ! i) i a (pcs ! i, w) = (q1, w1)" by fastforce
  have "(system_step cfg cs)\<^sup>*\<^sup>* (pcs[i := q1], w1) ((pcs[i := q1])[i := q], w')"
    using Cons assms(1) s by (intro Cons.IH) simp_all
  then show ?case
    using system_step [OF assms(1) s] by (simp add: converse_rtranclp_into_rtranclp)
qed auto

section \<open>Properties\<close>

text \<open>
  C2. Any number of promotions, requested from any number of processes with any arguments, run
  concurrently over one database, any of their calls failing at any point. The epochs in the
  database never decrease, and promotions of the same job that complete have pairwise different
  epochs, none above the job's epoch in the database: no two regions are ever made owner of the
  same execution epoch.
\<close>

theorem promotion_epochs_unique:
  assumes "(system_step cfg cs)\<^sup>*\<^sup>* (system_start cs db) (pcs, w)" and "i < length cs" and "j < length cs" and "i \<noteq> j"
    and "gget (wd_heap w) i = Some p" and "gget (wd_heap w) j = Some q"
    and "p_state p = StateFailoverComplete" and "p_state q = StateFailoverComplete" and "p_job_id p = p_job_id q"
  shows "p_new_epoch p \<noteq> p_new_epoch q \<and> p_new_epoch p \<le> epoch_of (wd_db w) (p_job_id p) \<and>
    epoch_of db job \<le> epoch_of (wd_db w) job"
proof -
  note reach = system_reach_inv [OF assms(1) system_start_inv]
  have g: "granted p" "granted q" using assms(7,8) by (simp_all add: granted_def less_eq_promotion_state_def)
  have "local_inv (call_job (cs ! i)) (epoch_of (wd_db w) (call_job (cs ! i))) (Some p) (pcs ! i)"
    using reach assms(2,5) by auto
  then have "p_new_epoch p \<le> epoch_of (wd_db w) (p_job_id p)" using g by (auto simp: local_inv_def)
  moreover have "p_new_epoch p \<noteq> p_new_epoch q" using reach assms(2-6,9) g by auto
  moreover have "epoch_of db job \<le> epoch_of (wd_db w) job" using reach by (simp add: system_start_def)
  ultimately show ?thesis by blast
qed

text \<open>A concrete system: two managers promote the same job, with different keys, from epoch 0.\<close>

definition sample_pcfg :: promotion_config where
  "sample_pcfg = \<lparr>pc_current_region = ''eu'', pc_topology = None, pc_has_fencer = True,
     pc_has_revalidator = True, pc_has_recovery = True\<rparr>"

definition sample_call :: "nat \<Rightarrow> string \<Rightarrow> promote_call" where
  "sample_call m key = \<lparr>call_manager = m, call_job = ''job'', call_target = ''us'', call_key = key, call_expected = 0\<rparr>"

definition sample_calls :: "promote_call list" where
  "sample_calls = [sample_call 0 ''key-0000-0000-0000'', sample_call 1 ''key-1111-1111-1111'']"

definition sample_answer :: answer where
  "sample_answer = \<lparr>ans_fails = False, ans_now = 7, ans_error = None\<rparr>"

definition empty_db :: repl_db where
  "empty_db = \<lparr>db_epochs = [], db_promotions = [], db_progress = [], db_admissions = []\<rparr>"

text \<open>Runs the system along a schedule of call numbers.\<close>

fun run_schedule ::
  "promotion_config \<Rightarrow> promote_call list \<Rightarrow> answer \<Rightarrow> nat list \<Rightarrow> pc list \<times> world \<Rightarrow> pc list \<times> world" where
  "run_schedule cfg cs a [] st = st"
| "run_schedule cfg cs a (i # is) (pcs, w) =
     (case promote_step cfg (cs ! i) i a (pcs ! i, w) of (q, w') \<Rightarrow> run_schedule cfg cs a is (pcs[i := q], w'))"

lemma run_schedule_reach:
  assumes "list_all (\<lambda>i. i < length cs) is"
  shows "(system_step cfg cs)\<^sup>*\<^sup>* st (run_schedule cfg cs a is st)"
  using assms
proof (induction cfg cs a "is" st rule: run_schedule.induct)
  case (2 cfg cs a i "is" pcs w)
  obtain q w' where s: "promote_step cfg (cs ! i) i a (pcs ! i, w) = (q, w')" by fastforce
  have "system_step cfg cs (pcs, w) (pcs[i := q], w')"
    using 2(2) s by (intro system_step) auto
  moreover have "(system_step cfg cs)\<^sup>*\<^sup>* (pcs[i := q], w') (run_schedule cfg cs a is (pcs[i := q], w'))"
    using 2(1) [OF s [symmetric]] 2(2) by simp
  ultimately show ?case by (simp add: s)
qed simp

definition sample_schedule :: "nat list" where
  "sample_schedule = replicate 7 0 @ replicate 7 1 @ replicate 6 0 @ replicate 6 1"

definition sample_promoted :: "string \<Rightarrow> int \<Rightarrow> promotion" where
  "sample_promoted key n = \<lparr>p_id = key, p_job_id = ''job'', p_previous_region = ''eu'', p_target_region = ''us'',
     p_key = key, p_previous_epoch = 0, p_new_epoch = n, p_state = StateFailoverComplete, p_error = [],
     p_started_at = 7, p_completed_at = Some 7\<rparr>"

definition sample_world :: world where
  "sample_world =
     \<lparr>wd_db = empty_db\<lparr>db_epochs := [(''job'', 2)],
        db_promotions := [(''key-0000-0000-0000'', sample_promoted ''key-0000-0000-0000'' 1),
                          (''key-1111-1111-1111'', sample_promoted ''key-1111-1111-1111'' 2)]\<rparr>,
      wd_tracked = [((0, ''job''), 0), ((1, ''job''), 1)],
      wd_heap = [(0, sample_promoted ''key-0000-0000-0000'' 1), (1, sample_promoted ''key-1111-1111-1111'' 2)]\<rparr>"

lemma sample_schedule_run:
  "run_schedule sample_pcfg sample_calls sample_answer sample_schedule (system_start sample_calls empty_db) =
     ([PcDone (Inr (sample_promoted ''key-0000-0000-0000'' 1)), PcDone (Inr (sample_promoted ''key-1111-1111-1111'' 2))],
      sample_world)"
  by code_simp

lemma sample_reach:
  "(system_step sample_pcfg sample_calls)\<^sup>*\<^sup>* (system_start sample_calls empty_db)
     ([PcDone (Inr (sample_promoted ''key-0000-0000-0000'' 1)), PcDone (Inr (sample_promoted ''key-1111-1111-1111'' 2))],
      sample_world)"
proof -
  have "list_all (\<lambda>i. i < length sample_calls) sample_schedule" by code_simp
  from run_schedule_reach [OF this, of sample_pcfg "system_start sample_calls empty_db" sample_answer]
  show ?thesis unfolding sample_schedule_run .
qed

theorem promotion_epochs_unique_witness:
  "p_new_epoch (sample_promoted ''key-0000-0000-0000'' 1) \<noteq> p_new_epoch (sample_promoted ''key-1111-1111-1111'' 2) \<and>
   p_new_epoch (sample_promoted ''key-0000-0000-0000'' 1) \<le> epoch_of (wd_db sample_world) ''job'' \<and>
   epoch_of empty_db ''job'' \<le> epoch_of (wd_db sample_world) ''job''"
proof -
  have "p_job_id (sample_promoted ''key-0000-0000-0000'' 1) = ''job''" by (simp add: sample_promoted_def)
  with promotion_epochs_unique [OF sample_reach, of 0 1 "sample_promoted ''key-0000-0000-0000'' 1"
      "sample_promoted ''key-1111-1111-1111'' 2" "''job''"]
  show ?thesis by (simp add: sample_calls_def sample_world_def sample_promoted_def)
qed

text \<open>Calls that may start together: valid ones for one job and one epoch, from different managers, with new keys.\<close>

definition rival_calls :: "promotion_config \<Rightarrow> repl_db \<Rightarrow> string \<Rightarrow> int \<Rightarrow> promote_call list \<Rightarrow> bool" where
  "rival_calls cfg db job e cs \<longleftrightarrow>
     list_all (\<lambda>c. valid_call cfg c \<and> call_job c = job \<and> call_expected c = e \<and> gget (db_promotions db) (call_key c) = None) cs \<and>
     distinct (map call_manager cs) \<and> distinct (map call_key cs) \<and> epoch_of db job = e"

lemma nth_not_in_take: "distinct (map f xs) \<Longrightarrow> k < length xs \<Longrightarrow> f (xs ! k) \<notin> f ` set (take k xs)"
  by (auto simp: distinct_conv_nth in_set_conv_nth)

lemma rivals_front:
  assumes "rival_calls cfg db job e cs" and "k \<le> length cs"
  shows "\<exists>pcs w. (system_step cfg cs)\<^sup>*\<^sup>* (system_start cs db) (pcs, w) \<and>
    pcs = replicate k (PcAssign e) @ replicate (length cs - k) PcValidate \<and> db_epochs (wd_db w) = db_epochs db \<and>
    fst ` set (wd_tracked w) = (\<lambda>c. (call_manager c, job)) ` set (take k cs) \<and>
    fst ` set (db_promotions (wd_db w)) = call_key ` set (take k cs) \<union> fst ` set (db_promotions db) \<and>
    (\<forall>i < k. \<exists>p. gget (wd_heap w) i = Some p \<and> p_state p = StateEpochBumped \<and> p_job_id p = job \<and> p_previous_epoch p = e)"
  using assms(2)
proof (induction k)
  case 0
  show ?case
    by (rule exI [of _ "replicate (length cs) PcValidate"], rule exI [of _ "\<lparr>wd_db = db, wd_tracked = [], wd_heap = []\<rparr>"])
      (simp add: system_start_def)
next
  case (Suc k)
  then obtain pcs w where reach: "(system_step cfg cs)\<^sup>*\<^sup>* (system_start cs db) (pcs, w)"
    and pcs: "pcs = replicate k (PcAssign e) @ replicate (length cs - k) PcValidate"
    and w: "db_epochs (wd_db w) = db_epochs db" "fst ` set (wd_tracked w) = (\<lambda>c. (call_manager c, job)) ` set (take k cs)"
      "fst ` set (db_promotions (wd_db w)) = call_key ` set (take k cs) \<union> fst ` set (db_promotions db)"
      "\<forall>i < k. \<exists>p. gget (wd_heap w) i = Some p \<and> p_state p = StateEpochBumped \<and> p_job_id p = job \<and> p_previous_epoch p = e"
    by auto
  let ?c = "cs ! k"
  have c: "valid_call cfg ?c" "call_job ?c = job" "call_expected ?c = e" "call_key ?c \<notin> fst ` set (db_promotions db)"
    "epoch_of db job = e"
    using assms(1) Suc.prems by (auto simp: rival_calls_def list_all_length map_of_eq_None_iff)
  have fresh: "call_manager ?c \<notin> call_manager ` set (take k cs)" "call_key ?c \<notin> call_key ` set (take k cs)"
    using assms(1) Suc.prems nth_not_in_take [of call_manager cs k] nth_not_in_take [of call_key cs k]
    by (simp_all add: rival_calls_def)
  have q: "quiet sample_answer" by (simp add: quiet_def sample_answer_def)
  have tracked: "gget (wd_tracked w) (call_manager ?c, call_job ?c) = None"
    using w(2) fresh(1) c(2) by (auto simp: map_of_eq_None_iff image_iff)
  have key: "gget (db_promotions (wd_db w)) (call_key ?c) = None"
    using w(3) fresh(2) c(4) by (simp add: map_of_eq_None_iff)
  have "epoch_of (wd_db w) (call_job ?c) = call_expected ?c" using c w(1) by (simp add: epoch_of_def)
  from promote_front [OF c(1) q tracked key this, of k, unfolded c(2,3)] obtain p w'
    where run: "promote_run cfg ?c k (replicate 7 sample_answer) (PcValidate, w) = (PcAssign e, w')"
    and w': "db_epochs (wd_db w') = db_epochs (wd_db w)" "\<forall>j. j \<noteq> k \<longrightarrow> gget (wd_heap w') j = gget (wd_heap w) j"
      "gget (wd_heap w') k = Some p"
      "fst ` set (wd_tracked w') = insert (call_manager ?c, job) (fst ` set (wd_tracked w))"
      "fst ` set (db_promotions (wd_db w')) = insert (call_key ?c) (fst ` set (db_promotions (wd_db w)))"
      "p_state p = StateEpochBumped" "p_job_id p = job" "p_previous_epoch p = e"
    by blast
  have "pcs ! k = PcValidate" "length pcs = length cs" using pcs Suc.prems by (simp_all add: nth_append)
  with system_run [of k cs pcs cfg "replicate 7 sample_answer" w "PcAssign e" w'] run Suc.prems reach
  have "(system_step cfg cs)\<^sup>*\<^sup>* (system_start cs db) (pcs[k := PcAssign e], w')" by simp
  moreover have "pcs[k := PcAssign e] = replicate (Suc k) (PcAssign e) @ replicate (length cs - Suc k) PcValidate"
    using pcs Suc.prems by (simp add: list_update_append Suc_diff_Suc [symmetric] replicate_app_Cons_same)
  ultimately show ?case
    using w w' Suc.prems by (intro exI [of _ "pcs[k := PcAssign e]"] exI [of _ w']) (auto simp: take_Suc_conv_app_nth less_Suc_eq)
qed

lemma rivals_back:
  assumes "rival_calls cfg db job e cs" and "pc_has_revalidator cfg" and "0 \<le> e" and "e + int (length cs) < 2 ^ 63"
    and "k \<le> length cs"
  shows "\<exists>pcs w. (system_step cfg cs)\<^sup>*\<^sup>* (system_start cs db) (pcs, w) \<and> length pcs = length cs \<and>
    epoch_of (wd_db w) job = e + int k \<and>
    (\<forall>i < length cs. \<exists>p. gget (wd_heap w) i = Some p \<and> p_job_id p = job \<and> p_previous_epoch p = e \<and>
      (if i < k then pcs ! i = PcDone (Inr p) \<and> p_state p = StateFailoverComplete \<and> p_new_epoch p = e + int i + 1
       else pcs ! i = PcAssign e \<and> p_state p = StateEpochBumped))"
  using assms(5)
proof (induction k)
  case 0
  obtain pcs w where "(system_step cfg cs)\<^sup>*\<^sup>* (system_start cs db) (pcs, w)" "pcs = replicate (length cs) (PcAssign e)"
    "db_epochs (wd_db w) = db_epochs db"
    "\<forall>i < length cs. \<exists>p. gget (wd_heap w) i = Some p \<and> p_state p = StateEpochBumped \<and> p_job_id p = job \<and> p_previous_epoch p = e"
    using rivals_front [OF assms(1) order_refl] by auto
  then show ?case
    using assms(1) by (intro exI [of _ pcs] exI [of _ w]) (auto simp: rival_calls_def epoch_of_def)
next
  case (Suc k)
  then obtain pcs w where reach: "(system_step cfg cs)\<^sup>*\<^sup>* (system_start cs db) (pcs, w)" and l: "length pcs = length cs"
    and ep: "epoch_of (wd_db w) job = e + int k"
    and each: "\<And>i. i < length cs \<Longrightarrow> \<exists>p. gget (wd_heap w) i = Some p \<and> p_job_id p = job \<and> p_previous_epoch p = e \<and>
      (if i < k then pcs ! i = PcDone (Inr p) \<and> p_state p = StateFailoverComplete \<and> p_new_epoch p = e + int i + 1
       else pcs ! i = PcAssign e \<and> p_state p = StateEpochBumped)"
    by auto
  have k: "k < length cs" using Suc.prems by simp
  then obtain p where p: "gget (wd_heap w) k = Some p" "p_job_id p = job" "p_previous_epoch p = e" "pcs ! k = PcAssign e"
      "p_state p = StateEpochBumped"
    using each [OF k] by auto
  have c: "call_job (cs ! k) = job" "job \<noteq> []"
    using assms(1) k by (auto simp: rival_calls_def list_all_length valid_call_def)
  have q: "quiet sample_answer" by (simp add: quiet_def sample_answer_def)
  have "e \<le> e + int k" "0 \<le> e + int k" "e + int k + 1 < 2 ^ 63" using assms(3,4) k by linarith+
  then obtain p' w' where run: "promote_run cfg (cs ! k) k (replicate 6 sample_answer) (pcs ! k, w) = (PcDone (Inr p'), w')"
    and w': "epoch_of (wd_db w') job = e + int k + 1" "wd_heap w' = gput k p' (wd_heap w)"
      "p_state p' = StateFailoverComplete" "p_new_epoch p' = e + int k + 1" "p_job_id p' = job" "p_previous_epoch p' = e"
    using promote_back [of "cs ! k" cfg sample_answer w k p "e + int k" e] c assms(2) q p ep by auto
  note rtranclp_trans [OF reach system_run [OF k l run]]
  moreover have "\<exists>p. gget (wd_heap w') i = Some p \<and> p_job_id p = job \<and> p_previous_epoch p = e \<and>
      (if i < Suc k then pcs[k := PcDone (Inr p')] ! i = PcDone (Inr p) \<and> p_state p = StateFailoverComplete \<and>
         p_new_epoch p = e + int i + 1
       else pcs[k := PcDone (Inr p')] ! i = PcAssign e \<and> p_state p = StateEpochBumped)" if i: "i < length cs" for i
    using each [OF i] w' l i by (cases "i = k") (auto simp: less_Suc_eq)
  ultimately show ?case
    using l w'(1) by (intro exI [of _ "pcs[k := PcDone (Inr p')]"] exI [of _ w']) simp
qed

text \<open>
  C37. The check of the expected version does not exclude concurrent promotions. Let any number of
  managers promote the same job with the same expected epoch, which is its epoch in the database,
  each with a key of its own, in any configuration with a revalidator. Then there is a run of the
  system in which every one of them completes: the first moves the job from epoch \<open>e\<close> to \<open>e + 1\<close>, the
  next takes it over with \<open>e + 2\<close>, and so on, each one reporting that it was promoted from \<open>e\<close>.
  \<open>Assign\<close> increments whatever epoch it finds, and \<open>UpdateEpoch\<close> accepts the row because \<open>Assign\<close> has
  already written it.
\<close>

theorem promotion_version_check_races:
  assumes "rival_calls cfg db job e cs" and "pc_has_revalidator cfg" and "0 \<le> e" and "e + int (length cs) < 2 ^ 63"
  shows "\<exists>pcs w. (system_step cfg cs)\<^sup>*\<^sup>* (system_start cs db) (pcs, w) \<and> epoch_of (wd_db w) job = e + int (length cs) \<and>
    (\<forall>i < length cs. \<exists>p. pcs ! i = PcDone (Inr p) \<and> p_job_id p = job \<and> p_state p = StateFailoverComplete \<and>
      p_previous_epoch p = e \<and> p_new_epoch p = e + int i + 1)"
  using rivals_back [OF assms order_refl] by fastforce

theorem promotion_version_check_races_witness:
  "\<exists>pcs w. (system_step sample_pcfg sample_calls)\<^sup>*\<^sup>* (system_start sample_calls empty_db) (pcs, w) \<and>
    epoch_of (wd_db w) ''job'' = 2 \<and>
    (\<forall>i < length sample_calls. \<exists>p. pcs ! i = PcDone (Inr p) \<and> p_job_id p = ''job'' \<and> p_state p = StateFailoverComplete \<and>
      p_previous_epoch p = 0 \<and> p_new_epoch p = int i + 1)"
proof -
  have "rival_calls sample_pcfg empty_db ''job'' 0 sample_calls" "pc_has_revalidator sample_pcfg" by code_simp+
  moreover have "int (length sample_calls) = 2" by (simp add: sample_calls_def)
  ultimately show ?thesis
    using promotion_version_check_races [of sample_pcfg empty_db "''job''" 0 sample_calls] by simp
qed

text \<open>
  C30. A promotion that runs alone succeeds: for a valid request on a standby target, an unused
  idempotency key, the right expected epoch and no failing call, \<open>Promote\<close> completes, the job's
  epoch in the database goes up by exactly one, and the stored record is the completed promotion
  with that epoch.
\<close>

theorem promotion_alone_completes:
  assumes "valid_call cfg c" and "pc_has_revalidator cfg" and "length as = 13" and "list_all quiet as"
    and "\<forall>r. gget (wd_tracked w) (call_manager c, call_job c) = Some r \<longrightarrow>
      opt_all promotion_is_complete (gget (wd_heap w) r)"
    and "gget (db_promotions (wd_db w)) (call_key c) = None" and "epoch_of (wd_db w) (call_job c) = call_expected c"
    and "call_expected c < 2 ^ 63 - 1"
  shows "\<exists>p w'. promote_run cfg c i as (PcValidate, w) = (PcDone (Inr p), w') \<and>
    p_state p = StateFailoverComplete \<and> p_new_epoch p = call_expected c + 1 \<and>
    epoch_of (wd_db w') (call_job c) = call_expected c + 1 \<and>
    gget (db_promotions (wd_db w')) (call_key c) = Some p"
  using assms by (rule promote_quiet)

definition sample_next_call :: promote_call where
  "sample_next_call = (sample_call 0 ''key-2222-2222-2222'')\<lparr>call_expected := 2\<rparr>"

theorem promotion_alone_completes_witness:
  "\<exists>p w'. promote_run sample_pcfg sample_next_call 2 (replicate 13 sample_answer) (PcValidate, sample_world) =
      (PcDone (Inr p), w') \<and> p_state p = StateFailoverComplete \<and> p_new_epoch p = call_expected sample_next_call + 1 \<and>
    epoch_of (wd_db w') (call_job sample_next_call) = call_expected sample_next_call + 1 \<and>
    gget (db_promotions (wd_db w')) (call_key sample_next_call) = Some p"
proof (rule promotion_alone_completes)
  show "valid_call sample_pcfg sample_next_call" "pc_has_revalidator sample_pcfg"
    "list_all quiet (replicate 13 sample_answer)" "epoch_of (wd_db sample_world) (call_job sample_next_call) = call_expected sample_next_call"
    "gget (db_promotions (wd_db sample_world)) (call_key sample_next_call) = None"
    "call_expected sample_next_call < 2 ^ 63 - 1"
    by code_simp+
  show "length (replicate 13 sample_answer) = 13" by simp
  show "\<forall>r. gget (wd_tracked sample_world) (call_manager sample_next_call, call_job sample_next_call) = Some r \<longrightarrow>
      opt_all promotion_is_complete (gget (wd_heap sample_world) r)"
    by (simp add: sample_world_def sample_next_call_def sample_call_def promotion_is_complete_def sample_promoted_def)
qed

text \<open>
  A database error while the promotion record is created blocks the job: the promotion stays
  tracked as pending, and from then on the same manager refuses every promotion of that job, under
  any key and any answers, with "already in progress".
\<close>

lemma failed_create_blocks_job:
  assumes "promote_step cfg c i a (PcTrack e, w) = (PcCreate e, w1)" and "ans_fails b"
    and "promote_step cfg c i b (PcCreate e, w1) = (q, w2)"
    and "valid_call cfg d" and "call_manager d = call_manager c" and "call_job d = call_job c"
  shows "q = PcDone (Inl (ErrDb DbFailed)) \<and>
    promote_run cfg d k [a1, a2] (PcValidate, w2) = (PcDone (Inl ErrAlreadyPromoting), w2)"
proof -
  have w1: "w1 = track_promotion cfg c i e (ans_now a) w" using assms(1) by simp
  let ?p = "new_promotion (call_job c) (pc_current_region cfg) (call_target c) (call_key c) e (ans_now a)"
  have h: "gget (wd_heap w1) i = Some ?p" "gget (wd_tracked w1) (call_manager c, call_job c) = Some i"
    by (simp_all add: w1 track_promotion_def)
  then have "q = PcDone (Inl (ErrDb DbFailed))" "w2 = w1"
    using assms(2,3) by (auto simp: pg_create_def)
  moreover have "\<not> promotion_is_complete ?p" by (simp add: promotion_is_complete_def new_promotion_def)
  ultimately show ?thesis using h assms(4-6) by (auto simp: valid_call_def)
qed

lemma failed_create_blocks_job_witness:
  "\<exists>w2. promote_run sample_pcfg sample_next_call 3 [sample_answer, sample_answer] (PcValidate, w2) =
     (PcDone (Inl ErrAlreadyPromoting), w2)"
proof -
  let ?c = "sample_next_call" and ?w = "sample_world"
  let ?w1 = "track_promotion sample_pcfg ?c 2 2 7 ?w"
  have "promote_step sample_pcfg ?c 2 sample_answer (PcTrack 2, ?w) = (PcCreate 2, ?w1)"
    by (simp add: sample_answer_def)
  moreover have "ans_fails (sample_answer\<lparr>ans_fails := True\<rparr>)" by simp
  moreover obtain q w2 where "promote_step sample_pcfg ?c 2 (sample_answer\<lparr>ans_fails := True\<rparr>) (PcCreate 2, ?w1) = (q, w2)"
    by fastforce
  moreover have "valid_call sample_pcfg ?c" by code_simp
  ultimately show ?thesis using failed_create_blocks_job by blast
qed

end
