(* ===== verification/Publisher.thy ===== *)
theory Publisher
  imports WalLog Promotion
begin

text \<open>
  The checkpoint publisher (\<open>replication/checkpoint/publisher.go\<close>): it appends a completed
  checkpoint to the log if its epoch is the job's current one. \<open>publish_admit\<close> reads the database,
  the append works on the writer and its store; the two are separate steps of the code, so the
  database of the first and the writer of the second are separate arguments.
\<close>

record checkpoint_record =
  cr_job_id :: string
  cr_epoch :: int
  cr_checkpoint_uri :: string
  cr_completed_at :: instant

datatype publish_error =
    ErrInvalidRecord
  | ErrPublishCanceled
  | ErrReadEpoch pg_error
  | ErrEpochFenced int
  | ErrAppendWal wal_error

definition publish_admit :: "bool \<Rightarrow> bool \<Rightarrow> repl_db \<Rightarrow> checkpoint_record \<Rightarrow> publish_error option" where
  "publish_admit canceled fails db r =
     (if blank (cr_job_id r) \<or> blank (cr_checkpoint_uri r) \<or> cr_epoch r < 0 then Some ErrInvalidRecord
      else if canceled then Some ErrPublishCanceled
      else case pg_get_epoch fails db (cr_job_id r) of
        Inl e \<Rightarrow> Some (ErrReadEpoch e)
      | Inr current \<Rightarrow> if current \<noteq> cr_epoch r then Some (ErrEpochFenced current) else None)"

definition record_entry :: "checkpoint_record \<Rightarrow> entry" where
  "record_entry r = \<lparr>e_sequence = 0, e_region = [], e_epoch = cr_epoch r, e_checkpoint_uri = cr_checkpoint_uri r,
     e_job_id = cr_job_id r, e_timestamp = cr_completed_at r, e_crc32c = 0\<rparr>"

definition publish ::
  "('s \<Rightarrow> string \<Rightarrow> string \<Rightarrow> 'e option \<times> 's) \<Rightarrow> bool \<Rightarrow> bool \<Rightarrow> repl_db \<Rightarrow> writer \<Rightarrow> 's \<Rightarrow> checkpoint_record \<Rightarrow>
     instant \<Rightarrow> (publish_error + entry) \<times> writer \<times> 's" where
  [effect_defs]: "publish put canceled fails db w s r now =
     (case publish_admit canceled fails db r of
        Some e \<Rightarrow> (Inl e, w, s)
      | None \<Rightarrow>
         (case wal_append put w s (record_entry r) True now of
            (Some e, _, w', s') \<Rightarrow> (Inl (ErrAppendWal e), w', s')
          | (None, e, w', s') \<Rightarrow> (Inr e, w', s')))"

lemma publish_admit_epoch:
  "publish_admit canceled fails db r = None \<Longrightarrow> cr_epoch r = epoch_of db (cr_job_id r)"
  by (auto simp: publish_admit_def split: if_splits sum.splits dest: pg_get_epoch_Inr)

lemma publish_fenced:
  assumes "cr_epoch r \<noteq> epoch_of db (cr_job_id r)"
  shows "\<exists>e. publish put canceled fails db w s r now = (Inl e, w, s)"
  using assms publish_admit_epoch [of canceled fails db r] by (auto simp: publish_def split: option.splits)

text \<open>What a successful publish logged: the record under the next sequence number.\<close>

lemma publish_Inr:
  assumes "publish put canceled fails db w s r now = (Inr e, w', s')"
  shows "publish_admit canceled fails db r = None"
    and "wal_append put w s (record_entry r) True now = (None, e, w', s')"
  using assms by (auto simp: publish_def split: option.splits prod.splits)

lemma wal_append_entry:
  assumes "wal_append put w s e0 durable now = (None, e, w', s')"
  shows "e_job_id e = e_job_id e0" "e_epoch e = e_epoch e0" "e_checkpoint_uri e = e_checkpoint_uri e0"
    "e_sequence e = wrap64 (w_sequence w + 1)" "e_timestamp e = now" "e_region e = cfg_region (w_cfg w)"
  using assms
  by (auto simp: wal_append_def prepare_entry_def marshal_binary_def Let_def split: if_splits sum.splits prod.splits)

end
