(* ===== verification/Recovery.thy ===== *)
theory Recovery
  imports WalLog
begin

text \<open>
  Checkpoint recovery: the recovery manager (\<open>replication/recovery/recovery.go\<close>) with its state
  machine, and the deployment's implementations of its interfaces in
  \<open>replication/adapters/adapters.go\<close>: the log reader, the validator and the restorer. What the
  manager gets injected is a record of functions; the decoder of JSON manifests is a parameter.
  The result of a recovery has the trace of its audit events and of its calls of the restorer.
\<close>

section \<open>Data\<close>

record checkpoint_file =
  cf_name :: string
  cf_uri :: string
  cf_size :: int
  cf_crc32c :: "32 word"

record manifest =
  mf_job_id :: string
  mf_epoch :: int
  mf_sequence :: int
  mf_checkpoint_uri :: string
  mf_files :: "checkpoint_file list"
  mf_created_at :: instant
  mf_crc32c :: "32 word"

datatype recovery_error =
    ErrCheckpointNotFound
  | ErrCheckpointNotReplicated string
  | ErrCheckpointCorrupted string
  | ErrCheckpointEpochMismatch int int
  | ErrCheckpointSeqMismatch
  | ErrRecoveryAborted string
  | ErrRecoveryTransition
  | ErrWrapped string recovery_error
  | ErrCall string
  | ErrWal wal_error

definition detail :: "string \<Rightarrow> string" where
  "detail s = (if s = [] then [] else '': '' @ s)"

text \<open>\<open>Error()\<close>; the texts of the log's errors do not matter here.\<close>

fun recovery_text :: "recovery_error \<Rightarrow> string" where
  "recovery_text ErrCheckpointNotFound = ''recovery: checkpoint not found''"
| "recovery_text (ErrCheckpointNotReplicated s) = ''recovery: checkpoint not replicated to secondary'' @ detail s"
| "recovery_text (ErrCheckpointCorrupted s) = ''recovery: checkpoint data corrupted'' @ detail s"
| "recovery_text (ErrCheckpointEpochMismatch got want) =
     ''recovery: checkpoint epoch is newer than target epoch: got '' @ dec_int got @ '', target '' @ dec_int want"
| "recovery_text ErrCheckpointSeqMismatch = ''recovery: checkpoint sequence mismatch''"
| "recovery_text (ErrRecoveryAborted s) = ''recovery: recovery aborted'' @ detail s"
| "recovery_text ErrRecoveryTransition = ''cannot transition''"
| "recovery_text (ErrWrapped s e) = s @ '': '' @ recovery_text e"
| "recovery_text (ErrCall s) = s"
| "recovery_text (ErrWal e) = ''wal''"

datatype recovery_state =
    StateRecoveryPending | StateCheckpointLocated | StateCheckpointValidated | StateFilesDownloading
  | StateFilesDownloaded | StateRestoring | StateRecoveryComplete | StateRecoveryFailed

fun recovery_rank :: "recovery_state \<Rightarrow> nat" where
  "recovery_rank StateRecoveryPending = 0"
| "recovery_rank StateCheckpointLocated = 1"
| "recovery_rank StateCheckpointValidated = 2"
| "recovery_rank StateFilesDownloading = 3"
| "recovery_rank StateFilesDownloaded = 4"
| "recovery_rank StateRestoring = 5"
| "recovery_rank StateRecoveryComplete = 6"
| "recovery_rank StateRecoveryFailed = 7"

instantiation recovery_state :: linorder
begin

definition less_eq_recovery_state :: "recovery_state \<Rightarrow> recovery_state \<Rightarrow> bool" where
  "less_eq_recovery_state a b \<longleftrightarrow> recovery_rank a \<le> recovery_rank b"

definition less_recovery_state :: "recovery_state \<Rightarrow> recovery_state \<Rightarrow> bool" where
  "less_recovery_state a b \<longleftrightarrow> recovery_rank a < recovery_rank b"

instance
proof
  fix a b :: recovery_state
  assume "a \<le> b" and "b \<le> a"
  then show "a = b" by (cases a; cases b) (simp_all add: less_eq_recovery_state_def)
qed (auto simp: less_eq_recovery_state_def less_recovery_state_def)

end

record recovery =
  rv_job_id :: string
  rv_new_epoch :: int
  rv_checkpoint :: "manifest option"
  rv_state :: recovery_state
  rv_error :: string
  rv_started_at :: instant
  rv_completed_at :: "instant option"

definition new_recovery :: "string \<Rightarrow> int \<Rightarrow> instant \<Rightarrow> recovery" where
  "new_recovery job ep now =
     \<lparr>rv_job_id = job, rv_new_epoch = ep, rv_checkpoint = None, rv_state = StateRecoveryPending,
      rv_error = [], rv_started_at = now, rv_completed_at = None\<rparr>"

definition recovery_transition :: "recovery \<Rightarrow> recovery_state \<Rightarrow> string \<Rightarrow> instant \<Rightarrow> recovery option" where
  "recovery_transition r st msg now =
     (if rv_state r = StateRecoveryFailed \<or> st \<le> rv_state r then None
      else Some (r\<lparr>rv_state := st, rv_error := (if msg \<noteq> [] then msg else rv_error r),
                   rv_completed_at := (if st = StateRecoveryComplete \<or> st = StateRecoveryFailed
                                       then Some now else rv_completed_at r)\<rparr>))"

definition recovery_is_complete :: "recovery \<Rightarrow> bool" where
  "recovery_is_complete r \<longleftrightarrow> rv_state r = StateRecoveryComplete \<or> rv_state r = StateRecoveryFailed"

definition recovery_is_failed :: "recovery \<Rightarrow> bool" where
  "recovery_is_failed r \<longleftrightarrow> rv_state r = StateRecoveryFailed"

section \<open>The manager\<close>

text \<open>
  The injected components. The answers of the reader, the object store, the validator and the
  restorer include what they return when their deadline passes. The object store answers by the key
  alone: an object does not change while a recovery reads it.
\<close>

record recovery_deps =
  dep_latest :: "(recovery_error + manifest option) option"
  dep_get :: "(string \<Rightarrow> string + string) option"
  dep_parse :: "(string \<Rightarrow> string + manifest option) option"
  dep_validate :: "(manifest \<Rightarrow> recovery_error option) option"
  dep_restore :: "(manifest \<Rightarrow> recovery_error option) option"
  dep_auditor :: bool

datatype recovery_event =
    AuditStarted
  | AuditLocated string
  | AuditValidated
  | AuditComplete duration
  | AuditFailed string
  | CallRestore manifest

definition audit :: "recovery_deps \<Rightarrow> recovery_event \<Rightarrow> recovery_event list" where
  "audit d e = (if dep_auditor d then [e] else [])"

definition download_file :: "(string \<Rightarrow> string + string) \<Rightarrow> checkpoint_file \<Rightarrow> recovery_error option" where
  "download_file get f =
     (if blank (cf_uri f) then Some (ErrCheckpointCorrupted [])
      else case get (cf_uri f) of
        Inl e \<Rightarrow> Some (ErrWrapped ''get object'' (ErrCall e))
      | Inr data \<Rightarrow>
          if cf_size f \<ge> 0 \<and> int (length data) \<noteq> cf_size f then Some (ErrCheckpointCorrupted (''file '' @ cf_name f @ '' size got '' @ dec_int (int (length data)) @
                 '' want '' @ dec_int (cf_size f)))
          else if cf_crc32c f \<noteq> 0 \<and> crc32c data \<noteq> cf_crc32c f then Some (ErrCheckpointCorrupted (''file '' @ cf_name f @ '' checksum mismatch''))
          else None)"

fun download_files :: "(string \<Rightarrow> string + string) \<Rightarrow> checkpoint_file list \<Rightarrow> recovery_error option" where
  "download_files get [] = None"
| "download_files get (f # fs) =
     (case download_file get f of
        Some e \<Rightarrow> Some (ErrWrapped (''download file '' @ cf_name f) e)
      | None \<Rightarrow> download_files get fs)"

text \<open>
  The first step of \<open>Recover\<close>: the manifest to restore, or the error together with the checkpoint
  the recovery has recorded by then.
\<close>

definition locate_checkpoint ::
  "recovery_deps \<Rightarrow> (recovery_error + manifest option) \<Rightarrow> (string \<Rightarrow> string + string) \<Rightarrow> string \<Rightarrow> int \<Rightarrow>
     (recovery_error \<times> manifest option) + manifest" where
  "locate_checkpoint d latest get job ep =
     (case latest of
        Inl e \<Rightarrow> Inl (ErrWrapped ''get latest checkpoint'' e, None)
      | Inr None \<Rightarrow> Inl (ErrCheckpointNotFound, None)
      | Inr (Some m) \<Rightarrow>
          if mf_epoch m > ep then Inl (ErrCheckpointEpochMismatch (mf_epoch m) ep, Some m)
          else if mf_job_id m \<noteq> job \<or> blank (mf_checkpoint_uri m)
          then Inl (ErrCheckpointNotReplicated ''manifest does not belong to requested job'', Some m)
          else if mf_sequence m \<le> 0 then Inl (ErrCheckpointSeqMismatch, Some m)
          else case dep_parse d of
            None \<Rightarrow> Inr m
          | Some parse \<Rightarrow>
             (case get (mf_checkpoint_uri m) of
                Inl e \<Rightarrow> Inl (ErrCheckpointNotReplicated (''fetch manifest: '' @ e), Some m)
              | Inr data \<Rightarrow>
                 (case parse data of
                    Inl e \<Rightarrow> Inl (ErrCheckpointCorrupted (''parse manifest: '' @ e), Some m)
                  | Inr None \<Rightarrow> Inl (ErrCheckpointCorrupted [], Some m)
                  | Inr (Some p) \<Rightarrow>
                      if mf_job_id p \<noteq> job \<or> mf_sequence p \<noteq> mf_sequence m \<or> mf_epoch p \<noteq> mf_epoch m
                      then Inl (ErrCheckpointCorrupted [], Some m)
                      else Inr p)))"

type_synonym recover_result = "(recovery option \<times> recovery_error option) \<times> recovery_event list"

text \<open>The closure \<open>fail\<close>: the transition's own error is ignored.\<close>

definition recover_fail ::
  "recovery_deps \<Rightarrow> recovery \<Rightarrow> recovery_error \<Rightarrow> instant \<Rightarrow> recovery_event list \<Rightarrow> recover_result" where
  "recover_fail d r e now log =
     (let r' = (case recovery_transition r StateRecoveryFailed (recovery_text e) now of None \<Rightarrow> r | Some r' \<Rightarrow> r')
      in ((Some r', Some e), log @ audit d (AuditFailed (rv_error r'))))"

text \<open>A transition of the normal course; its failure ends \<open>Recover\<close> without a recovery.\<close>

definition recover_move ::
  "recovery \<Rightarrow> recovery_state \<Rightarrow> instant \<Rightarrow> recovery_event list \<Rightarrow> (recovery \<Rightarrow> recover_result) \<Rightarrow> recover_result" where
  "recover_move r st now log k =
     (case recovery_transition r st [] now of None \<Rightarrow> ((None, Some ErrRecoveryTransition), log) | Some r' \<Rightarrow> k r')"

text \<open>Steps 4 and 5: restore and complete.\<close>

definition recover_restore ::
  "recovery_deps \<Rightarrow> (manifest \<Rightarrow> recovery_error option) \<Rightarrow> manifest \<Rightarrow> recovery \<Rightarrow> instant \<Rightarrow> recovery_event list \<Rightarrow> recover_result" where
  "recover_restore d restore m r now log =
     recover_move r StateRestoring now log (\<lambda>r.
       case restore m of
         Some e \<Rightarrow> recover_fail d r (ErrWrapped ''restore state'' e) now (log @ [CallRestore m])
       | None \<Rightarrow>
           recover_move r StateRecoveryComplete now (log @ [CallRestore m]) (\<lambda>r.
             ((Some r, None), (log @ [CallRestore m]) @ audit d (AuditComplete (now - rv_started_at r)))))"

text \<open>Steps 2 and 3: validate and download.\<close>

definition recover_checkpoint ::
  "recovery_deps \<Rightarrow> (string \<Rightarrow> string + string) \<Rightarrow> (manifest \<Rightarrow> recovery_error option) \<Rightarrow>
     (manifest \<Rightarrow> recovery_error option) \<Rightarrow> manifest \<Rightarrow> recovery \<Rightarrow> instant \<Rightarrow> recovery_event list \<Rightarrow> recover_result" where
  "recover_checkpoint d get validate restore m r now log =
     recover_move r StateCheckpointValidated now log (\<lambda>r.
       case validate m of
         Some e \<Rightarrow> recover_fail d r (ErrWrapped ''validate checkpoint'' e) now log
       | None \<Rightarrow>
          (let log2 = log @ audit d AuditValidated in
           recover_move r StateFilesDownloading now log2 (\<lambda>r.
             case download_files get (mf_files m) of
               Some e \<Rightarrow> recover_fail d r e now log2
             | None \<Rightarrow> recover_move r StateFilesDownloaded now log2 (\<lambda>r. recover_restore d restore m r now log2))))"

definition recover :: "recovery_deps \<Rightarrow> string \<Rightarrow> int \<Rightarrow> instant \<Rightarrow> instant \<Rightarrow> recover_result" where
  "recover d job ep started now =
     (let r0 = new_recovery job ep started in
      if blank job \<or> ep < 0 then recover_fail d r0 (ErrRecoveryAborted []) now []
      else case (dep_latest d, dep_get d, dep_validate d, dep_restore d) of
        (Some latest, Some get, Some validate, Some restore) \<Rightarrow>
          (let log = audit d AuditStarted in
           recover_move r0 StateCheckpointLocated now log (\<lambda>r.
             case locate_checkpoint d latest get job ep of
               Inl (e, c) \<Rightarrow> recover_fail d (r\<lparr>rv_checkpoint := c\<rparr>) e now log
             | Inr m \<Rightarrow>
                 recover_checkpoint d get validate restore m (r\<lparr>rv_checkpoint := Some m\<rparr>) now
                   (log @ audit d (AuditLocated (mf_checkpoint_uri m)))))
      | _ \<Rightarrow> recover_fail d r0 (ErrRecoveryAborted ''recovery dependencies are incomplete'') now [])"

section \<open>The deployment's components\<close>

definition checkpoint_validate :: "bool \<Rightarrow> manifest option \<Rightarrow> recovery_error option" where
  "checkpoint_validate cancelled mo =
     (if cancelled then Some (ErrCall ''context canceled'')
      else case mo of
        None \<Rightarrow> Some (ErrCheckpointCorrupted [])
      | Some m \<Rightarrow> first_err
          [fail_if (blank (mf_job_id m) \<or> mf_epoch m < 0 \<or> mf_sequence m \<le> 0 \<or> blank (mf_checkpoint_uri m))
             (ErrCheckpointCorrupted []),
           fail_if (list_ex (\<lambda>f. blank (cf_name f) \<or> blank (cf_uri f) \<or> cf_size f < 0) (mf_files m))
             (ErrCheckpointCorrupted ''invalid checkpoint file metadata'')])"

text \<open>\<open>FileStateRestorer.Restore\<close>: every file is opened and read to its end.\<close>

fun restore_files :: "(string \<Rightarrow> string + string) \<Rightarrow> checkpoint_file list \<Rightarrow> recovery_error option" where
  "restore_files get [] = None"
| "restore_files get (f # fs) =
     (case get (cf_uri f) of
        Inl e \<Rightarrow> Some (ErrWrapped (''open checkpoint file '' @ cf_name f) (ErrCall e))
      | Inr _ \<Rightarrow> restore_files get fs)"

definition file_restore :: "bool \<Rightarrow> (string \<Rightarrow> string + string) \<Rightarrow> manifest \<Rightarrow> recovery_error option" where
  "file_restore cancelled get m =
     (if cancelled then Some (ErrCall ''context canceled'') else restore_files get (mf_files m))"

record wal_reader =
  wr_prefix :: string
  wr_region :: string

definition new_wal_reader :: "string \<Rightarrow> string \<Rightarrow> int \<Rightarrow> wal_error + wal_reader" where
  "new_wal_reader region prefix from =
     (case new_reader region prefix from of
        Inl e \<Rightarrow> Inl e
      | Inr _ \<Rightarrow> Inr \<lparr>wr_prefix = trim_suffix prefix ''/'', wr_region = region\<rparr>)"

definition sequence_from_key :: "string \<Rightarrow> int option" where
  "sequence_from_key key =
     (case sscan_int64 (trim_suffix (last_slash_part key) ''.wal'') of
        None \<Rightarrow> None
      | Some sq \<Rightarrow> if sq \<le> 0 then None else Some sq)"

text \<open>The loop over the keys, with the set \<open>seen\<close>.\<close>

fun collect_sequences :: "int \<Rightarrow> int list \<Rightarrow> string list \<Rightarrow> int list" where
  "collect_sequences since seen [] = []"
| "collect_sequences since seen (k # ks) =
     (case sequence_from_key k of
        None \<Rightarrow> collect_sequences since seen ks
      | Some sq \<Rightarrow>
          if sq \<le> since \<or> sq \<in> set seen then collect_sequences since seen ks
          else sq # collect_sequences since (sq # seen) ks)"

definition to_recovery_entry :: "entry \<Rightarrow> entry" where
  "to_recovery_entry e = \<lparr>e_sequence = e_sequence e, e_region = e_region e, e_epoch = e_epoch e,
     e_checkpoint_uri = e_checkpoint_uri e, e_job_id = e_job_id e, e_timestamp = e_timestamp e,
     e_crc32c = e_crc32c e\<rparr>"

text \<open>The loop over the sequence numbers.\<close>

fun fetch_entries ::
  "('s \<Rightarrow> string \<Rightarrow> 'e + string) \<Rightarrow> 's \<Rightarrow> wal_reader \<Rightarrow> int list \<Rightarrow> recovery_error + entry list" where
  "fetch_entries get s r [] = Inr []"
| "fetch_entries get s r (sq # sqs) =
     (case get s (wr_prefix r @ ''/'' @ wr_region r @ ''/'' @ pad16 sq @ ''.wal'') of
        Inl _ \<Rightarrow> Inl (ErrWal (StorageFailed ''get object''))
      | Inr data \<Rightarrow>
         (case unmarshal_binary data of
            Inl e \<Rightarrow> Inl (ErrWal e)
          | Inr e \<Rightarrow>
              if e_sequence e \<noteq> sq \<or> e_region e \<noteq> wr_region r then Inl (ErrWal ErrGap)
              else (case fetch_entries get s r sqs of
                      Inl err \<Rightarrow> Inl err
                    | Inr es \<Rightarrow> Inr (to_recovery_entry e # es))))"

definition read_entries ::
  "('s \<Rightarrow> string \<Rightarrow> 'e + string) \<Rightarrow> ('s \<Rightarrow> string \<Rightarrow> 'e + string list) \<Rightarrow> 's \<Rightarrow> wal_reader \<Rightarrow> int \<Rightarrow>
     recovery_error + entry list" where
  "read_entries get lst s r since =
     (if since < 0 then Inl (ErrCall ''since sequence must not be negative'')
      else case lst s (wr_prefix r @ ''/'' @ wr_region r @ ''/'') of
        Inl _ \<Rightarrow> Inl (ErrWal (StorageFailed ''list objects''))
      | Inr keys \<Rightarrow> fetch_entries get s r (sort (collect_sequences since [] keys)))"

definition get_latest_checkpoint ::
  "('s \<Rightarrow> string \<Rightarrow> 'e + string) \<Rightarrow> ('s \<Rightarrow> string \<Rightarrow> 'e + string list) \<Rightarrow> (string \<Rightarrow> string + manifest) \<Rightarrow>
     's \<Rightarrow> wal_reader \<Rightarrow> recovery_error + manifest" where
  "get_latest_checkpoint get lst json s r =
     (case read_entries get lst s r 0 of
        Inl e \<Rightarrow> Inl e
      | Inr es \<Rightarrow>
          if es = [] then Inl ErrCheckpointNotFound
          else let latest = last es in
           (case get s (e_checkpoint_uri latest) of
              Inl _ \<Rightarrow> Inl (ErrWal (StorageFailed ''read latest checkpoint manifest''))
            | Inr data \<Rightarrow>
               (case json data of
                  Inl e \<Rightarrow> Inl (ErrWrapped ''parse checkpoint manifest'' (ErrCall e))
                | Inr m \<Rightarrow>
                    if mf_job_id m \<noteq> e_job_id latest \<or> mf_epoch m \<noteq> e_epoch latest \<or>
                       mf_sequence m \<noteq> e_sequence latest
                    then Inl (ErrCheckpointCorrupted [])
                    else Inr m)))"

section \<open>Lemmas: the manager\<close>

definition file_intact :: "(string \<Rightarrow> string + string) \<Rightarrow> checkpoint_file \<Rightarrow> bool" where
  "file_intact get f \<longleftrightarrow>
     (case get (cf_uri f) of
        Inl _ \<Rightarrow> False
      | Inr data \<Rightarrow> (cf_size f < 0 \<or> int (length data) = cf_size f) \<and> (cf_crc32c f = 0 \<or> crc32c data = cf_crc32c f))"

lemma download_files_None: "download_files get fs = None \<Longrightarrow> list_all (file_intact get) fs"
proof (induction fs)
  case (Cons f fs)
  then have "download_file get f = None" by (simp split: option.splits)
  then have "file_intact get f"
    by (auto simp: download_file_def file_intact_def split: if_splits sum.splits)
  with Cons show ?case by (simp split: option.splits)
qed simp

lemma locate_checkpoint_Inr:
  assumes "locate_checkpoint d latest get job ep = Inr m"
  shows "mf_job_id m = job \<and> mf_epoch m \<le> ep \<and> 0 < mf_sequence m"
  using assms by (auto simp: locate_checkpoint_def split: sum.splits option.splits if_splits)

definition is_restore :: "recovery_event \<Rightarrow> bool" where
  "is_restore e \<longleftrightarrow> (case e of CallRestore _ \<Rightarrow> True | _ \<Rightarrow> False)"

lemma is_restore_simps [simp]:
  "\<not> is_restore AuditStarted" "\<not> is_restore (AuditLocated u)" "\<not> is_restore AuditValidated"
  "\<not> is_restore (AuditComplete t)" "\<not> is_restore (AuditFailed s)" "is_restore (CallRestore m)"
  by (simp_all add: is_restore_def)

lemma restores_audit [simp]: "\<not> is_restore e \<Longrightarrow> filter is_restore (audit d e) = []"
  by (simp add: audit_def)

text \<open>What a result has to look like, given the restorer calls made so far.\<close>

definition failed_result :: "recovery_event list \<Rightarrow> recover_result \<Rightarrow> bool" where
  "failed_result calls res \<longleftrightarrow>
     (\<exists>r e. fst res = (Some r, Some e) \<and> rv_state r = StateRecoveryFailed \<and> rv_error r = recovery_text e) \<and>
     filter is_restore (snd res) = calls"

lemma recovery_text_not_Nil: "recovery_text e \<noteq> [] \<or> (\<exists>s. e = ErrCall s)"
  by (cases e) simp_all

text \<open>The errors \<open>fail\<close> gets are never plain component errors.\<close>

lemma recover_fail_result:
  assumes "rv_state r < StateRecoveryFailed" and "\<And>s. e \<noteq> ErrCall s"
  shows "failed_result (filter is_restore log) (recover_fail d r e now log)"
  using assms recovery_text_not_Nil [of e]
  by (auto simp: failed_result_def recover_fail_def recovery_transition_def less_eq_recovery_state_def
      less_recovery_state_def)

lemma recover_move_mid:
  assumes "rv_state r < st" and "st < StateRecoveryComplete"
  shows "recover_move r st now log k = k (r\<lparr>rv_state := st\<rparr>)"
proof -
  have "rv_state r \<noteq> StateRecoveryFailed" "st \<noteq> StateRecoveryComplete" "st \<noteq> StateRecoveryFailed"
    using assms by (auto simp: less_recovery_state_def)
  moreover have "r\<lparr>rv_state := st, rv_error := rv_error r, rv_completed_at := rv_completed_at r\<rparr> = r\<lparr>rv_state := st\<rparr>"
    by (cases r) simp
  ultimately show ?thesis using assms(1) by (auto simp: recover_move_def recovery_transition_def dest: leD)
qed

lemma recover_move_last:
  "rv_state r < StateRecoveryComplete \<Longrightarrow>
   recover_move r StateRecoveryComplete now log k =
     k (r\<lparr>rv_state := StateRecoveryComplete, rv_error := rv_error r, rv_completed_at := Some now\<rparr>)"
  by (auto simp: recover_move_def recovery_transition_def less_recovery_state_def less_eq_recovery_state_def)

lemma download_error_wrapped: "download_files get fs = Some e \<Longrightarrow> e \<noteq> ErrCall x"
  by (induction fs) (auto split: option.splits)

lemmas recovery_ranks = less_recovery_state_def less_eq_recovery_state_def

definition recovered_result :: "manifest \<Rightarrow> recover_result \<Rightarrow> bool" where
  "recovered_result m res \<longleftrightarrow>
     (\<exists>r. fst res = (Some r, None) \<and> rv_state r = StateRecoveryComplete \<and> rv_checkpoint r = Some m) \<and>
     filter is_restore (snd res) = [CallRestore m]"

lemma recover_restore_result:
  assumes "rv_state r = StateFilesDownloaded" and "rv_checkpoint r = Some m" and "filter is_restore log = []"
  shows "case restore m of
      None \<Rightarrow> recovered_result m (recover_restore d restore m r now log)
    | Some e \<Rightarrow> failed_result [CallRestore m] (recover_restore d restore m r now log)"
proof (cases "restore m")
  case None
  with assms show ?thesis
    by (simp add: recover_restore_def recover_move_mid recover_move_last recovery_ranks recovered_result_def)
next
  case (Some e)
  let ?r = "r\<lparr>rv_state := StateRestoring\<rparr>" and ?log = "log @ [CallRestore m]"
  have "failed_result (filter is_restore ?log) (recover_fail d ?r (ErrWrapped ''restore state'' e) now ?log)"
    by (rule recover_fail_result) (simp_all add: recovery_ranks)
  with Some assms show ?thesis by (simp add: recover_restore_def recover_move_mid recovery_ranks)
qed

lemma recover_checkpoint_result:
  assumes "rv_state r = StateCheckpointLocated" and "rv_checkpoint r = Some m" and "filter is_restore log = []"
    and res_def: "res = recover_checkpoint d get validate restore m r now log"
  shows "recovered_result m res \<and> validate m = None \<and> list_all (file_intact get) (mf_files m) \<or>
    failed_result [] res \<or> failed_result [CallRestore m] res \<and> restore m \<noteq> None"
proof (cases "validate m")
  case (Some e)
  have "failed_result (filter is_restore log)
      (recover_fail d (r\<lparr>rv_state := StateCheckpointValidated\<rparr>) (ErrWrapped ''validate checkpoint'' e) now log)"
    by (rule recover_fail_result) (simp_all add: recovery_ranks)
  with Some assms(1-3) show ?thesis
    by (simp add: res_def recover_checkpoint_def recover_move_mid recovery_ranks)
next
  case None
  note valid = this
  let ?log = "log @ audit d AuditValidated"
  have log: "filter is_restore ?log = []" using assms(3) by simp
  show ?thesis
  proof (cases "download_files get (mf_files m)")
    case (Some e)
    then have "e \<noteq> ErrCall x" for x by (rule download_error_wrapped)
    then have "failed_result (filter is_restore ?log) (recover_fail d (r\<lparr>rv_state := StateFilesDownloading\<rparr>) e now ?log)"
      by (intro recover_fail_result) (simp_all add: recovery_ranks)
    then have "failed_result [] res"
      using log valid Some assms(1) by (simp add: res_def recover_checkpoint_def recover_move_mid recovery_ranks Let_def)
    then show ?thesis by blast
  next
    case None
    have "res = recover_restore d restore m (r\<lparr>rv_state := StateFilesDownloaded\<rparr>) now ?log"
      using valid None assms(1) by (simp add: res_def recover_checkpoint_def recover_move_mid recovery_ranks Let_def)
    then show ?thesis
      using recover_restore_result [of "r\<lparr>rv_state := StateFilesDownloaded\<rparr>" m ?log d restore now]
        assms(2) log valid download_files_None [OF None]
      by (simp split: option.splits)
  qed
qed

lemma recover_result:
  assumes res_def: "res = recover d job ep started now"
  shows "(\<exists>m get validate. recovered_result m res \<and> dep_get d = Some get \<and> dep_validate d = Some validate \<and>
      validate m = None \<and> list_all (file_intact get) (mf_files m) \<and>
      mf_job_id m = job \<and> mf_epoch m \<le> ep \<and> 0 < mf_sequence m) \<or>
    failed_result [] res \<or>
    (\<exists>m restore. failed_result [CallRestore m] res \<and> dep_restore d = Some restore \<and> restore m \<noteq> None)"
proof -
  have abort: "failed_result [] (recover_fail d (new_recovery job ep started) (ErrRecoveryAborted s) now [])" for s
    using recover_fail_result [of "new_recovery job ep started" "ErrRecoveryAborted s" "[]" d now]
    by (simp add: new_recovery_def recovery_ranks)
  show ?thesis
  proof (cases "\<not> blank job \<and> 0 \<le> ep \<and> dep_latest d \<noteq> None \<and> dep_get d \<noteq> None \<and> dep_validate d \<noteq> None \<and> dep_restore d \<noteq> None")
    case False
    then show ?thesis
      using abort by (auto simp: res_def recover_def Let_def split: option.splits)
  next
    case True
    then obtain latest get validate restore where deps: "dep_latest d = Some latest" "dep_get d = Some get"
      "dep_validate d = Some validate" "dep_restore d = Some restore" by blast
    let ?r = "(new_recovery job ep started)\<lparr>rv_state := StateCheckpointLocated\<rparr>"
    have step: "res = (case locate_checkpoint d latest get job ep of
        Inl (e, c) \<Rightarrow> recover_fail d (?r\<lparr>rv_checkpoint := c\<rparr>) e now (audit d AuditStarted)
      | Inr m \<Rightarrow> recover_checkpoint d get validate restore m (?r\<lparr>rv_checkpoint := Some m\<rparr>) now
                   (audit d AuditStarted @ audit d (AuditLocated (mf_checkpoint_uri m))))"
    proof -
      have "rv_state (new_recovery job ep started) < StateCheckpointLocated"
        by (simp add: new_recovery_def recovery_ranks)
      then show ?thesis
        using True by (simp add: res_def recover_def deps recover_move_mid recovery_ranks Let_def)
    qed
    show ?thesis
    proof (cases "locate_checkpoint d latest get job ep")
      case (Inl ec)
      obtain e c where ec: "ec = (e, c)" by (cases ec)
      have "e \<noteq> ErrCall x" for x
        using Inl ec by (auto simp: locate_checkpoint_def split: sum.splits option.splits if_splits)
      then have "failed_result (filter is_restore (audit d AuditStarted))
          (recover_fail d (?r\<lparr>rv_checkpoint := c\<rparr>) e now (audit d AuditStarted))"
        by (intro recover_fail_result) (simp_all add: recovery_ranks)
      then show ?thesis by (simp add: step Inl ec)
    next
      case (Inr m)
      show ?thesis
        using recover_checkpoint_result [of "?r\<lparr>rv_checkpoint := Some m\<rparr>" m
            "audit d AuditStarted @ audit d (AuditLocated (mf_checkpoint_uri m))" _ d get validate restore now, OF _ _ _ refl]
          locate_checkpoint_Inr [OF Inr] deps
        by (simp add: step Inr) blast
    qed
  qed
qed

section \<open>Lemmas: the log reader\<close>

lemma to_recovery_entry_id [simp]: "to_recovery_entry e = e"
  by (cases e) (simp add: to_recovery_entry_def)

lemma sequence_from_entry_key:
  assumes "0 < n" and "n < 2 ^ 63"
  shows "sequence_from_key (entry_key cfg n) = Some n"
proof -
  have "CHR ''/'' \<notin> set (pad16 n @ ''.wal'')" using pad16_no_slash [of n] assms(1) by simp
  then have "last_slash_part ((cfg_prefix cfg @ ''/'' @ cfg_region cfg) @ CHR ''/'' # (pad16 n @ ''.wal'')) = pad16 n @ ''.wal''"
    by (rule last_slash_part_append)
  then have "last_slash_part (entry_key cfg n) = pad16 n @ ''.wal''" by (simp add: entry_key_def)
  with assms show ?thesis by (simp add: sequence_from_key_def trim_suffix_append pad16_parse(2))
qed

lemma collect_sequences_set:
  "set (collect_sequences since seen ks) = {sq. \<exists>k \<in> set ks. sequence_from_key k = Some sq} - {..since} - set seen"
  by (induction since seen ks rule: collect_sequences.induct) (auto split: option.splits)

lemma collect_sequences_distinct: "distinct (collect_sequences since seen ks)"
  by (induction since seen ks rule: collect_sequences.induct)
    (auto simp: collect_sequences_set split: option.splits)

context object_storage
begin

lemma collect_stored:
  assumes "wal_stored get lst s cfg hist m" and "int m < 2 ^ 63"
  shows "\<exists>ks. lst s (wal_dir cfg @ ''/'') = Inr ks \<and>
    sort (collect_sequences (int c) [] ks) = map (\<lambda>i. int i + 1) [c..<m]"
proof -
  obtain ks where ks: "lst s (wal_dir cfg @ ''/'') = Inr ks" "set ks = entry_key cfg ` {1..int m}"
    using assms(1) by (auto simp: wal_stored_def)
  have "sequence_from_key (entry_key cfg n) = Some n" if "n \<in> {1..int m}" for n
    using that assms(2) by (intro sequence_from_entry_key) auto
  then have "{sq. \<exists>k \<in> set ks. sequence_from_key k = Some sq} = {1..int m}" unfolding ks(2) by auto
  then have "set (collect_sequences (int c) [] ks) = set (map (\<lambda>i. int i + 1) [c..<m])"
    by (auto simp: collect_sequences_set image_int_range)
  moreover have "distinct (map (\<lambda>i. int i + 1) [c..<m])" "sorted (map (\<lambda>i. int i + 1) [c..<m])"
    by (simp_all add: distinct_map inj_on_def sorted_map sorted_wrt_upt)
  ultimately show ?thesis
    using ks(1) collect_sequences_distinct
    by (intro exI conjI) (auto intro: sorted_distinct_set_unique)
qed

lemma fetch_stored:
  assumes "hist_ok cfg hist" and "wal_stored get lst s cfg hist m" and "m \<le> length hist"
    and "list_all entry_in_range hist" and "wr_prefix r = cfg_prefix cfg" and "wr_region r = cfg_region cfg"
    and "\<forall>i \<in> set is. i < m"
  shows "fetch_entries get s r (map (\<lambda>i. int i + 1) is) = map_sum ErrWal id (decoded (map (\<lambda>i. hist ! i) is))"
  using assms(7)
proof (induction "is")
  case (Cons i "is")
  then have i: "i < m" by simp
  from read_stored [OF assms(1-4) i] obtain data where
    "get s (cfg_prefix cfg @ ''/'' @ cfg_region cfg @ ''/'' @ pad16 (int i + 1) @ ''.wal'') = Inr data"
    "unmarshal_binary data = (if long_enough (hist ! i) then Inr (hist ! i) else Inl (ErrInvalidEntry ''data too short''))"
    using assms(2) i by (auto simp: read_entry_def wal_stored_def entry_key_def)
  moreover have "e_sequence (hist ! i) = int i + 1" "e_region (hist ! i) = cfg_region cfg"
    using assms(1,3) i by (auto simp: hist_ok_def)
  ultimately show ?case using Cons assms(5,6) by (simp add: decoded_def)
qed (simp add: decoded_def)

lemma read_entries_decoded:
  assumes "hist_ok cfg hist" and "wal_stored get lst s cfg hist m" and "m \<le> length hist"
    and "list_all entry_in_range hist" and "wr_prefix r = cfg_prefix cfg" and "wr_region r = cfg_region cfg"
  shows "read_entries get lst s r (int c) = map_sum ErrWal id (decoded (drop c (take m hist)))"
proof -
  have "int m < 2 ^ 63" using assms(1,3) by (simp add: hist_ok_def)
  then obtain ks where ks: "lst s (wal_dir cfg @ ''/'') = Inr ks"
    "sort (collect_sequences (int c) [] ks) = map (\<lambda>i. int i + 1) [c..<m]"
    using collect_stored [OF assms(2)] by blast
  have "map (\<lambda>i. hist ! i) [c..<m] = drop c (take m hist)"
    using assms(3) by (intro nth_equalityI) simp_all
  then show ?thesis
    using ks fetch_stored [OF assms, of "[c..<m]"] assms(5,6)
    by (simp add: read_entries_def wal_dir_def)
qed

end

section \<open>Properties\<close>

text \<open>
  C27. A recovery restores only what it has checked. When \<open>Recover\<close> reports success, it called the
  restorer exactly once, with the manifest it recorded; that manifest belongs to the job, is not
  from a later epoch, passed the validator, and every file it lists was read from the store with
  the size and the checksum it states. When it reports an error, the recovery is failed with that
  error's text, and the restorer was not called unless it was the restorer that failed.
\<close>

theorem recovery_restores_checked:
  assumes "recover d job ep started now = ((r, err), log)"
  shows "case err of
      None \<Rightarrow> \<exists>rec m get validate. r = Some rec \<and> rv_state rec = StateRecoveryComplete \<and>
        rv_checkpoint rec = Some m \<and> filter is_restore log = [CallRestore m] \<and>
        dep_get d = Some get \<and> dep_validate d = Some validate \<and> validate m = None \<and>
        list_all (file_intact get) (mf_files m) \<and> mf_job_id m = job \<and> mf_epoch m \<le> ep \<and> 0 < mf_sequence m
    | Some e \<Rightarrow> \<exists>rec. r = Some rec \<and> rv_state rec = StateRecoveryFailed \<and> rv_error rec = recovery_text e \<and>
        (filter is_restore log = [] \<or>
         (\<exists>m restore. filter is_restore log = [CallRestore m] \<and> dep_restore d = Some restore \<and> restore m \<noteq> None))"
proof -
  consider (restored) m get validate where "recovered_result m ((r, err), log)" "dep_get d = Some get"
      "dep_validate d = Some validate" "validate m = None" "list_all (file_intact get) (mf_files m)"
      "mf_job_id m = job" "mf_epoch m \<le> ep" "0 < mf_sequence m"
    | (failed) "failed_result [] ((r, err), log)"
    | (restoring) m restore where "failed_result [CallRestore m] ((r, err), log)" "dep_restore d = Some restore" "restore m \<noteq> None"
    using recover_result [OF assms [symmetric]] by blast
  then show ?thesis
  proof cases
    case restored
    then show ?thesis by (auto simp: recovered_result_def)
  next
    case failed
    then show ?thesis by (auto simp: failed_result_def)
  next
    case restoring
    then show ?thesis by (fastforce simp: failed_result_def)
  qed
qed

definition sample_file :: checkpoint_file where
  "sample_file = \<lparr>cf_name = ''state'', cf_uri = ''c/state'', cf_size = 3, cf_crc32c = 0\<rparr>"

definition sample_manifest :: manifest where
  "sample_manifest = \<lparr>mf_job_id = ''job'', mf_epoch = 2, mf_sequence = 9, mf_checkpoint_uri = ''c/manifest'',
     mf_files = [sample_file], mf_created_at = 1, mf_crc32c = 0\<rparr>"

definition sample_deps :: recovery_deps where
  "sample_deps = \<lparr>dep_latest = Some (Inr (Some sample_manifest)),
     dep_get = Some (\<lambda>uri. if uri = ''c/state'' then Inr ''abc'' else Inl ''no such object''),
     dep_parse = None, dep_validate = Some (\<lambda>m. checkpoint_validate False (Some m)),
     dep_restore = Some (\<lambda>m. None), dep_auditor = True\<rparr>"

definition sample_recovery :: recovery where
  "sample_recovery = \<lparr>rv_job_id = ''job'', rv_new_epoch = 3, rv_checkpoint = Some sample_manifest,
     rv_state = StateRecoveryComplete, rv_error = [], rv_started_at = 5, rv_completed_at = Some 8\<rparr>"

lemma sample_recover:
  "recover sample_deps ''job'' 3 5 8 =
     ((Some sample_recovery, None),
      [AuditStarted, AuditLocated ''c/manifest'', AuditValidated, CallRestore sample_manifest, AuditComplete 3])"
  by code_simp

theorem recovery_restores_checked_witness:
  "\<exists>m get. rv_checkpoint sample_recovery = Some m \<and> dep_get sample_deps = Some get \<and>
     list_all (file_intact get) (mf_files m) \<and> mf_files m \<noteq> []"
  using recovery_restores_checked [OF sample_recover]
  by (auto simp: sample_recovery_def sample_manifest_def)

text \<open>
  C28. The two readers of the log agree. After any run of a writer over a file store, for entries
  whose epoch and time fit the 64 bits they are stored in, the reader the recovery and the replicator
  use (\<open>ReadEntries\<close>, which lists, deduplicates, sorts and checks every entry) returns what the log's
  own reader returns from the same position (\<open>ReadBatch\<close>, which expects consecutive numbers): the
  written entries after that position, in order; or both return the error of the decoder, if one of
  these entries has strings of less than four bytes together.
\<close>

theorem log_readers_agree:
  assumes "canonical (wal_dir cfg)" and "canonical (cfg_prefix cfg)" and "fs_inv s0" and "fs_files s0 = []"
    and "new_writer fs_list s0 cfg = Inr w0"
    and "foldl (wal_exec fs_put) (w0, s0, []) ops = (w, s, hist)" and "list_all entry_in_range hist"
    and "new_wal_reader (cfg_region cfg) (cfg_prefix cfg) 0 = Inr r" and "w_pending w = []" and "c < length hist"
    and "int (length hist) < max_count"
  shows "(read_entries fs_get fs_list s r (int c),
      fst (read_batch fs_get fs_list s \<lparr>r_region = cfg_region cfg, r_prefix = cfg_prefix cfg, r_last = int c\<rparr> max_count)) =
    (if list_all long_enough (drop c hist) then (Inr (drop c hist), Inr (drop c hist))
     else (Inl (ErrWal (ErrInvalidEntry ''data too short'')), Inl (ErrInvalidEntry ''data too short'')))"
proof -
  note run = file_log_run [OF assms(1-6)]
  obtain k m where hist: "hist_ok cfg hist" and "w_pending w = drop k hist" "k \<le> m" and m: "m \<le> length hist"
    and st: "wal_stored fs_get fs_list s cfg hist m"
    using run(3) by (rule log_invE)
  with assms(9) have "m = length hist" by simp
  moreover have "wr_prefix r = cfg_prefix cfg" "wr_region r = cfg_region cfg"
    using assms(8) canonical_trim_suffix [OF assms(2)]
    by (auto simp: new_wal_reader_def new_reader_def split: if_splits)
  ultimately show ?thesis
    using file_objects.read_entries_decoded [OF hist st m assms(7), of r c]
      file_objects.read_batch_decoded [OF run(2,1) hist st m assms(7),
        of "\<lparr>r_region = cfg_region cfg, r_prefix = cfg_prefix cfg, r_last = int c\<rparr>" c max_count]
      assms(10,11) hist
    by (simp add: hist_ok_def decoded_def)
qed

text \<open>A run with one durable append, from the example of the log.\<close>

lemma sample_clean_store:
  "fs_inv (sample_store\<lparr>fs_faults := []\<rparr>)" "fs_files (sample_store\<lparr>fs_faults := []\<rparr>) = []"
  "new_writer fs_list (sample_store\<lparr>fs_faults := []\<rparr>) sample_cfg = Inr sample_writer"
proof -
  let ?s = "sample_store\<lparr>fs_faults := []\<rparr>"
  show "fs_inv ?s" using sample_log_ok(3) by simp
  show "fs_files ?s = []" by (simp add: sample_store_def)
  show "new_writer fs_list ?s sample_cfg = Inr sample_writer" by code_simp
qed

lemma sample_durable_run:
  "\<exists>w s. foldl (wal_exec fs_put) (sample_writer, sample_store\<lparr>fs_faults := []\<rparr>, [])
      [OpAppend (sample_entry\<lparr>e_region := []\<rparr>) True (unix_epoch + 5)] = (w, s, [sample_logged]) \<and> w_pending w = []"
proof -
  let ?s = "sample_store\<lparr>fs_faults := []\<rparr>" and ?e = "sample_entry\<lparr>e_region := []\<rparr>"
  obtain w s where a: "wal_append fs_put sample_writer ?s ?e True (unix_epoch + 5) = (None, sample_logged, w, s)"
    using sample_durable by blast
  have w: "w_pending w = []" "w_sequence w = 1"
    using a by (rule wal_append_cases; auto simp: flush_locked_def accept_entry_def sample_writer_def wrap64_def
        split: prod.splits option.splits)+
  then show ?thesis by (simp add: a) (simp add: sample_writer_def)
qed

lemma log_readers_agree_sample:
  assumes "foldl (wal_exec fs_put) (sample_writer, sample_store\<lparr>fs_faults := []\<rparr>, []) ops = (w, s, [sample_logged])"
    and "w_pending w = []"
  shows "read_entries fs_get fs_list s \<lparr>wr_prefix = ''wal'', wr_region = ''eu''\<rparr> 0 = Inr [sample_logged]"
proof -
  obtain k m where h: "hist_ok sample_cfg [sample_logged]" "w_pending w = drop k [sample_logged]" "k \<le> m"
    "m \<le> length [sample_logged]" "wal_stored fs_get fs_list s sample_cfg [sample_logged] m"
    using file_log_run(3) [OF sample_log_ok(1,2) sample_clean_store assms(1)] by (rule log_invE)
  with assms(2) have "m = 1" by simp
  with file_objects.read_entries_decoded [OF h(1,5,4), of "\<lparr>wr_prefix = ''wal'', wr_region = ''eu''\<rparr>" 0]
  show ?thesis using sample_readable by (simp add: readable_def decoded_def sample_cfg_def)
qed

theorem log_readers_agree_witness:
  "\<exists>s. read_entries fs_get fs_list s \<lparr>wr_prefix = ''wal'', wr_region = ''eu''\<rparr> 0 = Inr [sample_logged] \<and>
     fst (read_batch fs_get fs_list s \<lparr>r_region = ''eu'', r_prefix = ''wal'', r_last = 0\<rparr> 10) = Inr [sample_logged]"
proof -
  obtain w s where run: "foldl (wal_exec fs_put) (sample_writer, sample_store\<lparr>fs_faults := []\<rparr>, [])
      [OpAppend (sample_entry\<lparr>e_region := []\<rparr>) True (unix_epoch + 5)] = (w, s, [sample_logged])" and w: "w_pending w = []"
    using sample_durable_run by blast
  have r: "new_wal_reader (cfg_region sample_cfg) (cfg_prefix sample_cfg) 0 = Inr \<lparr>wr_prefix = ''wal'', wr_region = ''eu''\<rparr>"
    by code_simp
  from log_readers_agree [OF sample_log_ok(1,2) sample_clean_store run _ r w, of 0 10]
  show ?thesis using sample_readable by (auto simp: readable_def sample_cfg_def)
qed

end
