(* ===== verification/Replicator.thy ===== *)
theory Replicator
  imports Recovery "HOL-Library.Sublist"
begin

text \<open>
  The replicator (\<open>replication/runtime/replicator.go\<close>): it reads the log, sends every entry to the
  peer region and acknowledges it. \<open>Run\<close> loops until an error, so it is a step function on a
  program counter, one step per call it makes or timer it waits for; the model keeps the entries
  whose send returned no error and the sequence numbers it acknowledged. What the peer makes of a send
  whose answer was lost is left to \<open>ReplicationService\<close>. \<open>replication_step\<close> lets it run next
  to the log's writer, in any interleaving.
\<close>

section \<open>The replicator\<close>

record replicator_config =
  rp_batch_size :: int
  rp_poll_interval :: duration
  rp_retry_initial :: duration
  rp_retry_max :: duration

datatype grpc_code =
    CodeCanceled | CodeUnknown | CodeInvalidArgument | CodeDeadlineExceeded | CodeNotFound | CodeAlreadyExists
  | CodePermissionDenied | CodeResourceExhausted | CodeFailedPrecondition | CodeAborted | CodeOutOfRange
  | CodeUnimplemented | CodeInternal | CodeUnavailable | CodeDataLoss | CodeUnauthenticated

datatype replicator_error =
    ErrInvalidReplicator
  | ErrSequenceGap int
  | ErrReadEntries recovery_error
  | ErrEncode
  | ErrSend grpc_code
  | ErrAcknowledge
  | ErrCanceled
  | PanicNilEntry

definition or_default :: "int \<Rightarrow> int \<Rightarrow> int" where
  "or_default d x = (if x = 0 then d else x)"

definition new_replicator :: "bool \<Rightarrow> replicator_config \<Rightarrow> replicator_error + replicator_config" where
  "new_replicator complete c0 =
     (let c = \<lparr>rp_batch_size = or_default 128 (rp_batch_size c0),
               rp_poll_interval = or_default 1000000000 (rp_poll_interval c0),
               rp_retry_initial = or_default 100000000 (rp_retry_initial c0),
               rp_retry_max = or_default 5000000000 (rp_retry_max c0)\<rparr>
      in if \<not> complete then Inl ErrInvalidReplicator
         else if rp_batch_size c < 0 \<or> rp_poll_interval c < 0 \<or> rp_retry_initial c < 0 \<or>
                 rp_retry_max c < rp_retry_initial c
         then Inl ErrInvalidReplicator
         else Inr c)"

definition retryable_send_error :: "grpc_code \<Rightarrow> bool" where
  "retryable_send_error c \<longleftrightarrow>
     (case c of
        CodeUnknown \<Rightarrow> True | CodeCanceled \<Rightarrow> False | CodeInvalidArgument \<Rightarrow> False | CodeAlreadyExists \<Rightarrow> False
      | CodePermissionDenied \<Rightarrow> False | CodeUnauthenticated \<Rightarrow> False | CodeFailedPrecondition \<Rightarrow> False
      | CodeResourceExhausted \<Rightarrow> True | CodeAborted \<Rightarrow> True | CodeDeadlineExceeded \<Rightarrow> True | CodeUnavailable \<Rightarrow> True
      | _ \<Rightarrow> False)"

definition next_backoff :: "replicator_config \<Rightarrow> duration \<Rightarrow> duration" where
  "next_backoff cfg b =
     (if b < rp_retry_max cfg
      then (let b2 = wrap64 (b * 2) in if b2 > rp_retry_max cfg then rp_retry_max cfg else b2)
      else b)"

text \<open>
  Where \<open>Run\<close> stands: before \<open>ReadEntries\<close>, waiting to poll, at the head of the loop over the
  batch, in \<open>sendWithRetry\<close> before a send or waiting to retry, before the acknowledgement, or done.
\<close>

datatype 'ev rpc =
    RpRead
  | RpPoll
  | RpNext "entry list"
  | RpSend entry 'ev "entry list" duration
  | RpBackoff entry 'ev "entry list" duration
  | RpAck entry "entry list"
  | RpStopped replicator_error

record 'ev rstate =
  rs_pc :: "'ev rpc"
  rs_since :: int
  rs_sent :: "entry list"
  rs_acked :: "int list"

text \<open>What the surroundings answer to a step; every step uses the part it asks for.\<close>

record repl_answer =
  an_read_fails :: bool
  an_send :: "grpc_code option"
  an_ack_fails :: bool
  an_canceled :: bool

fun consecutive :: "entry list \<Rightarrow> bool" where
  "consecutive (a # b # es) \<longleftrightarrow> e_sequence b = wrap64 (e_sequence a + 1) \<and> consecutive (b # es)"
| "consecutive _ \<longleftrightarrow> True"

text \<open>
  The check of what the reader returned. Sorting compares every element as soon as there are two,
  and comparing a nil entry panics; a single nil entry is reported as a gap.
\<close>

definition accept_batch :: "replicator_config \<Rightarrow> int \<Rightarrow> entry option list \<Rightarrow> replicator_error + entry list" where
  "accept_batch cfg since xs =
     (if None \<in> set xs then Inl (if length xs \<ge> 2 then PanicNilEntry else ErrSequenceGap since)
      else let es = sort_key e_sequence (map the xs) in
        if \<not> (list_all (\<lambda>e. since < e_sequence e) es \<and> consecutive es) then Inl (ErrSequenceGap since)
        else Inr (if int (length es) > rp_batch_size cfg then take (nat (rp_batch_size cfg)) es else es))"

text \<open>The encoder returns \<open>None\<close> for an error and \<open>Some None\<close> for a nil event.\<close>

definition repl_step ::
  "replicator_config \<Rightarrow> (entry \<Rightarrow> 'ev option option) \<Rightarrow> bool \<Rightarrow> (int \<Rightarrow> recovery_error + entry option list) \<Rightarrow>
     repl_answer \<Rightarrow> 'ev rstate \<Rightarrow> 'ev rstate" where
  "repl_step cfg encode has_ack reader a st =
     (case rs_pc st of
        RpRead \<Rightarrow>
          (case (if an_read_fails a then Inl (ErrCall ''read'') else reader (rs_since st)) of
             Inl e \<Rightarrow> st\<lparr>rs_pc := RpStopped (ErrReadEntries e)\<rparr>
           | Inr xs \<Rightarrow>
               if xs = [] then st\<lparr>rs_pc := RpPoll\<rparr>
               else case accept_batch cfg (rs_since st) xs of
                 Inl e \<Rightarrow> st\<lparr>rs_pc := RpStopped e\<rparr>
               | Inr es \<Rightarrow> st\<lparr>rs_pc := RpNext es\<rparr>)
      | RpPoll \<Rightarrow> st\<lparr>rs_pc := if an_canceled a then RpStopped ErrCanceled else RpRead\<rparr>
      | RpNext es \<Rightarrow>
          (case es of
             [] \<Rightarrow> st\<lparr>rs_pc := RpRead\<rparr>
           | e # rest \<Rightarrow>
               if e_sequence e \<le> rs_since st then st\<lparr>rs_pc := RpStopped ErrInvalidReplicator\<rparr>
               else case encode e of
                 None \<Rightarrow> st\<lparr>rs_pc := RpStopped ErrEncode\<rparr>
               | Some None \<Rightarrow> st\<lparr>rs_pc := RpStopped ErrInvalidReplicator\<rparr>
               | Some (Some ev) \<Rightarrow> st\<lparr>rs_pc := RpSend e ev rest (rp_retry_initial cfg)\<rparr>)
      | RpSend e ev rest b \<Rightarrow>
          (case an_send a of
             None \<Rightarrow> st\<lparr>rs_pc := RpAck e rest, rs_sent := rs_sent st @ [e]\<rparr>
           | Some c \<Rightarrow>
               if retryable_send_error c then st\<lparr>rs_pc := RpBackoff e ev rest b\<rparr>
               else st\<lparr>rs_pc := RpStopped (ErrSend c)\<rparr>)
      | RpBackoff e ev rest b \<Rightarrow>
          st\<lparr>rs_pc := if an_canceled a then RpStopped ErrCanceled else RpSend e ev rest (next_backoff cfg b)\<rparr>
      | RpAck e rest \<Rightarrow>
          if has_ack \<and> an_ack_fails a then st\<lparr>rs_pc := RpStopped ErrAcknowledge\<rparr>
          else st\<lparr>rs_pc := RpNext rest, rs_since := e_sequence e, rs_acked := rs_acked st @ [e_sequence e]\<rparr>
      | RpStopped e \<Rightarrow> st)"

text \<open>The entry of \<open>Run\<close>.\<close>

definition repl_start :: "int \<Rightarrow> 'ev rstate" where
  "repl_start since =
     \<lparr>rs_pc = (if since < 0 then RpStopped ErrInvalidReplicator else RpRead), rs_since = since,
      rs_sent = [], rs_acked = []\<rparr>"

section \<open>Next to the writer\<close>

definition log_source :: "file_store \<Rightarrow> wal_reader \<Rightarrow> int \<Rightarrow> recovery_error + entry option list" where
  "log_source s r since =
     (case read_entries fs_get fs_list s r since of Inl e \<Rightarrow> Inl e | Inr es \<Rightarrow> Inr (map Some es))"

datatype repl_op = ReplWriter wal_op | ReplStep repl_answer

type_synonym 'ev repl_system = "(writer \<times> file_store \<times> entry list) \<times> 'ev rstate"

fun replication_step ::
  "replicator_config \<Rightarrow> (entry \<Rightarrow> 'ev option option) \<Rightarrow> bool \<Rightarrow> wal_reader \<Rightarrow> 'ev repl_system \<Rightarrow> repl_op \<Rightarrow> 'ev repl_system" where
  "replication_step cfg encode has_ack r (lg, st) (ReplWriter op) = (wal_exec fs_put lg op, st)"
| "replication_step cfg encode has_ack r ((w, s, hist), st) (ReplStep a) =
     ((w, s, hist), repl_step cfg encode has_ack (log_source s r) a st)"

section \<open>Lemmas\<close>

lemma prefix_drop_append: "prefix ys (drop n xs) \<Longrightarrow> prefix ys (drop n (xs @ zs))"
  by (auto simp: prefix_def)

lemma prefix_take_drop: "prefix (take k (drop c (take m xs))) (drop c xs)"
  by (simp add: drop_take) (metis take_is_prefix take_take)

lemma prefix_snoc_drop:
  assumes "prefix xs (drop c zs)" and "prefix (y # ys) (drop (c + length xs) zs)"
  shows "prefix (xs @ [y]) (drop c zs)" and "prefix ys (drop (c + length (xs @ [y])) zs)"
proof -
  from assms(1) obtain us where us: "drop c zs = xs @ us" by (auto simp: prefix_def)
  then have "drop (c + length xs) zs = us" by (metis add.commute append_eq_conv_conj drop_drop)
  with assms(2) obtain vs where vs: "us = y # ys @ vs" by (auto simp: prefix_def)
  with us show "prefix (xs @ [y]) (drop c zs)" by simp
  have "drop (c + length (xs @ [y])) zs = drop (Suc (length xs)) (drop c zs)" by (simp add: add.commute)
  also have "\<dots> = ys @ vs" by (simp add: us vs)
  finally show "prefix ys (drop (c + length (xs @ [y])) zs)" by simp
qed

text \<open>The entries between two positions of the log are sorted and consecutive.\<close>

lemma log_segment_sorted:
  assumes "hist_ok cfg hist"
  shows "sort_key e_sequence (drop c (take m hist)) = drop c (take m hist)"
    and "list_all (\<lambda>e. int c < e_sequence e) (drop c (take m hist))"
    and "consecutive (drop c (take m hist))"
proof -
  have nth: "e_sequence (drop c (take m hist) ! i) = int (c + i) + 1" if "i < length (drop c (take m hist))" for i
  proof -
    have "c + i < length (take m hist)" using that by auto
    then have "drop c (take m hist) ! i = hist ! (c + i)" "c + i < length hist" by (simp_all add: nth_drop)
    with assms show ?thesis by (simp add: hist_ok_def)
  qed
  have "sorted (map e_sequence (drop c (take m hist)))"
    by (rule sorted_iff_nth_mono [THEN iffD2]) (simp add: nth)
  then show "sort_key e_sequence (drop c (take m hist)) = drop c (take m hist)"
    by (rule sort_key_id_if_sorted)
  show "list_all (\<lambda>e. int c < e_sequence e) (drop c (take m hist))"
    unfolding list_all_length using nth by auto
  have len: "int (length hist) < 2 ^ 63" using assms by (simp add: hist_ok_def)
  have seg: "consecutive es" if "\<And>i. i < length es \<Longrightarrow> e_sequence (es ! i) = int (k + i) + 1"
    and "int (k + length es) < 2 ^ 63" for es k
    using that
  proof (induction es arbitrary: k rule: consecutive.induct)
    case (1 a b es)
    have "consecutive (b # es)"
      by (rule "1.IH" [of "Suc k"]) (use "1.prems"(1) [of "Suc _"] "1.prems"(2) in auto)
    moreover have "e_sequence b = wrap64 (e_sequence a + 1)"
      using "1.prems"(1) [of 0] "1.prems"(1) [of 1] "1.prems"(2) by (simp add: wrap64_id int64_range_def)
    ultimately show ?case by simp
  qed simp_all
  show "consecutive (drop c (take m hist))"
  proof (cases "c \<le> length (take m hist)")
    case True
    then show ?thesis using len by (intro seg [of _ c] nth) auto
  next
    case False
    then have "drop c (take m hist) = []" by auto
    then show ?thesis by simp
  qed
qed

lemma accept_log_segment:
  assumes "hist_ok cfg hist"
  shows "accept_batch rcfg (int c) (map Some (drop c (take m hist))) =
    Inr (let es = drop c (take m hist) in if int (length es) > rp_batch_size rcfg then take (nat (rp_batch_size rcfg)) es else es)"
proof -
  have "map the (map Some es) = es" for es :: "entry list" by (induction es) simp_all
  then show ?thesis
    unfolding accept_batch_def Let_def using log_segment_sorted [OF assms, of c m] by auto
qed

text \<open>Everything sent is acknowledged and the position is right; used at the points where it holds.\<close>

definition in_step :: "nat \<Rightarrow> 'ev rstate \<Rightarrow> bool" where
  "in_step s0 st \<longleftrightarrow> rs_since st = int (s0 + length (rs_sent st)) \<and> rs_acked st = map e_sequence (rs_sent st)"

definition repl_inv :: "nat \<Rightarrow> entry list \<Rightarrow> 'ev rstate \<Rightarrow> bool" where
  "repl_inv s0 hist st \<longleftrightarrow> prefix (rs_sent st) (drop s0 hist) \<and>
     (let rest = drop (s0 + length (rs_sent st)) hist in
      case rs_pc st of
        RpRead \<Rightarrow> in_step s0 st
      | RpPoll \<Rightarrow> in_step s0 st
      | RpNext es \<Rightarrow> in_step s0 st \<and> prefix es rest
      | RpSend e ev es b \<Rightarrow> in_step s0 st \<and> prefix (e # es) rest
      | RpBackoff e ev es b \<Rightarrow> in_step s0 st \<and> prefix (e # es) rest
      | RpAck e es \<Rightarrow> (\<exists>es'. rs_sent st = es' @ [e] \<and> rs_acked st = map e_sequence es') \<and> prefix es rest
      | RpStopped _ \<Rightarrow> rs_acked st = map e_sequence (rs_sent st) \<or>
                       (\<exists>es' e. rs_sent st = es' @ [e] \<and> rs_acked st = map e_sequence es'))"

lemma repl_inv_append:
  assumes "repl_inv s0 hist st"
  shows "repl_inv s0 (hist @ xs) st"
  using assms by (cases "rs_pc st") (auto simp: repl_inv_def Let_def intro: prefix_drop_append)

lemma sent_sequence:
  assumes "hist_ok cfg hist" and "prefix (es @ [e]) (drop s0 hist)"
  shows "e_sequence e = int (s0 + length es) + 1"
proof -
  from assms(2) obtain zs where zs: "drop s0 hist = es @ e # zs" by (auto simp: prefix_def)
  then have "length (drop s0 hist) > length es" by simp
  then have lt: "s0 + length es < length hist" by simp
  have "hist ! (s0 + length es) = drop s0 hist ! length es" using lt by simp
  also have "\<dots> = e" by (simp add: zs)
  finally show ?thesis using assms(1) lt by (auto simp: hist_ok_def)
qed

lemma repl_step_inv:
  assumes hist: "hist_ok cfg hist" and reader: "\<And>c xs. reader (int c) = Inr xs \<Longrightarrow> xs = map Some (drop c (take m hist))"
    and inv: "repl_inv s0 hist st"
  shows "repl_inv s0 hist (repl_step rcfg encode has_ack reader a st)"
proof (cases "rs_pc st")
  case RpRead
  then have st: "in_step s0 st" "prefix (rs_sent st) (drop s0 hist)" using inv by (simp_all add: repl_inv_def Let_def)
  let ?c = "s0 + length (rs_sent st)"
  let ?es = "drop ?c (take m hist)"
  have since: "rs_since st = int ?c" using st(1) by (simp add: in_step_def)
  show ?thesis
  proof (cases "if an_read_fails a then Inl (ErrCall ''read'') else reader (rs_since st)")
    case (Inl err)
    then have "repl_step rcfg encode has_ack reader a st = st\<lparr>rs_pc := RpStopped (ErrReadEntries err)\<rparr>"
      using RpRead by (simp add: repl_step_def)
    with st show ?thesis by (auto simp: repl_inv_def in_step_def Let_def)
  next
    case (Inr xs)
    then have rd: "\<not> an_read_fails a" "reader (rs_since st) = Inr (map Some ?es)"
      using reader [of ?c xs] by (auto simp: since split: if_splits)
    define es where "es = (if int (length ?es) > rp_batch_size rcfg then take (nat (rp_batch_size rcfg)) ?es else ?es)"
    have "prefix es (drop ?c hist)"
      using prefix_take_drop [of "nat (rp_batch_size rcfg)" ?c m hist] prefix_take_drop [of "length ?es" ?c m hist]
      by (simp add: es_def)
    moreover have "repl_step rcfg encode has_ack reader a st = st\<lparr>rs_pc := if ?es = [] then RpPoll else RpNext es\<rparr>"
    proof -
      have "accept_batch rcfg (rs_since st) (map Some ?es) = Inr es"
        unfolding since accept_log_segment [OF hist] es_def Let_def ..
      with RpRead rd show ?thesis by (simp add: repl_step_def)
    qed
    ultimately show ?thesis using st by (simp add: repl_inv_def in_step_def Let_def)
  qed
next
  case (RpNext es)
  with inv show ?thesis
    by (cases es) (auto simp: repl_step_def repl_inv_def in_step_def Let_def split: option.splits)
next
  case (RpSend e ev es b)
  then have st: "in_step s0 st" "prefix (rs_sent st) (drop s0 hist)" "prefix (e # es) (drop (s0 + length (rs_sent st)) hist)"
    using inv by (simp_all add: repl_inv_def Let_def)
  from prefix_snoc_drop [OF st(2,3)] RpSend st show ?thesis
    by (auto simp: repl_step_def repl_inv_def in_step_def Let_def split: option.splits)
next
  case (RpAck e es)
  then obtain es' where st: "rs_sent st = es' @ [e]" "rs_acked st = map e_sequence es'"
    "prefix es (drop (s0 + length (rs_sent st)) hist)" "prefix (rs_sent st) (drop s0 hist)"
    using inv by (auto simp: repl_inv_def Let_def)
  have "e_sequence e = int (s0 + length es') + 1" using sent_sequence [OF hist] st(1,4) by metis
  with RpAck st show ?thesis by (auto simp: repl_step_def repl_inv_def in_step_def Let_def)
qed (use inv in \<open>auto simp: repl_step_def repl_inv_def in_step_def Let_def\<close>)

lemma wal_exec_appends: "\<exists>xs. snd (snd (wal_exec put (w, s, hist) op)) = hist @ xs"
  by (cases op) (auto simp: split: prod.splits)

text \<open>The whole system: the log's invariant and the replicator's, over the same history.\<close>

fun replication_inv :: "wal_config \<Rightarrow> nat \<Rightarrow> 'ev repl_system \<Rightarrow> bool" where
  "replication_inv cfg s0 ((w, s, hist), st) \<longleftrightarrow>
     fs_inv s \<and> log_inv fs_get fs_list cfg (w, s, hist) \<and> repl_inv s0 hist st"

lemma log_source_decoded:
  assumes "hist_ok cfg hist" and "wal_stored fs_get fs_list s cfg hist m" and "m \<le> length hist"
    and "list_all entry_in_range hist" and "wr_prefix r = cfg_prefix cfg" and "wr_region r = cfg_region cfg"
  shows "log_source s r (int c) =
    (if list_all long_enough (drop c (take m hist)) then Inr (map Some (drop c (take m hist)))
     else Inl (ErrWal (ErrInvalidEntry ''data too short'')))"
  using file_objects.read_entries_decoded [OF assms, of c] by (simp add: log_source_def decoded_def)

lemma replication_step_inv:
  assumes "wal_keys_ok canonical cfg" and "wr_prefix r = cfg_prefix cfg" and "wr_region r = cfg_region cfg"
    and "replication_inv cfg s0 sys" and "list_all entry_in_range (snd (snd (fst sys)))"
  shows "replication_inv cfg s0 (replication_step rcfg encode has_ack r sys op)"
proof -
  obtain w s hist st where sys: "sys = ((w, s, hist), st)" by (metis prod_cases3 prod.collapse)
  from assms(4) have inv: "fs_inv s" "log_inv fs_get fs_list cfg (w, s, hist)" "repl_inv s0 hist st"
    by (simp_all add: sys)
  show ?thesis
  proof (cases op)
    case (ReplWriter wop)
    obtain w' s' hist' where e: "wal_exec fs_put (w, s, hist) wop = (w', s', hist')" by (metis prod_cases3)
    moreover obtain xs where "hist' = hist @ xs" using wal_exec_appends [of fs_put w s hist wop] e by auto
    ultimately show ?thesis
      using file_objects.wal_exec_inv [OF assms(1), of "(w, s, hist)" wop] inv repl_inv_append
      by (simp add: sys ReplWriter)
  next
    case (ReplStep a)
    obtain k m where h: "hist_ok cfg hist" "m \<le> length hist" "wal_stored fs_get fs_list s cfg hist m"
      using inv(2) by (rule log_invE)
    have "list_all entry_in_range hist" using assms(5) by (simp add: sys)
    have "xs = map Some (drop c (take m hist))" if "log_source s r (int c) = Inr xs" for c xs
      using log_source_decoded [OF h(1,3,2) \<open>list_all entry_in_range hist\<close> assms(2,3), of c] that by (simp split: if_splits)
    then have "repl_inv s0 hist (repl_step rcfg encode has_ack (log_source s r) a st)"
      by (rule repl_step_inv [OF h(1) _ inv(3)])
    with inv show ?thesis by (simp add: sys ReplStep)
  qed
qed

lemma replication_run_inv:
  assumes "wal_keys_ok canonical cfg" and "wr_prefix r = cfg_prefix cfg" and "wr_region r = cfg_region cfg"
    and "replication_inv cfg s0 sys"
    and "foldl (replication_step rcfg encode has_ack r) sys ops = ((w, s, hist), st)" and "list_all entry_in_range hist"
  shows "replication_inv cfg s0 ((w, s, hist), st)"
  using assms(4,5)
proof (induction ops arbitrary: sys)
  case (Cons op ops)
  have grow: "\<exists>xs. snd (snd (fst (foldl (replication_step rcfg encode has_ack r) sy os))) = snd (snd (fst sy)) @ xs" for sy os
  proof (induction os arbitrary: sy)
    case (Cons o1 os)
    obtain w s hist st where sy: "sy = ((w, s, hist), st)" by (metis prod_cases3 prod.collapse)
    have "\<exists>xs. snd (snd (fst (replication_step rcfg encode has_ack r sy o1))) = hist @ xs"
      using wal_exec_appends [of fs_put w s hist] by (cases o1) (auto simp: sy)
    with Cons.IH [of "replication_step rcfg encode has_ack r sy o1"] show ?case by (auto simp: sy)
  qed simp
  have "list_all entry_in_range (snd (snd (fst sys)))"
    using grow [of sys "op # ops"] Cons.prems(2) assms(6) by auto
  then have "replication_inv cfg s0 (replication_step rcfg encode has_ack r sys op)"
    using replication_step_inv [OF assms(1-3) Cons.prems(1)] by blast
  with Cons.IH Cons.prems(2) show ?case by simp
qed simp

text \<open>Progress when nothing fails.\<close>

definition quiet_answer :: "repl_answer \<Rightarrow> bool" where
  "quiet_answer a \<longleftrightarrow> \<not> an_read_fails a \<and> an_send a = None \<and> \<not> an_ack_fails a \<and> \<not> an_canceled a"

lemma send_batch:
  assumes "quiet_answer a" and "\<And>e. \<exists>ev. encode e = Some (Some ev)"
    and "rs_pc st = RpNext es" and "rs_since st = int c" and "\<And>i. i < length es \<Longrightarrow> e_sequence (es ! i) = int (c + i) + 1"
  shows "(repl_step rcfg encode has_ack reader a ^^ (3 * length es)) st =
    st\<lparr>rs_pc := RpNext [], rs_since := int (c + length es), rs_sent := rs_sent st @ es,
       rs_acked := rs_acked st @ map e_sequence es\<rparr>"
  using assms(3-5)
proof (induction es arbitrary: st c)
  case Nil
  then show ?case by (cases st) simp
next
  case (Cons e es)
  let ?f = "repl_step rcfg encode has_ack reader a"
  have e: "e_sequence e = int c + 1" using Cons.prems(3) [of 0] by simp
  obtain ev where ev: "encode e = Some (Some ev)" using assms(2) by blast
  let ?st = "st\<lparr>rs_pc := RpNext es, rs_since := int (Suc c), rs_sent := rs_sent st @ [e], rs_acked := rs_acked st @ [e_sequence e]\<rparr>"
  have three: "?f (?f (?f st)) = ?st"
    using Cons.prems(1,2) e ev assms(1) by (simp add: repl_step_def quiet_answer_def)
  have "(?f ^^ (3 * length es)) ?st =
      ?st\<lparr>rs_pc := RpNext [], rs_since := int (Suc c + length es), rs_sent := rs_sent ?st @ es,
          rs_acked := rs_acked ?st @ map e_sequence es\<rparr>"
    by (rule Cons.IH) (use Cons.prems(3) [of "Suc _"] in auto)
  moreover have "(?f ^^ (3 * length (e # es))) st = (?f ^^ (3 * length es)) (?f (?f (?f st)))"
    by (simp add: numeral_3_eq_3 funpow_swap1)
  ultimately show ?case by (simp add: three)
qed

lemma send_everything:
  assumes quiet: "quiet_answer a" and enc: "\<And>e. \<exists>ev. encode e = Some (Some ev)" and hist: "hist_ok cfg hist"
    and reader: "\<And>c. reader (int c) = Inr (map Some (drop c (take m hist)))" and m: "m \<le> length hist"
    and batch: "0 < rp_batch_size rcfg"
    and "rs_pc st = RpRead" and "rs_since st = int c" and "c \<le> m"
  shows "\<exists>n. (repl_step rcfg encode has_ack reader a ^^ n) st =
    st\<lparr>rs_since := int m, rs_sent := rs_sent st @ drop c (take m hist),
       rs_acked := rs_acked st @ map e_sequence (drop c (take m hist))\<rparr>"
  using assms(7-9)
proof (induction "m - c" arbitrary: st c rule: less_induct)
  case less
  let ?f = "repl_step rcfg encode has_ack reader a" and ?all = "drop c (take m hist)"
  show ?case
  proof (cases "c = m")
    case True
    with less.prems show ?thesis by (intro exI [of _ 0]) (cases st, simp)
  next
    case False
    with less.prems(3) m have ne: "?all \<noteq> []" by simp
    define es where "es = (if int (length ?all) > rp_batch_size rcfg then take (nat (rp_batch_size rcfg)) ?all else ?all)"
    define d where "d = c + length es"
    have es: "es = take (length es) ?all" "es \<noteq> []" "length es \<le> m - c"
      using ne batch m by (auto simp: es_def)
    have acc: "accept_batch rcfg (int c) (map Some ?all) = Inr es"
      unfolding accept_log_segment [OF hist] es_def Let_def ..
    have first: "?f st = st\<lparr>rs_pc := RpNext es\<rparr>"
      using less.prems(1,2) quiet ne acc by (simp add: repl_step_def reader quiet_answer_def)
    have nth: "e_sequence (es ! i) = int (c + i) + 1" if "i < length es" for i
    proof -
      have "es ! i = hist ! (c + i)" "c + i < length hist"
        using that es(3) m less.prems(3) by (subst es(1), simp_all)
      with hist show ?thesis by (simp add: hist_ok_def)
    qed
    have batch_sent: "(?f ^^ (3 * length es)) (?f st) =
        st\<lparr>rs_pc := RpNext [], rs_since := int d, rs_sent := rs_sent st @ es, rs_acked := rs_acked st @ map e_sequence es\<rparr>"
      using send_batch [where encode = encode and st = "st\<lparr>rs_pc := RpNext es\<rparr>" and es = es and c = c and
          rcfg = rcfg and has_ack = has_ack and reader = reader, OF quiet enc] less.prems(2) nth first
      by (simp add: d_def)
    let ?st = "st\<lparr>rs_pc := RpRead, rs_since := int d, rs_sent := rs_sent st @ es, rs_acked := rs_acked st @ map e_sequence es\<rparr>"
    have round: "(?f ^^ (3 * length es + 2)) st = ?st"
    proof -
      have "(?f ^^ (3 * length es + 2)) st = ?f ((?f ^^ (3 * length es)) (?f st))"
        by (simp add: funpow_swap1)
      also have "\<dots> = ?st" unfolding batch_sent by (simp add: repl_step_def)
      finally show ?thesis .
    qed
    have "0 < length es" using es(2) by simp
    with es(3) have "d \<le> m" "m - d < m - c" using less.prems(3) unfolding d_def by linarith+
    then obtain n where n: "(?f ^^ n) ?st = ?st\<lparr>rs_since := int m, rs_sent := rs_sent ?st @ drop d (take m hist),
        rs_acked := rs_acked ?st @ map e_sequence (drop d (take m hist))\<rparr>"
      using less.hyps [of d ?st] by auto
    have "es @ drop d (take m hist) = ?all"
      using es(1) by (metis append_take_drop_id d_def drop_drop add.commute)
    then have "(?f ^^ n) ?st = st\<lparr>rs_since := int m, rs_sent := rs_sent st @ ?all,
        rs_acked := rs_acked st @ map e_sequence ?all\<rparr>"
      using n less.prems(1) by (cases st) (auto simp flip: map_append)
    moreover have "(?f ^^ (n + (3 * length es + 2))) st = (?f ^^ n) ?st"
      unfolding funpow_add [of n "3 * length es + 2" ?f] o_apply round ..
    ultimately show ?thesis by metis
  qed
qed

section \<open>Properties\<close>

text \<open>
  C4. Replication is in order and complete. One writer and one replicator over the same log run in
  any interleaving; appends, flushes, reads, sends and acknowledgements may fail or be retried at
  any point, and the replicator may stop with any error; the epochs and times of the entries fit the
  64 bits they are stored in. The entries that were sent without an error are exactly the entries of
  the log that follow the resume position, up to some point: none is skipped, repeated or reordered.
  The acknowledged sequence numbers are those of these entries, in order, without at most the last
  one. A send that fails does not count, although it may have reached the peer, which then gets the
  entry again and recognises it by its admission.
\<close>

theorem replication_in_order:
  assumes "canonical (wal_dir cfg)" and "canonical (cfg_prefix cfg)" and "fs_inv s0" and "fs_files s0 = []"
    and "new_writer fs_list s0 cfg = Inr w0" and "new_wal_reader (cfg_region cfg) (cfg_prefix cfg) 0 = Inr r"
    and "foldl (replication_step rcfg encode has_ack r) ((w0, s0, []), repl_start (int n)) ops = ((w, s, hist), st)"
    and "list_all entry_in_range hist"
  shows "prefix (rs_sent st) (drop n hist) \<and>
    (rs_acked st = map e_sequence (rs_sent st) \<or>
     (\<exists>es e. rs_sent st = es @ [e] \<and> rs_acked st = map e_sequence es))"
proof -
  have run: "foldl (wal_exec fs_put) (w0, s0, []) [] = (w0, s0, [])" by simp
  note log = file_log_run [OF assms(1-5) run]
  have r: "wr_prefix r = cfg_prefix cfg" "wr_region r = cfg_region cfg"
    using assms(6) canonical_trim_suffix [OF assms(2)]
    by (auto simp: new_wal_reader_def new_reader_def split: if_splits)
  have "replication_inv cfg n ((w0, s0, []), repl_start (int n))"
    using log by (simp add: repl_inv_def repl_start_def in_step_def)
  from replication_run_inv [OF log(1) r this assms(7,8)]
  have "repl_inv n hist st" by simp
  then show ?thesis by (cases "rs_pc st") (auto simp: repl_inv_def in_step_def Let_def)
qed

definition sample_rcfg :: replicator_config where
  "sample_rcfg = \<lparr>rp_batch_size = 2, rp_poll_interval = 1, rp_retry_initial = 1, rp_retry_max = 4\<rparr>"

definition sample_repl_answer :: repl_answer where
  "sample_repl_answer = \<lparr>an_read_fails = False, an_send = None, an_ack_fails = False, an_canceled = False\<rparr>"

definition sample_wal_reader :: wal_reader where
  "sample_wal_reader = \<lparr>wr_prefix = ''wal'', wr_region = ''eu''\<rparr>"

theorem replication_in_order_witness:
  "\<exists>st :: string rstate. prefix (rs_sent st) (drop 0 [sample_logged]) \<and> rs_sent st = [sample_logged] \<and> rs_acked st = [1]"
proof -
  let ?s = "sample_store\<lparr>fs_faults := []\<rparr>"
  let ?append = "OpAppend (sample_entry\<lparr>e_region := []\<rparr>) True (unix_epoch + 5)"
  let ?step = "replication_step sample_rcfg (\<lambda>e. Some (Some (e_job_id e))) True sample_wal_reader"
  let ?ops = "ReplWriter ?append # replicate 4 (ReplStep sample_repl_answer)"
  obtain w s where run: "foldl (wal_exec fs_put) (sample_writer, ?s, []) [?append] = (w, s, [sample_logged])"
    and w: "w_pending w = []"
    using sample_durable_run by blast
  have s: "fs_inv ?s" "fs_files ?s = []" "new_writer fs_list ?s sample_cfg = Inr sample_writer"
    by (rule sample_clean_store)+
  have r: "new_wal_reader (cfg_region sample_cfg) (cfg_prefix sample_cfg) 0 = Inr sample_wal_reader"
    by code_simp
  have rd: "log_source s sample_wal_reader 0 = Inr [Some sample_logged]"
    using log_readers_agree_sample [OF run w] by (simp add: log_source_def sample_wal_reader_def)
  have sq: "e_sequence sample_logged = 1" by (simp add: sample_logged_def sample_entry_def)
  obtain st where st: "foldl ?step ((sample_writer, ?s, []), repl_start (int 0)) ?ops = ((w, s, [sample_logged]), st)"
    and sent: "rs_sent st = [sample_logged]" "rs_acked st = [1]"
    using run rd sq
    by (simp add: eval_nat_numeral repl_step_def repl_start_def sample_repl_answer_def accept_batch_def sample_rcfg_def)
  have "prefix (rs_sent st) (drop 0 [sample_logged])"
    using replication_in_order [OF sample_log_ok(1,2) s r st] sample_readable by (simp add: readable_def)
  with sent show ?thesis by blast
qed

text \<open>
  C29. Replication catches up: when nothing fails, every entry of the log can be decoded (its numbers
  fit their 64 bits and its strings have at least four bytes together) and the encoder yields an event
  for every entry, the replicator started at a position of a fully flushed log sends and acknowledges all the entries
  that follow it, and is back at reading the log, after finitely many steps.
\<close>

theorem replication_catches_up:
  assumes "canonical (wal_dir cfg)" and "canonical (cfg_prefix cfg)" and "fs_inv s0" and "fs_files s0 = []"
    and "new_writer fs_list s0 cfg = Inr w0" and "new_wal_reader (cfg_region cfg) (cfg_prefix cfg) 0 = Inr r"
    and "foldl (wal_exec fs_put) (w0, s0, []) ops = (w, s, hist)" and "list_all readable hist" and "w_pending w = []"
    and "new_replicator True rcfg0 = Inr rcfg" and "quiet_answer a" and "\<And>e. \<exists>ev. encode e = Some (Some ev)"
    and "n \<le> length hist"
  shows "\<exists>k. (repl_step rcfg encode has_ack (log_source s r) a ^^ k) (repl_start (int n)) =
    \<lparr>rs_pc = RpRead, rs_since = int (length hist), rs_sent = drop n hist, rs_acked = map e_sequence (drop n hist)\<rparr>"
proof -
  note log = file_log_run [OF assms(1-5,7)]
  obtain k m where h: "hist_ok cfg hist" "w_pending w = drop k hist" "k \<le> m" "m \<le> length hist"
    "wal_stored fs_get fs_list s cfg hist m"
    using log(3) by (rule log_invE)
  with assms(9) have m: "m = length hist" by simp
  have "wr_prefix r = cfg_prefix cfg" "wr_region r = cfg_region cfg"
    using assms(6) canonical_trim_suffix [OF assms(2)]
    by (auto simp: new_wal_reader_def new_reader_def split: if_splits)
  moreover have "list_all entry_in_range hist" "list_all long_enough (drop c (take m hist))" for c
    using assms(8) by (auto simp: list_all_iff readable_def dest!: in_set_takeD in_set_dropD)
  ultimately have reader: "log_source s r (int c) = Inr (map Some (drop c (take m hist)))" for c
    using log_source_decoded [OF h(1,5,4)] by simp
  have batch: "0 < rp_batch_size rcfg"
    using assms(10) by (auto simp: new_replicator_def Let_def or_default_def split: if_splits)
  show ?thesis
    using send_everything [where encode = encode and reader = "log_source s r" and cfg = cfg and st = "repl_start (int n)"
        and c = n and has_ack = has_ack, OF assms(11,12) h(1) reader h(4) batch] assms(13)
    by (simp add: repl_start_def m)
qed

theorem replication_catches_up_witness:
  "\<exists>s k. (repl_step sample_rcfg (\<lambda>e. Some (Some (e_job_id e))) True (log_source s sample_wal_reader) sample_repl_answer ^^ k)
     (repl_start (int 0)) =
   \<lparr>rs_pc = RpRead, rs_since = int (length [sample_logged]), rs_sent = drop 0 [sample_logged],
    rs_acked = map e_sequence (drop 0 [sample_logged])\<rparr>"
proof -
  obtain w s where run: "foldl (wal_exec fs_put) (sample_writer, sample_store\<lparr>fs_faults := []\<rparr>, [])
      [OpAppend (sample_entry\<lparr>e_region := []\<rparr>) True (unix_epoch + 5)] = (w, s, [sample_logged])" and w: "w_pending w = []"
    using sample_durable_run by blast
  have r: "new_wal_reader (cfg_region sample_cfg) (cfg_prefix sample_cfg) 0 = Inr sample_wal_reader"
    and c: "new_replicator True sample_rcfg = Inr sample_rcfg"
    by code_simp+
  show ?thesis
    using replication_catches_up [OF sample_log_ok(1,2) sample_clean_store r run _ w c, of sample_repl_answer _ 0]
    by (fastforce simp: sample_readable quiet_answer_def sample_repl_answer_def)
qed

end
