(* ===== verification/Channel.thy ===== *)
theory Channel
  imports Prelude
begin

text \<open>
  The cross-region channel (\<open>replication/channel/channel.go\<close>): the client's life cycle and
  \<open>SendEvent\<close>, the server's \<open>HandleEvent\<close>, and the events. Dialling a peer and the transport that
  delivers an event are parameters; TLS material is only checked for presence.
\<close>

datatype channel_error =
    ErrChannelClosed
  | ErrNoPeerEndpoint
  | ErrTLSConfigMissing
  | ErrTransportUnavailable
  | ErrInvalidEvent
  | ErrNilEvent
  | ErrTransport string
  | ErrDial string

datatype channel_event_type = EventTypeUnknown | EventTypeCheckpoint | EventTypeTopology | EventTypeHealth

definition event_type_text :: "channel_event_type \<Rightarrow> string" where
  "event_type_text t =
     (case t of EventTypeCheckpoint \<Rightarrow> ''checkpoint'' | EventTypeTopology \<Rightarrow> ''topology''
      | EventTypeHealth \<Rightarrow> ''health'' | EventTypeUnknown \<Rightarrow> ''unknown'')"

record channel_event =
  ch_type :: channel_event_type
  ch_source :: string
  ch_target :: string
  ch_timestamp :: instant
  ch_payload :: string

text \<open>A transport is the function it applies to an event; the factory makes one for a connection.\<close>

type_synonym transport = "channel_event \<Rightarrow> string option"

record channel_config =
  cc_region :: string
  cc_peer_region :: string
  cc_peer_endpoint :: string
  cc_ca_cert :: string
  cc_client_cert :: string
  cc_client_key :: string
  cc_server_name :: string
  cc_enable_tls :: bool
  cc_sender :: "transport option"
  cc_factory :: "(string \<Rightarrow> string \<Rightarrow> transport) option"

record client =
  cl_cfg :: channel_config
  cl_conn :: bool
  cl_closed :: bool
  cl_sent :: int
  cl_received :: int
  cl_last_error :: "string option"

definition new_client :: "channel_config \<Rightarrow> channel_error + client" where
  "new_client cfg =
     (if cc_peer_endpoint cfg = [] then Inl ErrNoPeerEndpoint
      else if cc_enable_tls cfg \<and> (cc_ca_cert cfg = [] \<or> cc_client_cert cfg = [] \<or> cc_client_key cfg = [] \<or>
                                   cc_server_name cfg = [])
      then Inl ErrTLSConfigMissing
      else Inr \<lparr>cl_cfg = cfg, cl_conn = False, cl_closed = False, cl_sent = 0, cl_received = 0, cl_last_error = None\<rparr>)"

text \<open>\<open>Connect\<close>; the argument is the error of loading the TLS material or of dialling, if any.\<close>

definition client_dial :: "string option \<Rightarrow> client \<Rightarrow> channel_error option \<times> client" where
  [effect_defs]: "client_dial failed c =
     (case failed of Some e \<Rightarrow> (Some (ErrDial e), c) | None \<Rightarrow> (None, c\<lparr>cl_conn := True\<rparr>))"

definition client_close :: "client \<Rightarrow> client" where
  [effect_defs]: "client_close c = (if cl_closed c then c else c\<lparr>cl_closed := True, cl_conn := False\<rparr>)"

definition client_sender :: "client \<Rightarrow> transport option" where
  "client_sender c =
     (case cc_sender (cl_cfg c) of
        Some t \<Rightarrow> Some t
      | None \<Rightarrow>
          if cl_conn c
          then map_option (\<lambda>f. f (cc_region (cl_cfg c)) (cc_peer_region (cl_cfg c))) (cc_factory (cl_cfg c))
          else None)"

definition client_send_event :: "client \<Rightarrow> channel_event option \<Rightarrow> channel_error option \<times> client" where
  [effect_defs]: "client_send_event c evo =
     (if cl_closed c then (Some ErrChannelClosed, c)
      else case evo of
        None \<Rightarrow> (Some ErrInvalidEvent, c)
      | Some ev \<Rightarrow>
          if ch_type ev = EventTypeUnknown \<or> ch_source ev = [] then (Some ErrInvalidEvent, c)
          else case client_sender c of
            None \<Rightarrow> (Some ErrTransportUnavailable, c)
          | Some t \<Rightarrow>
             (case t ev of
                Some e \<Rightarrow> (Some (ErrTransport e), c\<lparr>cl_last_error := Some e\<rparr>)
              | None \<Rightarrow> (None, c\<lparr>cl_sent := wrap64 (cl_sent c + 1)\<rparr>)))"

record channel_stats =
  cs_sent :: int
  cs_received :: int
  cs_connected :: bool
  cs_last_error :: string

definition client_stats :: "client \<Rightarrow> channel_stats" where
  "client_stats c = \<lparr>cs_sent = cl_sent c, cs_received = cl_received c, cs_connected = cl_conn c,
     cs_last_error = (case cl_last_error c of None \<Rightarrow> [] | Some e \<Rightarrow> e)\<rparr>"

text \<open>\<open>Server.HandleEvent\<close>: an event for another region is dropped without an error.\<close>

definition server_handle_event ::
  "string \<Rightarrow> (channel_event \<Rightarrow> 'e option) option \<Rightarrow> channel_event option \<Rightarrow> channel_error + 'e option" where
  "server_handle_event region handler evo =
     (case evo of
        None \<Rightarrow> Inl ErrNilEvent
      | Some ev \<Rightarrow>
          if ch_target ev \<noteq> [] \<and> ch_target ev \<noteq> region \<and> ch_target ev \<noteq> ''*'' then Inr None
          else Inr (case handler of None \<Rightarrow> None | Some h \<Rightarrow> h ev))"

definition new_health_event :: "string \<Rightarrow> string \<Rightarrow> bool \<Rightarrow> instant \<Rightarrow> channel_event" where
  "new_health_event source target healthy now =
     \<lparr>ch_type = EventTypeHealth, ch_source = source, ch_target = target, ch_timestamp = now,
      ch_payload = (if healthy then ''healthy'' else ''unhealthy'')\<rparr>"

definition new_checkpoint_event :: "string \<Rightarrow> string \<Rightarrow> string \<Rightarrow> int \<Rightarrow> instant \<Rightarrow> channel_event" where
  "new_checkpoint_event source target uri ep now =
     \<lparr>ch_type = EventTypeCheckpoint, ch_source = source, ch_target = target, ch_timestamp = now,
      ch_payload = ''checkpoint:'' @ uri @ '':epoch='' @ dec_int ep\<rparr>"

definition new_topology_event :: "string \<Rightarrow> string \<Rightarrow> int \<Rightarrow> instant \<Rightarrow> channel_event" where
  "new_topology_event source target version now =
     \<lparr>ch_type = EventTypeTopology, ch_source = source, ch_target = target, ch_timestamp = now,
      ch_payload = ''topology-version:'' @ dec_int version\<rparr>"

section \<open>Lemmas\<close>

text \<open>A closed client stays closed, sends nothing, and counts nothing.\<close>

lemma closed_client_sends_nothing:
  "cl_closed c \<Longrightarrow> client_send_event c evo = (Some ErrChannelClosed, c)"
  by (simp add: client_send_event_def)

lemma client_close_closed [simp]: "cl_closed (client_close c)"
  by (simp add: client_close_def)

lemma client_dial_closed [simp]: "cl_closed (snd (client_dial f c)) = cl_closed c"
  by (simp add: client_dial_def split: option.split)

lemma client_close_disconnects: "\<not> cl_closed c \<Longrightarrow> \<not> cl_conn (client_close c)"
  by (simp add: client_close_def)

lemma send_counts_successes:
  assumes "client_send_event c evo = (r, c')"
  shows "cl_sent c' = (if r = None then wrap64 (cl_sent c + 1) else cl_sent c)"
  using assms by (auto simp: client_send_event_def split: if_splits option.splits)

end
