(* ===== verification/ReplicationService.thy ===== *)
theory ReplicationService
  imports Promotion Replicator Channel
begin

text \<open>
  The receiving side of replication, in the API server
  (\<open>api-server/internal/replication/service.go\<close> and \<open>runtime_bridge.go\<close>). \<open>PushCheckpoint\<close> is a
  program counter with one step per critical section, database statement and send (the two statements
  of \<open>ClaimCheckpoint\<close>, and the look at a subscription and the send to it, are steps of their own), so that any
  number of pushes interleave with one another and with streams that come and go; the other
  handlers run under one lock. A Go channel is a queue of bounded length that may be closed. The
  context of a call is a choice per send: whether the \<open>ctx.Done()\<close> case is taken there.
\<close>

section \<open>Data\<close>

datatype event_type = CheckpointCompleted | CheckpointGap | EventTypeUnspecified

record checkpoint_event =
  ce_type :: event_type
  ce_entry :: "entry option"

record subscription =
  sub_job :: string
  sub_resume_from :: int
  sub_filter :: bool

record service =
  sv_regions :: "string list"
  sv_subscribers :: "(string, nat list) gomap"
  sv_subscription :: "(nat, subscription) gomap"
  sv_queues :: "(nat, checkpoint_event list) gomap"
  sv_closed :: "nat list"
  sv_acknowledged :: "(string, int) gomap"

datatype service_error =
    StatusError grpc_code
  | ContextDone
  | PanicClosedChannel

definition queue_capacity :: nat where
  "queue_capacity = 128"

definition subscribers_of :: "service \<Rightarrow> string \<Rightarrow> nat list" where
  "subscribers_of sv region = (case gget (sv_subscribers sv) region of None \<Rightarrow> [] | Some chs \<Rightarrow> chs)"

definition queue_of :: "service \<Rightarrow> nat \<Rightarrow> checkpoint_event list" where
  "queue_of sv ch = (case gget (sv_queues sv) ch of None \<Rightarrow> [] | Some q \<Rightarrow> q)"

definition acknowledged_of :: "service \<Rightarrow> string \<Rightarrow> int" where
  "acknowledged_of sv region = (case gget (sv_acknowledged sv) region of None \<Rightarrow> 0 | Some n \<Rightarrow> n)"

text \<open>Whether a subscription takes an entry; the zero value of a missing one takes everything.\<close>

definition takes :: "service \<Rightarrow> nat \<Rightarrow> entry \<Rightarrow> bool" where
  "takes sv ch e \<longleftrightarrow>
     (case gget (sv_subscription sv) ch of
        None \<Rightarrow> True
      | Some sub \<Rightarrow> (sub_job sub = [] \<or> sub_job sub = e_job_id e) \<and> \<not> (sub_filter sub \<and> e_sequence e \<le> sub_resume_from sub))"

text \<open>The \<open>select\<close> of one send: \<open>done_here\<close> says whether the context's case is taken.\<close>

definition send_to :: "bool \<Rightarrow> service \<Rightarrow> nat \<Rightarrow> checkpoint_event \<Rightarrow> service_error option \<times> service" where
  [effect_defs]: "send_to done_here sv ch ev =
     (if done_here then (Some ContextDone, sv)
      else if ch \<in> set (sv_closed sv) then (Some PanicClosedChannel, sv)
      else if length (queue_of sv ch) < queue_capacity
      then (None, sv\<lparr>sv_queues := gput ch (queue_of sv ch @ [ev]) (sv_queues sv)\<rparr>)
      else (Some (StatusError CodeResourceExhausted), sv))"

section \<open>Publishing and subscribing\<close>

text \<open>\<open>PublishCheckpoint\<close>, which holds the lock while it sends.\<close>

fun publish_to :: "(nat \<Rightarrow> bool) \<Rightarrow> service \<Rightarrow> nat list \<Rightarrow> checkpoint_event \<Rightarrow> entry \<Rightarrow> service_error option \<times> service" where
  "publish_to done_at sv [] ev e = (None, sv)"
| "publish_to done_at sv (ch # chs) ev e =
     (if \<not> takes sv ch e then publish_to done_at sv chs ev e
      else case send_to (done_at ch) sv ch ev of
        (Some err, sv') \<Rightarrow> (Some err, sv')
      | (None, sv') \<Rightarrow> publish_to done_at sv' chs ev e)"

definition publish_checkpoint :: "(nat \<Rightarrow> bool) \<Rightarrow> service \<Rightarrow> checkpoint_event option \<Rightarrow> service_error option \<times> service" where
  [effect_defs]: "publish_checkpoint done_at sv evo =
     (case evo of
        None \<Rightarrow> (Some (StatusError CodeInvalidArgument), sv)
      | Some ev \<Rightarrow>
         (case ce_entry ev of
            None \<Rightarrow> (Some (StatusError CodeInvalidArgument), sv)
          | Some e \<Rightarrow>
              publish_to done_at sv
                (concat (map snd (filter (\<lambda>(region, _). e_region e = [] \<or> e_region e = region) (sv_subscribers sv)))) ev e))"

text \<open>The two critical sections of \<open>StreamCheckpoints\<close>; \<open>ch\<close> is the new channel. What the stream takes
  from its queue in between is \<open>stream_receive\<close>.\<close>

definition stream_open :: "service \<Rightarrow> nat \<Rightarrow> string \<Rightarrow> string \<Rightarrow> int \<Rightarrow> service_error option \<times> service" where
  [effect_defs]: "stream_open sv ch region job resume =
     (if region = [] \<or> resume < 0 then (Some (StatusError CodeInvalidArgument), sv)
      else (None, sv\<lparr>sv_subscribers := gput region (subscribers_of sv region @ [ch]) (sv_subscribers sv),
                     sv_subscription := gput ch \<lparr>sub_job = job, sub_resume_from = resume, sub_filter = resume > 0\<rparr>
                                          (sv_subscription sv),
                     sv_queues := gput ch [] (sv_queues sv)\<rparr>))"

definition stream_close :: "service \<Rightarrow> nat \<Rightarrow> string \<Rightarrow> service" where
  [effect_defs]: "stream_close sv ch region =
     sv\<lparr>sv_subscribers := gput region (removeAll ch (subscribers_of sv region)) (sv_subscribers sv),
        sv_subscription := gdel ch (sv_subscription sv), sv_closed := ch # sv_closed sv\<rparr>"

definition stream_receive :: "service \<Rightarrow> nat \<Rightarrow> checkpoint_event option \<times> service" where
  [effect_defs]: "stream_receive sv ch =
     (case queue_of sv ch of
        [] \<Rightarrow> (None, sv)
      | ev # evs \<Rightarrow> (Some ev, sv\<lparr>sv_queues := gput ch evs (sv_queues sv)\<rparr>))"

datatype replication_instruction = InstructionContinue | InstructionPause

definition report_status ::
  "service \<Rightarrow> string \<Rightarrow> int \<Rightarrow> int \<Rightarrow> bool \<Rightarrow> (service_error + int \<times> replication_instruction) \<times> service" where
  [effect_defs]: "report_status sv region lag lst healthy =
     (if region = [] \<or> lag < 0 \<or> lst < 0 then (Inl (StatusError CodeInvalidArgument), sv)
      else let sv' = (if lst > acknowledged_of sv region
                      then sv\<lparr>sv_acknowledged := gput region lst (sv_acknowledged sv)\<rparr> else sv)
           in (Inr (acknowledged_of sv' region, if healthy then InstructionContinue else InstructionPause), sv'))"

section \<open>Pushing\<close>

record push_request =
  pu_event :: "checkpoint_event option"
  pu_source :: string
  pu_target :: string

datatype push_pc =
    PuValidate
  | PuClaim entry
  | PuLook entry
  | PuSnapshot entry
  | PuSend entry "nat list"
  | PuDeliver entry nat "nat list"
  | PuAck entry
  | PuCommit entry
  | PuRelease entry service_error
  | PuDone "service_error + int"

record push_answer =
  pa_fails :: bool
  pa_done :: bool

definition claim_error :: "pg_error \<Rightarrow> service_error" where
  "claim_error e =
     (case e of
        AdmissionConflict \<Rightarrow> StatusError CodeAlreadyExists
      | AdmissionInProgress \<Rightarrow> StatusError CodeResourceExhausted
      | _ \<Rightarrow> StatusError CodeInternal)"

text \<open>A failed send gives the admission back first, when there is a deduplicator.\<close>

definition after_failed_send :: "bool \<Rightarrow> entry \<Rightarrow> service_error \<Rightarrow> push_pc" where
  "after_failed_send dedup e err =
     (if err = PanicClosedChannel then PuDone (Inl err)
      else if dedup then PuRelease e err else PuDone (Inl err))"

definition admission_key_of :: "push_request \<Rightarrow> entry \<Rightarrow> admission_key" where
  "admission_key_of req e = (pu_source req, pu_target req, e_job_id e, e_sequence e)"

fun push_step :: "bool \<Rightarrow> push_request \<Rightarrow> push_answer \<Rightarrow> push_pc \<times> service \<times> repl_db \<Rightarrow> push_pc \<times> service \<times> repl_db" where
  "push_step dedup req a (PuValidate, sv, db) =
     (case (case pu_event req of None \<Rightarrow> None | Some ev \<Rightarrow> ce_entry ev) of
        None \<Rightarrow> (PuDone (Inl (StatusError CodeInvalidArgument)), sv, db)
      | Some e \<Rightarrow>
          if pu_source req = [] \<or> pu_target req = [] \<or> e_region e \<noteq> pu_source req \<or> e_sequence e < 0 \<or> e_epoch e < 0
          then (PuDone (Inl (StatusError CodeInvalidArgument)), sv, db)
          else (if dedup then PuClaim e else PuSnapshot e, sv, db))"
| "push_step dedup req a (PuClaim e, sv, db) =
     (if pu_source req = [] \<or> pu_target req = [] \<or> e_job_id e = [] \<or> e_sequence e < 0 \<or> e_epoch e < 0
      then (PuDone (Inl (claim_error PgInvalid)), sv, db)
      else case claim_insert (pa_fails a) db (pu_source req) (pu_target req) (e_job_id e) (e_sequence e) (e_epoch e)
             (e_checkpoint_uri e) (uint (e_crc32c e)) of
        (Inl err, db') \<Rightarrow> (PuDone (Inl (claim_error err)), sv, db')
      | (Inr True, db') \<Rightarrow> (PuSnapshot e, sv, db')
      | (Inr False, db') \<Rightarrow> (PuLook e, sv, db'))"
| "push_step dedup req a (PuLook e, sv, db) =
     (case claim_look (pa_fails a) db (pu_source req) (pu_target req) (e_job_id e) (e_sequence e)
             (checkpoint_fingerprint (pu_source req) (pu_target req) (e_job_id e) (e_sequence e) (e_epoch e)
               (e_checkpoint_uri e) (uint (e_crc32c e))) of
        Inl err \<Rightarrow> (PuDone (Inl (claim_error err)), sv, db)
      | Inr _ \<Rightarrow> (PuDone (Inr (e_sequence e)), sv, db))"
| "push_step dedup req a (PuSnapshot e, sv, db) = (PuSend e (subscribers_of sv (pu_target req)), sv, db)"
| "push_step dedup req a (PuSend e chs, sv, db) =
     (case chs of
        [] \<Rightarrow> (PuAck e, sv, db)
      | ch # rest \<Rightarrow> (if takes sv ch e then PuDeliver e ch rest else PuSend e rest, sv, db))"
| "push_step dedup req a (PuDeliver e ch rest, sv, db) =
     (case send_to (pa_done a) sv ch (the (pu_event req)) of
        (None, sv') \<Rightarrow> (PuSend e rest, sv', db)
      | (Some err, sv') \<Rightarrow> (after_failed_send dedup e err, sv', db))"
| "push_step dedup req a (PuAck e, sv, db) =
     (if dedup then PuCommit e else PuDone (Inr (e_sequence e)),
      if e_sequence e > acknowledged_of sv (pu_target req)
      then sv\<lparr>sv_acknowledged := gput (pu_target req) (e_sequence e) (sv_acknowledged sv)\<rparr> else sv, db)"
| "push_step dedup req a (PuCommit e, sv, db) =
     (case commit_checkpoint (pa_fails a) db (pu_source req) (pu_target req) (e_job_id e) (e_sequence e) of
        (None, db') \<Rightarrow> (PuDone (Inr (e_sequence e)), sv, db')
      | (Some _, db') \<Rightarrow> (PuRelease e (StatusError CodeInternal), sv, db'))"
| "push_step dedup req a (PuRelease e err, sv, db) =
     (PuDone (Inl err), sv, snd (release_checkpoint (pa_fails a) db (pu_source req) (pu_target req) (e_job_id e) (e_sequence e)))"
| "push_step dedup req a (PuDone r, sv, db) = (PuDone r, sv, db)"

text \<open>
  The whole service: a step of any push, or a stream that opens, closes or receives. A new stream's
  channel is one that was never used.
\<close>

type_synonym push_system = "push_pc list \<times> service \<times> repl_db"

inductive service_step :: "bool \<Rightarrow> push_request list \<Rightarrow> push_system \<Rightarrow> push_system \<Rightarrow> bool" for dedup reqs where
  step_push: "i < length reqs \<Longrightarrow> push_step dedup (reqs ! i) a (pcs ! i, sv, db) = (q, sv', db') \<Longrightarrow>
     service_step dedup reqs (pcs, sv, db) (pcs[i := q], sv', db')"
| step_open: "gget (sv_queues sv) ch = None \<Longrightarrow> stream_open sv ch region job resume = (None, sv') \<Longrightarrow>
     service_step dedup reqs (pcs, sv, db) (pcs, sv', db)"
| step_close: "ch \<in> set (subscribers_of sv region) \<Longrightarrow>
     service_step dedup reqs (pcs, sv, db) (pcs, stream_close sv ch region, db)"
| step_receive: "ch \<notin> set (sv_closed sv) \<Longrightarrow> stream_receive sv ch = (r, sv') \<Longrightarrow>
     service_step dedup reqs (pcs, sv, db) (pcs, sv', db)"

inductive_cases service_stepE: "service_step dedup reqs (pcs, sv, db) st'"

definition service_start :: "push_request list \<Rightarrow> service \<Rightarrow> repl_db \<Rightarrow> push_system" where
  "service_start reqs sv db = (replicate (length reqs) PuValidate, sv, db)"

section \<open>The bridges\<close>

text \<open>
  The encoder of log entries, the sender on the primary's side and the handler on the other. The
  protobuf codec and the peer's \<open>PushCheckpoint\<close> are parameters.
\<close>

definition checkpoint_encoder :: "(checkpoint_event \<Rightarrow> string option) \<Rightarrow> string \<Rightarrow> entry option \<Rightarrow> channel_error + channel_event" where
  "checkpoint_encoder marshal target eo =
     (case eo of
        None \<Rightarrow> Inl ErrInvalidEvent
      | Some e \<Rightarrow>
          if e_sequence e \<le> 0 \<or> e_region e = [] \<or> e_checkpoint_uri e = [] \<or> e_epoch e < 0 then Inl ErrInvalidEvent
          else case marshal \<lparr>ce_type = CheckpointCompleted, ce_entry = Some e\<rparr> of
            None \<Rightarrow> Inl (ErrTransport ''encode checkpoint event'')
          | Some payload \<Rightarrow>
              Inr \<lparr>ch_type = EventTypeCheckpoint, ch_source = e_region e, ch_target = target, ch_timestamp = 0,
                   ch_payload = payload\<rparr>)"

definition event_send ::
  "(string \<Rightarrow> checkpoint_event option) \<Rightarrow> (push_request \<Rightarrow> service_error + int) \<Rightarrow> channel_event option \<Rightarrow>
     (channel_error + service_error) option" where
  "event_send unmarshal push evo =
     (case evo of
        None \<Rightarrow> Some (Inl ErrInvalidEvent)
      | Some ev \<Rightarrow>
          if ch_type ev \<noteq> EventTypeCheckpoint \<or> ch_payload ev = [] then Some (Inl ErrInvalidEvent)
          else case unmarshal (ch_payload ev) of
            None \<Rightarrow> Some (Inl (ErrTransport ''decode checkpoint event''))
          | Some ce \<Rightarrow>
             (case ce_entry ce of
                None \<Rightarrow> Some (Inl ErrInvalidEvent)
              | Some e \<Rightarrow>
                 (case push \<lparr>pu_event = Some ce, pu_source = ch_source ev, pu_target = ch_target ev\<rparr> of
                    Inl err \<Rightarrow> Some (Inr err)
                  | Inr n \<Rightarrow> if n \<noteq> e_sequence e then Some (Inl (ErrTransport ''acknowledgement mismatch'')) else None)))"

definition event_handle ::
  "(string \<Rightarrow> checkpoint_event option) \<Rightarrow> (nat \<Rightarrow> bool) \<Rightarrow> service \<Rightarrow> channel_event option \<Rightarrow>
     (channel_error + service_error) option \<times> service" where
  [effect_defs]: "event_handle unmarshal done_at sv evo =
     (case evo of
        None \<Rightarrow> (Some (Inl ErrInvalidEvent), sv)
      | Some ev \<Rightarrow>
          if ch_type ev \<noteq> EventTypeCheckpoint \<or> ch_payload ev = [] then (Some (Inl ErrInvalidEvent), sv)
          else case unmarshal (ch_payload ev) of
            None \<Rightarrow> (Some (Inl (ErrTransport ''decode checkpoint event'')), sv)
          | Some ce \<Rightarrow> (case publish_checkpoint done_at sv (Some ce) of (err, sv') \<Rightarrow> (map_option Inr err, sv')))"

text \<open>The recovery handler, with the backend that remembers the recoveries it has finished.\<close>

record recover_request =
  rq_job :: string
  rq_source :: string
  rq_target :: string
  rq_new_epoch :: int
  rq_promotion :: string
  rq_key :: string

record recover_response =
  rp_job :: string
  rp_promotion :: string
  rp_state :: recovery_state
  rp_sequence :: int
  rp_epoch :: int

definition recovery_response :: "recover_request \<Rightarrow> recovery \<Rightarrow> recover_response" where
  "recovery_response req r =
     \<lparr>rp_job = rv_job_id r, rp_promotion = rq_promotion req, rp_state = rv_state r,
      rp_sequence = (case rv_checkpoint r of None \<Rightarrow> 0 | Some m \<Rightarrow> mf_sequence m),
      rp_epoch = (case rv_checkpoint r of None \<Rightarrow> rv_new_epoch r | Some m \<Rightarrow> mf_epoch m)\<rparr>"

definition backend_recover ::
  "recovery_deps \<Rightarrow> (string, recovery) gomap \<Rightarrow> recover_request \<Rightarrow> instant \<Rightarrow> instant \<Rightarrow>
     (recovery_error + recover_response) \<times> (string, recovery) gomap \<times> recovery_event list" where
  [effect_defs]: "backend_recover d active req started now =
     (let key = rq_job req @ [CHR 0x00] @ rq_promotion req in
      case gget active key of
        Some r \<Rightarrow> (Inr (recovery_response req r), active, [])
      | None \<Rightarrow>
         (case recover d (rq_job req) (rq_new_epoch req) started now of
            ((_, Some e), log) \<Rightarrow> (Inl e, active, log)
          | ((Some r, None), log) \<Rightarrow> (Inr (recovery_response req r), gput key r active, log)
          | ((None, None), log) \<Rightarrow> (Inl ErrRecoveryTransition, active, log)))"

text \<open>\<open>errors.Is\<close> looks through the wrapping.\<close>

fun map_recovery_error :: "recovery_error \<Rightarrow> service_error" where
  "map_recovery_error (ErrWrapped _ e) = map_recovery_error e"
| "map_recovery_error ErrCheckpointNotFound = StatusError CodeNotFound"
| "map_recovery_error (ErrCheckpointNotReplicated _) = StatusError CodeFailedPrecondition"
| "map_recovery_error (ErrCheckpointCorrupted _) = StatusError CodeFailedPrecondition"
| "map_recovery_error (ErrCheckpointEpochMismatch _ _) = StatusError CodeFailedPrecondition"
| "map_recovery_error ErrCheckpointSeqMismatch = StatusError CodeFailedPrecondition"
| "map_recovery_error (ErrRecoveryAborted _) = StatusError CodeFailedPrecondition"
| "map_recovery_error _ = StatusError CodeInternal"

definition recover_for_promotion ::
  "service \<Rightarrow> recovery_deps option \<Rightarrow> (string, recovery) gomap \<Rightarrow> recover_request option \<Rightarrow> instant \<Rightarrow> instant \<Rightarrow>
     (service_error + recover_response) \<times> (string, recovery) gomap \<times> recovery_event list" where
  [effect_defs]: "recover_for_promotion sv backend active ro started now =
     (case (backend, ro) of
        (None, _) \<Rightarrow> (Inl (StatusError CodeFailedPrecondition), active, [])
      | (_, None) \<Rightarrow> (Inl (StatusError CodeInvalidArgument), active, [])
      | (Some d, Some req) \<Rightarrow>
          if rq_job req = [] \<or> rq_source req = [] \<or> rq_target req = [] \<or> rq_promotion req = [] \<or> rq_key req = [] \<or>
             length (rq_key req) < 16 \<or> length (rq_key req) > 128 \<or> rq_source req = rq_target req \<or> rq_new_epoch req < 0 \<or>
             rq_source req \<notin> set (sv_regions sv) \<or> rq_target req \<notin> set (sv_regions sv)
          then (Inl (StatusError CodeInvalidArgument), active, [])
          else case backend_recover d active req started now of
            (Inl e, active', log) \<Rightarrow> (Inl (map_recovery_error e), active', log)
          | (Inr resp, active', log) \<Rightarrow> (Inr resp, active', log))"

section \<open>Lemmas: admissions under concurrent pushes\<close>

definition request_entry :: "push_request \<Rightarrow> entry option" where
  "request_entry req = (case pu_event req of None \<Rightarrow> None | Some ev \<Rightarrow> ce_entry ev)"

definition request_row :: "push_request \<Rightarrow> entry \<Rightarrow> admission" where
  "request_row req e = new_admission (pu_source req) (pu_target req) (e_job_id e) (e_sequence e) (e_epoch e)
     (e_checkpoint_uri e) (uint (e_crc32c e))"

text \<open>The entry whose admission a push holds, from the claim to the commit or the release.\<close>

fun held :: "push_pc \<Rightarrow> entry option" where
  "held (PuSnapshot e) = Some e"
| "held (PuSend e _) = Some e"
| "held (PuDeliver e _ _) = Some e"
| "held (PuAck e) = Some e"
| "held (PuCommit e) = Some e"
| "held (PuRelease e _) = Some e"
| "held _ = None"

definition admitted :: "push_request \<Rightarrow> repl_db \<Rightarrow> int \<Rightarrow> bool" where
  "admitted req db n \<longleftrightarrow>
     (\<exists>e a. request_entry req = Some e \<and> n = e_sequence e \<and> gget (db_admissions db) (admission_key_of req e) = Some a \<and>
        adm_committed a \<and> adm_fingerprint a = adm_fingerprint (request_row req e))"

definition push_inv :: "push_request \<Rightarrow> repl_db \<Rightarrow> push_pc \<Rightarrow> bool" where
  "push_inv req db pc \<longleftrightarrow>
     (\<forall>e. held pc = Some e \<longrightarrow> request_entry req = Some e \<and>
        gget (db_admissions db) (admission_key_of req e) = Some (request_row req e)) \<and>
     (\<forall>e. pc = PuClaim e \<or> pc = PuLook e \<longrightarrow> request_entry req = Some e) \<and>
     (\<forall>n. pc = PuDone (Inr n) \<longrightarrow> admitted req db n)"

text \<open>What a step does to the admissions: it claims a free key, or changes the one it holds.\<close>

definition touches :: "push_request \<Rightarrow> push_pc \<Rightarrow> repl_db \<Rightarrow> repl_db \<Rightarrow> bool" where
  "touches req pc db db' \<longleftrightarrow>
     (\<forall>k. gget (db_admissions db') k = gget (db_admissions db) k \<or> gget (db_admissions db) k = None \<or>
        (\<exists>e. held pc = Some e \<and> k = admission_key_of req e))"

lemma touches_refl [simp]: "touches req pc db db"
  by (simp add: touches_def)

lemma push_claim_inv:
  assumes "push_inv req db (PuClaim e)" and "push_step True req a (PuClaim e, sv, db) = (q, sv', db')"
  shows "push_inv req db' q \<and> touches req (PuClaim e) db db' \<and>
    (\<forall>e'. held q = Some e' \<longrightarrow> gget (db_admissions db) (admission_key_of req e') = None)"
proof -
  have e: "request_entry req = Some e" using assms(1) by (simp add: push_inv_def)
  with assms(2) show ?thesis
    by (auto simp: push_inv_def touches_def claim_insert_def admission_key_of_def request_row_def split: if_splits)
qed

lemma push_look_inv:
  assumes "push_inv req db (PuLook e)" and "push_step True req a (PuLook e, sv, db) = (q, sv', db')"
  shows "push_inv req db q \<and> db' = db \<and> held q = None"
proof -
  have e: "request_entry req = Some e" using assms(1) by (simp add: push_inv_def)
  with assms(2) show ?thesis
    by (auto simp: push_inv_def admitted_def claim_look_def admission_key_of_def request_row_def new_admission_def
        split: if_splits option.splits)
qed

lemma push_step_effect:
  assumes "push_inv req db pc" and "push_step True req a (pc, sv, db) = (q, sv', db')"
  shows "push_inv req db' q \<and> touches req pc db db' \<and>
    (\<forall>e. held q = Some e \<longrightarrow> held pc = Some e \<or> gget (db_admissions db) (admission_key_of req e) = None)"
proof (cases pc)
  case PuValidate
  with assms show ?thesis
    by (auto simp: push_inv_def request_entry_def split: option.splits if_splits)
next
  case (PuClaim e)
  from push_claim_inv [OF assms [unfolded PuClaim]] show ?thesis unfolding PuClaim by auto
next
  case (PuLook e)
  from push_look_inv [OF assms [unfolded PuLook]] show ?thesis unfolding PuLook by auto
next
  case (PuSend e chs)
  with assms show ?thesis by (cases chs) (auto simp: push_inv_def split: if_splits)
next
  case (PuDeliver e ch rest)
  with assms show ?thesis
    by (auto simp: push_inv_def after_failed_send_def split: option.splits if_splits prod.splits)
next
  case (PuCommit e)
  then have e: "request_entry req = Some e" "gget (db_admissions db) (admission_key_of req e) = Some (request_row req e)"
    using assms(1) by (simp_all add: push_inv_def)
  with assms(2) PuCommit show ?thesis
    by (auto simp: push_inv_def commit_checkpoint_def admitted_def touches_def admission_key_of_def split: if_splits option.splits)
next
  case (PuRelease e err)
  then have e: "request_entry req = Some e" "gget (db_admissions db) (admission_key_of req e) = Some (request_row req e)"
    using assms(1) by (simp_all add: push_inv_def)
  with assms(2) PuRelease show ?thesis
    by (auto simp: push_inv_def release_checkpoint_def touches_def admission_key_of_def split: if_splits)
qed (use assms in \<open>auto simp: push_inv_def admitted_def\<close>)

definition exclusive :: "push_request list \<Rightarrow> push_pc list \<Rightarrow> bool" where
  "exclusive reqs pcs \<longleftrightarrow>
     (\<forall>i j e e'. i < length reqs \<and> j < length reqs \<and> i \<noteq> j \<and> held (pcs ! i) = Some e \<and> held (pcs ! j) = Some e' \<longrightarrow>
        admission_key_of (reqs ! i) e \<noteq> admission_key_of (reqs ! j) e')"

fun service_inv :: "push_request list \<Rightarrow> push_system \<Rightarrow> bool" where
  "service_inv reqs (pcs, sv, db) \<longleftrightarrow> length pcs = length reqs \<and>
     (\<forall>i < length reqs. push_inv (reqs ! i) db (pcs ! i)) \<and> exclusive reqs pcs"

text \<open>A push's invariant survives what another push does.\<close>

lemma push_inv_other:
  assumes inv: "push_inv req db pc" and "touches req' pc' db db'" and inv': "push_inv req' db pc'"
    and excl: "\<And>e e'. held pc = Some e \<Longrightarrow> held pc' = Some e' \<Longrightarrow> admission_key_of req e \<noteq> admission_key_of req' e'"
  shows "push_inv req db' pc"
proof -
  have keep: "gget (db_admissions db') k = Some a"
    if "gget (db_admissions db) k = Some a" "\<And>e'. held pc' = Some e' \<Longrightarrow> k \<noteq> admission_key_of req' e'" for k a
    using assms(2) that unfolding touches_def by (metis option.distinct(1))
  have "admitted req db' n" if "pc = PuDone (Inr n)" for n
  proof -
    from inv that obtain e a where e: "request_entry req = Some e" "n = e_sequence e" "adm_committed a"
      "gget (db_admissions db) (admission_key_of req e) = Some a"
      "adm_fingerprint a = adm_fingerprint (request_row req e)"
      by (auto simp: push_inv_def admitted_def)
    have "admission_key_of req e \<noteq> admission_key_of req' e'" if "held pc' = Some e'" for e'
      using inv' that e(3,4) by (auto simp: push_inv_def request_row_def)
    with keep [OF e(4)] e show ?thesis unfolding admitted_def by blast
  qed
  with inv keep excl show ?thesis unfolding push_inv_def by blast
qed

lemma service_step_inv:
  assumes "service_step True reqs st st'" and "service_inv reqs st"
  shows "service_inv reqs st'"
  using assms(1)
proof cases
  case (step_push i a pcs sv db q sv' db')
  have len: "length pcs = length reqs" and inv: "\<And>j. j < length reqs \<Longrightarrow> push_inv (reqs ! j) db (pcs ! j)"
    and ex: "exclusive reqs pcs"
    using assms(2) by (simp_all add: step_push(1))
  note eff = push_step_effect [OF inv [OF step_push(3)] step_push(4)]
  have others: "push_inv (reqs ! j) db' (pcs ! j)" if "j < length reqs" "j \<noteq> i" for j
    by (rule push_inv_other [OF inv [OF that(1)] _ inv [OF step_push(3)]])
      (use eff ex that step_push(3) in \<open>auto simp: exclusive_def\<close>)
  have new: "admission_key_of (reqs ! i) e \<noteq> admission_key_of (reqs ! j) e'"
    if "j < length reqs" "j \<noteq> i" "held q = Some e" "held (pcs ! j) = Some e'" for j e e'
  proof (cases "held (pcs ! i) = Some e")
    case True
    with ex that step_push(3) show ?thesis unfolding exclusive_def by metis
  next
    case False
    with eff that(3) have "gget (db_admissions db) (admission_key_of (reqs ! i) e) = None" by blast
    moreover have "gget (db_admissions db) (admission_key_of (reqs ! j) e') \<noteq> None"
      using inv [OF that(1)] that(4) by (simp add: push_inv_def)
    ultimately show ?thesis by metis
  qed
  have "exclusive reqs (pcs[i := q])"
    unfolding exclusive_def
  proof (intro allI impI)
    fix j k e e'
    assume a: "j < length reqs \<and> k < length reqs \<and> j \<noteq> k \<and> held (pcs[i := q] ! j) = Some e \<and> held (pcs[i := q] ! k) = Some e'"
    consider "j = i" "k \<noteq> i" | "k = i" "j \<noteq> i" | "j \<noteq> i" "k \<noteq> i" using a by blast
    then show "admission_key_of (reqs ! j) e \<noteq> admission_key_of (reqs ! k) e'"
    proof cases
      case 1
      with a len new [of k e e'] step_push(3) show ?thesis by simp
    next
      case 2
      with a len new [of j e' e] step_push(3) show ?thesis by (metis nth_list_update_eq nth_list_update_neq)
    next
      case 3
      with a ex show ?thesis unfolding exclusive_def by (metis nth_list_update_neq)
    qed
  qed
  moreover have "push_inv (reqs ! j) db' (pcs[i := q] ! j)" if "j < length reqs" for j
    using eff others [OF that] len step_push(3) by (cases "j = i") simp_all
  ultimately show ?thesis by (simp add: step_push(2) len)
qed (use assms(2) in auto)

lemma service_reach_inv:
  assumes "(service_step True reqs)\<^sup>*\<^sup>* st st'" and "service_inv reqs st"
  shows "service_inv reqs st'"
  using assms by (induction rule: rtranclp_induct) (auto dest: service_step_inv)

lemma service_start_inv: "service_inv reqs (service_start reqs sv db)"
  by (auto simp: service_start_def push_inv_def exclusive_def)

section \<open>Properties\<close>

text \<open>
  C20. An acknowledged checkpoint is durably admitted. In any interleaving of any number of pushes
  with streams that open, close and receive, and with any database statements failing: when a push
  has answered with a sequence number, the database holds a committed admission for exactly the
  content it pushed; and of all the pushes of one checkpoint at most one is delivering at a time.
\<close>

theorem push_acknowledged_is_admitted:
  assumes "(service_step True reqs)\<^sup>*\<^sup>* (service_start reqs sv0 db0) (pcs, sv, db)" and "i < length reqs"
    and "pcs ! i = PuDone (Inr n)"
  shows "(\<exists>e a. request_entry (reqs ! i) = Some e \<and> n = e_sequence e \<and>
      gget (db_admissions db) (pu_source (reqs ! i), pu_target (reqs ! i), e_job_id e, e_sequence e) = Some a \<and>
      adm_committed a \<and>
      adm_fingerprint a = checkpoint_fingerprint (pu_source (reqs ! i)) (pu_target (reqs ! i)) (e_job_id e)
        (e_sequence e) (e_epoch e) (e_checkpoint_uri e) (uint (e_crc32c e))) \<and>
    exclusive reqs pcs"
proof -
  have "service_inv reqs (pcs, sv, db)" using service_reach_inv [OF assms(1) service_start_inv] .
  with assms(2,3) show ?thesis
    by (auto simp: push_inv_def admitted_def admission_key_of_def request_row_def new_admission_def)
qed

definition sample_event :: checkpoint_event where
  "sample_event = \<lparr>ce_type = CheckpointCompleted, ce_entry = Some sample_entry\<rparr>"

definition sample_push :: push_request where
  "sample_push = \<lparr>pu_event = Some sample_event, pu_source = ''eu'', pu_target = ''us''\<rparr>"

definition sample_push_answer :: push_answer where
  "sample_push_answer = \<lparr>pa_fails = False, pa_done = False\<rparr>"

definition sample_service :: "nat list \<Rightarrow> service" where
  "sample_service chs = \<lparr>sv_regions = [''eu'', ''us''], sv_subscribers = [(''us'', chs)], sv_subscription = [],
     sv_queues = [], sv_closed = [], sv_acknowledged = []\<rparr>"

text \<open>A push that runs alone: one answer per step.\<close>

fun push_run :: "bool \<Rightarrow> push_request \<Rightarrow> push_answer list \<Rightarrow> push_pc \<times> service \<times> repl_db \<Rightarrow> push_pc \<times> service \<times> repl_db" where
  "push_run dedup req [] st = st"
| "push_run dedup req (a # as) st = push_run dedup req as (push_step dedup req a st)"

lemma push_run_reach:
  assumes "i < length reqs" and "length pcs = length reqs" and "push_run dedup (reqs ! i) as (pcs ! i, sv, db) = (q, sv', db')"
  shows "(service_step dedup reqs)\<^sup>*\<^sup>* (pcs, sv, db) (pcs[i := q], sv', db')"
  using assms(2,3)
proof (induction as arbitrary: pcs sv db)
  case (Cons a as)
  obtain q1 sv1 db1 where s: "push_step dedup (reqs ! i) a (pcs ! i, sv, db) = (q1, sv1, db1)" by (metis prod_cases3)
  have "(service_step dedup reqs)\<^sup>*\<^sup>* (pcs[i := q1], sv1, db1) ((pcs[i := q1])[i := q], sv', db')"
    using Cons assms(1) s by (intro Cons.IH) simp_all
  then show ?case
    using step_push [OF assms(1) s] by (simp add: converse_rtranclp_into_rtranclp)
qed auto

lemmas push_sample_defs = sample_push_def sample_event_def sample_entry_def sample_push_answer_def sample_service_def
  empty_db_def subscribers_of_def takes_def send_to_def queue_of_def queue_capacity_def acknowledged_of_def

lemma sample_push_run:
  "\<exists>sv db. push_run True sample_push [sample_push_answer, sample_push_answer, sample_push_answer, sample_push_answer, sample_push_answer, sample_push_answer] (PuValidate, sample_service [], empty_db) =
     (PuDone (Inr 1), sv, db)"
  by (simp add: push_sample_defs claim_insert_def commit_checkpoint_def)

theorem push_acknowledged_is_admitted_witness:
  "\<exists>(db :: repl_db) (a :: admission). gget (db_admissions db) (''eu'', ''us'', e_job_id sample_entry, 1) = Some a \<and> adm_committed a"
proof -
  obtain sv db where run: "push_run True sample_push [sample_push_answer, sample_push_answer, sample_push_answer, sample_push_answer, sample_push_answer, sample_push_answer]
      (PuValidate, sample_service [], empty_db) = (PuDone (Inr 1), sv, db)"
    using sample_push_run by blast
  have "(service_step True [sample_push])\<^sup>*\<^sup>* (service_start [sample_push] (sample_service []) empty_db)
      ([PuDone (Inr 1)], sv, db)"
    using push_run_reach [of 0 "[sample_push]" "[PuValidate]" True, unfolded nth_Cons_0, OF _ _ run]
    by (simp add: service_start_def)
  from push_acknowledged_is_admitted [OF this, of 0 1] obtain e a where "request_entry sample_push = Some e"
    "1 = e_sequence e" "gget (db_admissions db) (pu_source sample_push, pu_target sample_push, e_job_id e, e_sequence e) = Some a"
    "adm_committed a"
    by auto
  moreover have "request_entry sample_push = Some sample_entry" "pu_source sample_push = ''eu''" "pu_target sample_push = ''us''"
    by (simp_all add: sample_push_def sample_event_def request_entry_def)
  ultimately have "gget (db_admissions db) (''eu'', ''us'', e_job_id sample_entry, 1) = Some a" by simp
  with \<open>adm_committed a\<close> show ?thesis by blast
qed

text \<open>A push between its list of subscribers and the delivery to the first of them, which ends meanwhile.\<close>

lemma closed_subscriber_panics:
  assumes "\<not> pa_done a" and "\<not> pa_done b"
  shows "push_run dedup req [a, b] (PuSend e (ch # rest), stream_close sv ch region, db) =
    (PuDone (Inl PanicClosedChannel), stream_close sv ch region, db)"
  using assms by (simp add: stream_close_def takes_def send_to_def after_failed_send_def)

definition valid_push :: "push_request \<Rightarrow> entry \<Rightarrow> bool" where
  "valid_push req e \<longleftrightarrow> request_entry req = Some e \<and> pu_source req \<noteq> [] \<and> pu_target req \<noteq> [] \<and>
     e_region e = pu_source req \<and> e_job_id e \<noteq> [] \<and> 0 \<le> e_sequence e \<and> 0 \<le> e_epoch e"

lemma push_to_snapshot:
  assumes "valid_push req e" and "gget (db_admissions db) (admission_key_of req e) = None"
  shows "\<exists>as db'. push_run dedup req as (PuValidate, sv, db) = (PuSend e (subscribers_of sv (pu_target req)), sv, db') \<and>
    (dedup \<longrightarrow> gget (db_admissions db') (admission_key_of req e) = Some (request_row req e))"
proof (rule exI [of _ "replicate (if dedup then 3 else 2) sample_push_answer"])
  show "\<exists>db'. push_run dedup req (replicate (if dedup then 3 else 2) sample_push_answer) (PuValidate, sv, db) =
      (PuSend e (subscribers_of sv (pu_target req)), sv, db') \<and>
    (dedup \<longrightarrow> gget (db_admissions db') (admission_key_of req e) = Some (request_row req e))"
    using assms
    by (auto simp: numeral_eq_Suc valid_push_def request_entry_def claim_insert_def admission_key_of_def request_row_def
        sample_push_answer_def split: option.splits)
qed

text \<open>
  C40. A stream that ends can bring the process down. Take any state of the service, with any other
  pushes under way, in which a valid push is about to start, its checkpoint has not been claimed and
  some stream is subscribed to its target region. Then there is a run in which that push panics: it
  takes its list of subscribers, the clean-up of the first stream closes the channel and removes the
  subscription, and the push, which sends without the lock, sends to the closed channel. With a
  deduplicator the claim is left behind, uncommitted, so that the next push of the checkpoint is
  refused as being in progress.
\<close>

theorem stream_end_panics_push:
  assumes "i < length reqs" and "length pcs = length reqs" and "pcs ! i = PuValidate" and "valid_push (reqs ! i) e"
    and "gget (db_admissions db) (admission_key_of (reqs ! i) e) = None"
    and "subscribers_of sv (pu_target (reqs ! i)) = ch # rest"
  shows "\<exists>sv' db'. (service_step dedup reqs)\<^sup>*\<^sup>* (pcs, sv, db) (pcs[i := PuDone (Inl PanicClosedChannel)], sv', db') \<and>
    (dedup \<longrightarrow> (\<exists>a. gget (db_admissions db') (admission_key_of (reqs ! i) e) = Some a \<and> \<not> adm_committed a))"
proof -
  let ?sv = "stream_close sv ch (pu_target (reqs ! i))"
  let ?pcs = "pcs[i := PuSend e (ch # rest)]"
  obtain as db' where run: "push_run dedup (reqs ! i) as (pcs ! i, sv, db) = (PuSend e (ch # rest), sv, db')"
    and claim: "dedup \<longrightarrow> gget (db_admissions db') (admission_key_of (reqs ! i) e) = Some (request_row (reqs ! i) e)"
    using push_to_snapshot [OF assms(4,5)] assms(3,6) by metis
  have "(service_step dedup reqs)\<^sup>*\<^sup>* (pcs, sv, db) (?pcs, sv, db')" by (rule push_run_reach [OF assms(1,2) run])
  also have "service_step dedup reqs (?pcs, sv, db') (?pcs, ?sv, db')" by (rule step_close) (simp add: assms(6))
  also have "(service_step dedup reqs)\<^sup>*\<^sup>* (?pcs, ?sv, db') (?pcs[i := PuDone (Inl PanicClosedChannel)], ?sv, db')"
    using closed_subscriber_panics [of sample_push_answer sample_push_answer] assms(1,2)
    by (intro push_run_reach [where as = "[sample_push_answer, sample_push_answer]"])
      (simp_all only: nth_list_update_eq length_list_update sample_push_answer_def push_answer.simps not_False_eq_True)
  finally show ?thesis
    using claim by (intro exI [of _ ?sv] exI [of _ db']) (simp add: request_row_def new_admission_def)
qed

theorem stream_end_panics_push_witness:
  "\<exists>sv' db'. (service_step True [sample_push])\<^sup>*\<^sup>* (service_start [sample_push] (sample_service [0]) empty_db)
     ([PuDone (Inl PanicClosedChannel)], sv', db') \<and>
    (\<exists>a. gget (db_admissions db') (''eu'', ''us'', e_job_id sample_entry, 1) = Some a \<and> \<not> adm_committed a)"
proof -
  have "valid_push sample_push sample_entry" "gget (db_admissions empty_db) (admission_key_of sample_push sample_entry) = None"
    "subscribers_of (sample_service [0]) (pu_target sample_push) = [0]"
    "admission_key_of sample_push sample_entry = (''eu'', ''us'', e_job_id sample_entry, 1)"
    by (simp_all add: push_sample_defs valid_push_def request_entry_def admission_key_of_def)
  then show ?thesis
    using stream_end_panics_push [of 0 "[sample_push]" "[PuValidate]" sample_entry empty_db "sample_service [0]" 0 "[]" True]
    by (simp add: service_start_def)
qed

end
