(* ===== verification/Runtime.thy ===== *)
theory Runtime
  imports Channel Replicator Promotion
begin

text \<open>
  The replication runtime of one process (\<open>replication/runtime/runtime.go\<close>, \<open>state.go\<close>): its
  assembly and its life cycle. \<open>Start\<close>, \<open>Close\<close>, the goroutine that watches the life-cycle context
  and the replicator goroutine are program counters with one step per critical section, blocking
  wait and unlocked write of the visible state; any number of calls interleave.
\<close>

section \<open>Assembly\<close>

datatype runtime_state = RtCreated | RtStarting | RtRunning | RtClosed | RtFailed

datatype runtime_error =
    ErrInvalidDependencies
  | ErrRuntimeClosed
  | ErrCreateChannel channel_error
  | ErrCreatePromotion promotion_error
  | ErrCreateReplicator replicator_error
  | ErrConnect channel_error
  | ErrLoadProgress pg_error
  | ErrCallerDone

text \<open>Which dependencies are there (not nil), and the parts of the configuration the runtime reads.\<close>

record runtime_params =
  pm_logger :: bool
  pm_metrics :: bool
  pm_event_handler :: bool
  pm_promotion_store :: bool
  pm_epoch_assigner :: bool
  pm_job_reader :: bool
  pm_job_writer :: bool
  pm_wal_reader :: bool
  pm_object_storage :: bool
  pm_manifest_parser :: bool
  pm_validator :: bool
  pm_restorer :: bool
  pm_event_encoder :: bool
  pm_progress :: bool
  pm_peer_region :: string
  pm_channel :: channel_config
  pm_replicator :: replicator_config
  pm_resume_from :: int

text \<open>The replicator goroutine: running, ended with an error, about to report it, done.\<close>

datatype repl_goroutine = RgRunning int | RgEnded bool | RgReport | RgDone

record runtime =
  rt_client :: client
  rt_replicator :: "replicator_config option"
  rt_resume_start :: int
  rt_region :: string
  rt_peer_region :: string
  rt_progress :: bool
  rt_state :: runtime_state
  rt_started :: bool
  rt_starting :: bool
  rt_closed :: bool
  rt_attempt :: nat
  rt_attempt_done :: bool
  rt_canceled :: bool
  rt_watcher_done :: bool
  rt_replication_start :: bool
  rt_goroutines :: "repl_goroutine list"

definition new_runtime :: "runtime_params \<Rightarrow> runtime_error + runtime" where
  "new_runtime p =
     (let cc = pm_channel p in
      if \<not> pm_logger p \<or> \<not> pm_metrics p \<or> cc_region cc = [] \<or> pm_peer_region p = [] \<or> cc_peer_endpoint cc = []
      then Inl ErrInvalidDependencies
      else if \<not> pm_event_handler p \<or> (cc_sender cc = None \<and> cc_factory cc = None) \<or> \<not> pm_promotion_store p \<or>
              \<not> pm_epoch_assigner p \<or> \<not> pm_job_reader p \<or> \<not> pm_job_writer p
      then Inl ErrInvalidDependencies
      else if \<not> pm_wal_reader p \<or> \<not> pm_object_storage p \<or> \<not> pm_manifest_parser p \<or> \<not> pm_validator p \<or> \<not> pm_restorer p
      then Inl ErrInvalidDependencies
      else case new_client cc of
        Inl e \<Rightarrow> Inl (ErrCreateChannel e)
      | Inr cl \<Rightarrow>
          if \<not> pm_logger p \<or> \<not> pm_promotion_store p \<or> \<not> pm_epoch_assigner p \<or> \<not> pm_job_reader p \<or> \<not> pm_job_writer p
          then Inl (ErrCreatePromotion ErrInvalidRequest)
          else
         (case (if pm_event_encoder p then map_sum id Some (new_replicator True (pm_replicator p)) else Inr None) of
            Inl e \<Rightarrow> Inl (ErrCreateReplicator e)
          | Inr rep \<Rightarrow>
              Inr \<lparr>rt_client = cl, rt_replicator = rep, rt_resume_start = pm_resume_from p, rt_region = cc_region cc,
                   rt_peer_region = pm_peer_region p, rt_progress = pm_progress p, rt_state = RtCreated,
                   rt_started = False, rt_starting = False, rt_closed = False, rt_attempt = 0, rt_attempt_done = True,
                   rt_canceled = False, rt_watcher_done = False, rt_replication_start = False, rt_goroutines = []\<rparr>))"

text \<open>\<open>Ready\<close> and \<open>State\<close>.\<close>

definition runtime_ready :: "runtime \<Rightarrow> bool" where
  "runtime_ready r \<longleftrightarrow> rt_state r = RtRunning"

section \<open>Start and Close\<close>

text \<open>
  \<open>StWait n\<close> waits for the end of attempt \<open>n\<close>; \<open>StFinish\<close> has the outcome of \<open>Connect\<close>; \<open>StReport\<close> has
  what the second critical section found.
\<close>

datatype start_pc =
    StEnter
  | StWait nat
  | StConnect
  | StFinish "runtime_error option"
  | StReport "runtime_error option" bool
  | StDone "runtime_error option"

datatype close_pc = ClEnter | ClWatcher | ClLook | ClReplicator | ClDone bool

definition start_enter :: "runtime \<Rightarrow> start_pc \<times> runtime" where
  [effect_defs]: "start_enter r =
     (if rt_closed r then (StDone (Some ErrRuntimeClosed), r)
      else if rt_started r then (StDone None, r)
      else if rt_starting r then (StWait (rt_attempt r), r)
      else (StConnect, r\<lparr>rt_starting := True, rt_state := RtStarting, rt_attempt := Suc (rt_attempt r), rt_attempt_done := False\<rparr>))"

text \<open>The second critical section; \<open>load\<close> is what \<open>LoadReplicationProgress\<close> returns in it.\<close>

definition start_finish :: "pg_error + int \<Rightarrow> runtime_error option \<Rightarrow> runtime \<Rightarrow> start_pc \<times> runtime" where
  [effect_defs]: "start_finish load err r =
     (let r1 = r\<lparr>rt_starting := False, rt_attempt_done := True\<rparr> in
      if err \<noteq> None \<or> rt_closed r then (StReport err (rt_closed r), r1)
      else if rt_replicator r = None
      then (StReport None False, r1\<lparr>rt_started := True, rt_replication_start := True\<rparr>)
      else case (if rt_progress r then load else Inr (rt_resume_start r)) of
        Inl e \<Rightarrow> (StReport (Some (ErrLoadProgress e)) False, r1)
      | Inr stored \<Rightarrow>
          (StReport None False,
           r1\<lparr>rt_started := True, rt_replication_start := True,
              rt_goroutines := rt_goroutines r @ [RgRunning (max stored (rt_resume_start r))]\<rparr>))"

definition start_report :: "runtime_error option \<Rightarrow> bool \<Rightarrow> runtime \<Rightarrow> start_pc \<times> runtime" where
  [effect_defs]: "start_report err closed r =
     (case err of
        Some e \<Rightarrow> (StDone (Some e), r\<lparr>rt_state := RtFailed\<rparr>)
      | None \<Rightarrow>
          if closed then (StDone (Some ErrRuntimeClosed), r\<lparr>rt_state := RtClosed, rt_client := client_close (rt_client r)\<rparr>)
          else if \<not> rt_started r then (StDone None, r\<lparr>rt_state := RtFailed\<rparr>)
          else (StDone None, r\<lparr>rt_state := RtRunning\<rparr>))"

text \<open>
  The steps of the system. \<open>failed\<close> is the outcome of dialling; a wait takes no step until what it
  waits for has happened or, for a caller with a context, the caller gives up.
\<close>

inductive start_step :: "start_pc \<times> runtime \<Rightarrow> start_pc \<times> runtime \<Rightarrow> bool" where
  st_enter: "start_enter r = st' \<Longrightarrow> start_step (StEnter, r) st'"
| st_wait_done: "rt_attempt r \<noteq> n \<or> rt_attempt_done r \<Longrightarrow> start_step (StWait n, r) (StEnter, r)"
| st_wait_caller: "start_step (StWait n, r) (StDone (Some ErrCallerDone), r)"
| st_connect: "client_dial failed (rt_client r) = (e, c) \<Longrightarrow>
     start_step (StConnect, r) (StFinish (map_option ErrConnect e), r\<lparr>rt_client := c\<rparr>)"
| st_finish: "start_finish load err r = st' \<Longrightarrow> start_step (StFinish err, r) st'"
| st_report: "start_report err closed r = st' \<Longrightarrow> start_step (StReport err closed, r) st'"

inductive close_step :: "close_pc \<times> runtime \<Rightarrow> close_pc \<times> runtime \<Rightarrow> bool" where
  cl_again: "rt_closed r \<Longrightarrow> close_step (ClEnter, r) (ClDone False, r)"
| cl_enter: "\<not> rt_closed r \<Longrightarrow>
     close_step (ClEnter, r) (ClWatcher, r\<lparr>rt_closed := True, rt_state := RtClosed, rt_canceled := True\<rparr>)"
| cl_watcher: "rt_watcher_done r \<Longrightarrow> close_step (ClWatcher, r) (ClLook, r)"
| cl_look: "close_step (ClLook, r) (if rt_replication_start r then ClReplicator else ClDone True, r)"
| cl_replicator: "list_all (\<lambda>g. g = RgDone) (rt_goroutines r) \<Longrightarrow> close_step (ClReplicator, r) (ClDone True, r)"

text \<open>
  The two kinds of goroutine. \<open>runReplicator\<close> ends when \<open>Run\<close> returns (with or without an error other
  than cancellation), looks at \<open>closed\<close>, and then writes the state.
\<close>

inductive background_step :: "runtime \<Rightarrow> runtime \<Rightarrow> bool" where
  bg_watcher: "rt_canceled r \<Longrightarrow> \<not> rt_watcher_done r \<Longrightarrow>
     background_step r (r\<lparr>rt_client := client_close (rt_client r), rt_watcher_done := True\<rparr>)"
| bg_end: "i < length (rt_goroutines r) \<Longrightarrow> rt_goroutines r ! i = RgRunning n \<Longrightarrow>
     background_step r (r\<lparr>rt_goroutines := (rt_goroutines r)[i := RgEnded failed]\<rparr>)"
| bg_look: "i < length (rt_goroutines r) \<Longrightarrow> rt_goroutines r ! i = RgEnded failed \<Longrightarrow>
     background_step r (r\<lparr>rt_goroutines := (rt_goroutines r)[i := if failed \<and> \<not> rt_closed r then RgReport else RgDone]\<rparr>)"
| bg_report: "i < length (rt_goroutines r) \<Longrightarrow> rt_goroutines r ! i = RgReport \<Longrightarrow>
     background_step r (r\<lparr>rt_state := RtFailed, rt_goroutines := (rt_goroutines r)[i := RgDone]\<rparr>)"

type_synonym runtime_system = "start_pc list \<times> close_pc list \<times> runtime"

inductive runtime_step :: "runtime_system \<Rightarrow> runtime_system \<Rightarrow> bool" where
  rt_start: "i < length ss \<Longrightarrow> start_step (ss ! i, r) (q, r') \<Longrightarrow> runtime_step (ss, cs, r) (ss[i := q], cs, r')"
| rt_close: "i < length cs \<Longrightarrow> close_step (cs ! i, r) (q, r') \<Longrightarrow> runtime_step (ss, cs, r) (ss, cs[i := q], r')"
| rt_background: "background_step r r' \<Longrightarrow> runtime_step (ss, cs, r) (ss, cs, r')"

section \<open>Lemmas\<close>

definition busy :: "start_pc \<Rightarrow> bool" where
  "busy pc \<longleftrightarrow> pc = StConnect \<or> (\<exists>e. pc = StFinish e)"

text \<open>At most one start attempt is under way, and the replicator runs only after one succeeded.\<close>

definition launch_inv :: "start_pc list \<Rightarrow> runtime \<Rightarrow> bool" where
  "launch_inv ss r \<longleftrightarrow>
     (\<forall>i < length ss. busy (ss ! i) \<longrightarrow> rt_starting r) \<and>
     (\<forall>i < length ss. \<forall>j < length ss. i \<noteq> j \<longrightarrow> \<not> (busy (ss ! i) \<and> busy (ss ! j))) \<and>
     (rt_starting r \<longrightarrow> \<not> rt_started r) \<and> (\<not> rt_started r \<longrightarrow> rt_goroutines r = []) \<and>
     length (rt_goroutines r) \<le> 1 \<and> (rt_goroutines r \<noteq> [] \<longrightarrow> rt_replication_start r)"

fun close_inv :: "runtime \<Rightarrow> close_pc \<Rightarrow> bool" where
  "close_inv r ClEnter = True"
| "close_inv r ClWatcher = rt_closed r"
| "close_inv r ClLook = (rt_closed r \<and> rt_watcher_done r)"
| "close_inv r ClReplicator = (rt_closed r \<and> rt_watcher_done r)"
| "close_inv r (ClDone first) =
     (rt_closed r \<and> (first \<longrightarrow> rt_watcher_done r \<and> list_all (\<lambda>g. g = RgDone) (rt_goroutines r)))"

fun runtime_inv :: "runtime_system \<Rightarrow> bool" where
  "runtime_inv (ss, cs, r) \<longleftrightarrow> launch_inv ss r \<and> list_all (close_inv r) cs \<and>
     (rt_watcher_done r \<longrightarrow> cl_closed (rt_client r))"

text \<open>What a step may change once the runtime is closed.\<close>

definition settled :: "runtime \<Rightarrow> runtime \<Rightarrow> bool" where
  "settled r r' \<longleftrightarrow>
     (rt_closed r \<longrightarrow> rt_closed r') \<and> (rt_watcher_done r \<longrightarrow> rt_watcher_done r') \<and>
     (cl_closed (rt_client r) \<longrightarrow> cl_closed (rt_client r')) \<and>
     (rt_closed r \<longrightarrow> list_all (\<lambda>g. g = RgDone) (rt_goroutines r) \<longrightarrow> rt_goroutines r' = rt_goroutines r)"

lemma settled_refl [simp]: "settled r r"
  by (simp add: settled_def)

lemma settled_trans: "settled r r' \<Longrightarrow> settled r' r'' \<Longrightarrow> settled r r''"
  by (auto simp: settled_def)

lemma close_inv_settled: "close_inv r pc \<Longrightarrow> settled r r' \<Longrightarrow> close_inv r' pc"
  by (cases pc) (auto simp: settled_def)

lemma client_close_keeps: "cl_closed c \<Longrightarrow> client_close c = c"
  by (simp add: client_close_def)

lemma start_step_settled:
  assumes "start_step (pc, r) (q, r')"
  shows "settled r r' \<and> (rt_watcher_done r' = rt_watcher_done r)"
  using assms
proof cases
  case st_enter
  then show ?thesis by (auto simp: start_enter_def settled_def split: if_splits)
next
  case (st_connect failed e c)
  then show ?thesis by (auto simp: settled_def client_dial_def split: option.splits)
next
  case (st_finish load err)
  then show ?thesis
    by (auto simp: start_finish_def settled_def Let_def split: if_splits sum.splits)
next
  case (st_report err closed)
  then show ?thesis
    by (auto simp: start_report_def settled_def client_close_keeps split: if_splits option.splits)
qed auto

lemma launch_inv_upd:
  assumes "launch_inv ss r" and "i < length ss" and "busy q \<longrightarrow> busy (ss ! i)"
    and "rt_starting r' = rt_starting r" and "rt_started r' = rt_started r" and "rt_goroutines r' = rt_goroutines r"
    and "rt_replication_start r' = rt_replication_start r"
  shows "launch_inv (ss[i := q]) r'"
proof -
  have old: "\<And>j. j < length ss \<Longrightarrow> busy (ss ! j) \<Longrightarrow> rt_starting r"
    "\<And>j k. j < length ss \<Longrightarrow> k < length ss \<Longrightarrow> j \<noteq> k \<Longrightarrow> \<not> (busy (ss ! j) \<and> busy (ss ! k))"
    using assms(1) unfolding launch_inv_def by blast+
  have upd: "busy (ss[i := q] ! j) \<Longrightarrow> busy (ss ! j)" if "j < length ss" for j
    using assms(2,3) that by (cases "j = i") simp_all
  have "\<forall>j < length ss. busy (ss[i := q] ! j) \<longrightarrow> rt_starting r'"
    using upd old(1) assms(4) by blast
  moreover have "\<forall>j < length ss. \<forall>k < length ss. j \<noteq> k \<longrightarrow> \<not> (busy (ss[i := q] ! j) \<and> busy (ss[i := q] ! k))"
    using upd old(2) by blast
  ultimately show ?thesis using assms(1,4-7) unfolding launch_inv_def by simp
qed

lemma start_step_launch:
  assumes step: "start_step (ss ! i, r) (q, r')" and inv: "launch_inv ss r" and i: "i < length ss"
  shows "launch_inv (ss[i := q]) r'"
  using step
proof cases
  case st_enter
  show ?thesis
  proof (cases "rt_closed r \<or> rt_started r \<or> rt_starting r")
    case True
    then have "r' = r" "\<not> busy q" using st_enter by (auto simp: start_enter_def busy_def split: if_splits)
    with st_enter show ?thesis by (intro launch_inv_upd [OF inv i]) simp_all
  next
    case False
    then have idle: "\<forall>j < length ss. \<not> busy (ss ! j)" using inv by (auto simp: launch_inv_def)
    have "q = StConnect" "r' = r\<lparr>rt_starting := True, rt_state := RtStarting, rt_attempt := Suc (rt_attempt r), rt_attempt_done := False\<rparr>"
      using False st_enter by (auto simp: start_enter_def)
    moreover have "\<not> (busy (ss[i := q] ! j) \<and> busy (ss[i := q] ! k))" if "j < length ss" "k < length ss" "j \<noteq> k" for j k
      using idle that by (cases "j = i"; cases "k = i") auto
    ultimately show ?thesis using inv False unfolding launch_inv_def by simp
  qed
next
  case (st_connect failed e c)
  then show ?thesis by (intro launch_inv_upd [OF inv i]) (simp_all add: busy_def)
next
  case (st_finish load err)
  have bi: "busy (ss ! i)" using st_finish by (simp add: busy_def)
  then have idle: "\<forall>j < length ss. j \<noteq> i \<longrightarrow> \<not> busy (ss ! j)" and pre: "\<not> rt_started r" "rt_goroutines r = []"
    using inv i by (auto simp: launch_inv_def)
  have q: "\<not> busy q" and r': "rt_goroutines r' \<noteq> [] \<longrightarrow> rt_started r' \<and> rt_replication_start r'"
    "length (rt_goroutines r') \<le> 1" "\<not> rt_starting r'"
    using st_finish pre by (auto simp: start_finish_def busy_def Let_def split: if_splits sum.splits)
  have "\<not> busy (ss[i := q] ! j)" if "j < length ss" for j
    using idle q that by (cases "j = i") auto
  with r' show ?thesis unfolding launch_inv_def by auto
next
  case (st_report err closed)
  then have "\<not> busy q" "rt_starting r' = rt_starting r" "rt_started r' = rt_started r"
    "rt_goroutines r' = rt_goroutines r" "rt_replication_start r' = rt_replication_start r"
    by (auto simp: start_report_def busy_def split: if_splits option.splits)
  then show ?thesis by (intro launch_inv_upd [OF inv i]) simp_all
next
  case (st_wait_done n)
  then show ?thesis by (intro launch_inv_upd [OF inv i]) (simp_all add: busy_def)
next
  case (st_wait_caller n)
  then show ?thesis by (intro launch_inv_upd [OF inv i]) (simp_all add: busy_def)
qed

lemma launch_inv_cong:
  assumes "launch_inv ss r" and "rt_starting r' = rt_starting r" and "rt_started r' = rt_started r"
    and "length (rt_goroutines r') = length (rt_goroutines r)" and "rt_replication_start r' = rt_replication_start r"
  shows "launch_inv ss r'"
proof -
  have "rt_goroutines r' = [] \<longleftrightarrow> rt_goroutines r = []" using assms(4) by (metis length_0_conv)
  with assms show ?thesis unfolding launch_inv_def by simp
qed

lemma close_step_inv:
  assumes "close_step (pc, r) (q, r')" and "close_inv r pc" and "launch_inv ss r"
  shows "close_inv r' q \<and> settled r r' \<and> launch_inv ss r' \<and> rt_watcher_done r' = rt_watcher_done r \<and>
    rt_client r' = rt_client r"
  using assms(1)
proof cases
  case cl_enter
  moreover have "launch_inv ss r'" by (rule launch_inv_cong [OF assms(3)]) (simp_all add: cl_enter)
  ultimately show ?thesis by (simp add: settled_def)
next
  case cl_look
  have "rt_goroutines r \<noteq> [] \<longrightarrow> rt_replication_start r" using assms(3) unfolding launch_inv_def by blast
  with cl_look assms(2,3) show ?thesis by auto
qed (use assms(2,3) in simp_all)

text \<open>The steps of the goroutines keep their number and the rest of the launch invariant.\<close>

lemma goroutine_step:
  assumes "i < length (rt_goroutines r)" and "rt_goroutines r ! i \<noteq> RgDone" and "launch_inv ss r"
    and "rt_goroutines r' = (rt_goroutines r)[i := g]" and "rt_starting r' = rt_starting r" and "rt_started r' = rt_started r"
    and "rt_replication_start r' = rt_replication_start r" and "rt_closed r' = rt_closed r"
    and "rt_watcher_done r' = rt_watcher_done r" and "rt_client r' = rt_client r"
  shows "settled r r' \<and> launch_inv ss r' \<and> (rt_watcher_done r' \<longrightarrow> rt_watcher_done r \<or> cl_closed (rt_client r'))"
proof -
  have "\<not> list_all (\<lambda>g. g = RgDone) (rt_goroutines r)" using assms(1,2) by (auto simp: list_all_length)
  then have "settled r r'" using assms(8-10) by (simp add: settled_def)
  moreover have "launch_inv ss r'" by (rule launch_inv_cong [OF assms(3)]) (use assms(4-7) in simp_all)
  ultimately show ?thesis using assms(9) by simp
qed

lemma background_step_inv:
  assumes "background_step r r'" and "launch_inv ss r"
  shows "settled r r' \<and> launch_inv ss r' \<and>
    (rt_watcher_done r' \<longrightarrow> rt_watcher_done r \<or> cl_closed (rt_client r'))"
  using assms(1)
proof cases
  case bg_watcher
  moreover have "launch_inv ss r'" by (rule launch_inv_cong [OF assms(2)]) (simp_all add: bg_watcher)
  ultimately show ?thesis by (simp add: settled_def)
next
  case (bg_end i n failed)
  then show ?thesis by (intro goroutine_step [OF _ _ assms(2)]) simp_all
next
  case (bg_look i failed)
  then show ?thesis by (intro goroutine_step [OF _ _ assms(2)]) simp_all
next
  case (bg_report i)
  then show ?thesis by (intro goroutine_step [OF _ _ assms(2)]) simp_all
qed

lemma list_all_update: "list_all P xs \<Longrightarrow> P y \<Longrightarrow> list_all P (xs[i := y])"
  by (auto simp: list_all_iff dest!: set_update_subset_insert [THEN subsetD])

lemma runtime_step_inv:
  assumes "runtime_step st st'" and "runtime_inv st"
  shows "runtime_inv st' \<and> settled (snd (snd st)) (snd (snd st'))"
  using assms(1)
proof cases
  case (rt_start i ss r q r' cs)
  with assms(2) have inv: "launch_inv ss r" "list_all (close_inv r) cs" "rt_watcher_done r \<longrightarrow> cl_closed (rt_client r)" by simp_all
  note st = start_step_settled [OF rt_start(4)]
  have "list_all (close_inv r') cs" using inv(2) st by (auto simp: list_all_iff intro: close_inv_settled)
  moreover have "launch_inv (ss[i := q]) r'" by (rule start_step_launch [OF rt_start(4) inv(1) rt_start(3)])
  moreover have "rt_watcher_done r' \<longrightarrow> cl_closed (rt_client r')" using inv(3) st by (auto simp: settled_def)
  ultimately show ?thesis using st rt_start(1,2) by simp
next
  case (rt_close i cs r q r' ss)
  with assms(2) have inv: "launch_inv ss r" "list_all (close_inv r) cs" "rt_watcher_done r \<longrightarrow> cl_closed (rt_client r)" by simp_all
  have "close_inv r (cs ! i)" using inv(2) rt_close(3) by (simp add: list_all_length)
  note st = close_step_inv [OF rt_close(4) this inv(1)]
  have "list_all (close_inv r') cs" using inv(2) st by (auto simp: list_all_iff intro: close_inv_settled)
  then have "list_all (close_inv r') (cs[i := q])" using st by (intro list_all_update) auto
  with st inv(3) show ?thesis using rt_close(1,2) by simp
next
  case (rt_background r r' ss cs)
  with assms(2) have inv: "launch_inv ss r" "list_all (close_inv r) cs" "rt_watcher_done r \<longrightarrow> cl_closed (rt_client r)" by simp_all
  note st = background_step_inv [OF rt_background(3) inv(1)]
  have "list_all (close_inv r') cs" using inv(2) st by (auto simp: list_all_iff intro: close_inv_settled)
  moreover have "rt_watcher_done r' \<longrightarrow> cl_closed (rt_client r')" using inv(3) st by (auto simp: settled_def)
  ultimately show ?thesis using st rt_background(1,2) by simp
qed

lemma runtime_reach_inv:
  assumes "runtime_step\<^sup>*\<^sup>* st st'" and "runtime_inv st"
  shows "runtime_inv st' \<and> settled (snd (snd st)) (snd (snd st'))"
  using assms(1)
proof (induction rule: rtranclp_induct)
  case base
  with assms(2) show ?case by simp
next
  case (step y z)
  with runtime_step_inv [of y z] show ?case by (auto intro: settled_trans)
qed

lemma new_runtime_inv:
  assumes "new_runtime p = Inr r"
  shows "runtime_inv (replicate n StEnter, replicate m ClEnter, r)"
  using assms
  by (auto simp: new_runtime_def launch_inv_def busy_def list_all_length Let_def split: if_splits sum.splits)

section \<open>Schedules\<close>

text \<open>An executable reading of the step relation, for concrete schedules.\<close>

datatype runtime_event =
    EvStart nat "string option" "pg_error + int"
  | EvClose nat
  | EvWatcher
  | EvEnd nat bool
  | EvLook nat
  | EvReport nat

fun start_exec :: "string option \<Rightarrow> pg_error + int \<Rightarrow> start_pc \<times> runtime \<Rightarrow> (start_pc \<times> runtime) option" where
  "start_exec failed load (StEnter, r) = Some (start_enter r)"
| "start_exec failed load (StWait n, r) = (if rt_attempt r \<noteq> n \<or> rt_attempt_done r then Some (StEnter, r) else None)"
| "start_exec failed load (StConnect, r) =
     (case client_dial failed (rt_client r) of (e, c) \<Rightarrow> Some (StFinish (map_option ErrConnect e), r\<lparr>rt_client := c\<rparr>))"
| "start_exec failed load (StFinish err, r) = Some (start_finish load err r)"
| "start_exec failed load (StReport err closed, r) = Some (start_report err closed r)"
| "start_exec failed load (StDone e, r) = None"

fun close_exec :: "close_pc \<times> runtime \<Rightarrow> (close_pc \<times> runtime) option" where
  "close_exec (ClEnter, r) =
     (if rt_closed r then Some (ClDone False, r)
      else Some (ClWatcher, r\<lparr>rt_closed := True, rt_state := RtClosed, rt_canceled := True\<rparr>))"
| "close_exec (ClWatcher, r) = (if rt_watcher_done r then Some (ClLook, r) else None)"
| "close_exec (ClLook, r) = Some (if rt_replication_start r then ClReplicator else ClDone True, r)"
| "close_exec (ClReplicator, r) =
     (if list_all (\<lambda>g. g = RgDone) (rt_goroutines r) then Some (ClDone True, r) else None)"
| "close_exec (ClDone b, r) = None"

fun runtime_exec :: "runtime_system \<Rightarrow> runtime_event \<Rightarrow> runtime_system option" where
  "runtime_exec (ss, cs, r) (EvStart i failed load) =
     (if i < length ss then map_option (\<lambda>(q, r'). (ss[i := q], cs, r')) (start_exec failed load (ss ! i, r)) else None)"
| "runtime_exec (ss, cs, r) (EvClose i) =
     (if i < length cs then map_option (\<lambda>(q, r'). (ss, cs[i := q], r')) (close_exec (cs ! i, r)) else None)"
| "runtime_exec (ss, cs, r) EvWatcher =
     (if rt_canceled r \<and> \<not> rt_watcher_done r
      then Some (ss, cs, r\<lparr>rt_client := client_close (rt_client r), rt_watcher_done := True\<rparr>) else None)"
| "runtime_exec (ss, cs, r) (EvEnd i failed) =
     (if i < length (rt_goroutines r)
      then (case rt_goroutines r ! i of
              RgRunning n \<Rightarrow> Some (ss, cs, r\<lparr>rt_goroutines := (rt_goroutines r)[i := RgEnded failed]\<rparr>) | _ \<Rightarrow> None)
      else None)"
| "runtime_exec (ss, cs, r) (EvLook i) =
     (if i < length (rt_goroutines r)
      then (case rt_goroutines r ! i of
              RgEnded failed \<Rightarrow>
                Some (ss, cs, r\<lparr>rt_goroutines := (rt_goroutines r)[i := if failed \<and> \<not> rt_closed r then RgReport else RgDone]\<rparr>)
            | _ \<Rightarrow> None)
      else None)"
| "runtime_exec (ss, cs, r) (EvReport i) =
     (if i < length (rt_goroutines r) \<and> rt_goroutines r ! i = RgReport
      then Some (ss, cs, r\<lparr>rt_state := RtFailed, rt_goroutines := (rt_goroutines r)[i := RgDone]\<rparr>) else None)"

fun runtime_schedule :: "runtime_system \<Rightarrow> runtime_event list \<Rightarrow> runtime_system option" where
  "runtime_schedule st [] = Some st"
| "runtime_schedule st (e # es) = (case runtime_exec st e of None \<Rightarrow> None | Some st' \<Rightarrow> runtime_schedule st' es)"

lemma start_exec_step: "start_exec failed load (pc, r) = Some st' \<Longrightarrow> start_step (pc, r) st'"
  by (cases pc) (auto intro: start_step.intros split: if_splits prod.splits)

lemma close_exec_step: "close_exec (pc, r) = Some st' \<Longrightarrow> close_step (pc, r) st'"
  using cl_look [of r] by (cases pc) (auto intro: close_step.intros split: if_splits)

lemma runtime_exec_step: "runtime_exec st e = Some st' \<Longrightarrow> runtime_step st st'"
proof -
  assume a: "runtime_exec st e = Some st'"
  obtain ss cs r where st: "st = (ss, cs, r)" by (metis prod_cases3)
  show ?thesis
  proof (cases e)
    case (EvStart i failed load)
    with a st obtain q r' where "i < length ss" "start_exec failed load (ss ! i, r) = Some (q, r')" "st' = (ss[i := q], cs, r')"
      by (auto split: if_splits)
    then show ?thesis unfolding st by (auto intro!: rt_start start_exec_step)
  next
    case (EvClose i)
    with a st obtain q r' where "i < length cs" "close_exec (cs ! i, r) = Some (q, r')" "st' = (ss, cs[i := q], r')"
      by (auto split: if_splits)
    then show ?thesis unfolding st by (auto intro!: rt_close close_exec_step)
  next
    case (EvLook i)
    with a st obtain failed where g: "i < length (rt_goroutines r)" "rt_goroutines r ! i = RgEnded failed"
      "st' = (ss, cs, r\<lparr>rt_goroutines := (rt_goroutines r)[i := if failed \<and> \<not> rt_closed r then RgReport else RgDone]\<rparr>)"
      by (auto split: if_splits repl_goroutine.splits)
    show ?thesis unfolding st g(3) by (rule rt_background, rule bg_look [OF g(1,2)])
  qed (use a st in \<open>auto intro!: rt_background background_step.intros split: if_splits repl_goroutine.splits\<close>)
qed

lemma runtime_schedule_reach: "runtime_schedule st es = Some st' \<Longrightarrow> runtime_step\<^sup>*\<^sup>* st st'"
proof (induction es arbitrary: st)
  case (Cons e es)
  then show ?case
    by (auto split: option.splits intro: converse_rtranclp_into_rtranclp dest: runtime_exec_step)
qed simp

section \<open>Properties\<close>

text \<open>
  C33. \<open>Close\<close> is a barrier. With any number of concurrent \<open>Start\<close> and \<open>Close\<close> calls, dials that
  succeed or fail, and a replicator that may end at any time: when the call that closed the runtime
  has returned, at most one replicator was ever launched, it has ended, the channel is closed, and
  in no continuation is another replicator ever launched.
\<close>

theorem close_stops_replication:
  assumes "new_runtime p = Inr r0"
    and "runtime_step\<^sup>*\<^sup>* (replicate n StEnter, replicate m ClEnter, r0) (ss, cs, r)" and "ClDone True \<in> set cs"
    and "runtime_step\<^sup>*\<^sup>* (ss, cs, r) (ss', cs', r')"
  shows "length (rt_goroutines r) \<le> 1 \<and> list_all (\<lambda>g. g = RgDone) (rt_goroutines r) \<and> cl_closed (rt_client r) \<and>
    rt_goroutines r' = rt_goroutines r \<and> cl_closed (rt_client r')"
proof -
  note inv = conjunct1 [OF runtime_reach_inv [OF assms(2) new_runtime_inv [OF assms(1)]]]
  have "close_inv r (ClDone True)" using inv assms(3) unfolding runtime_inv.simps list_all_iff by blast
  then have r: "rt_closed r" "rt_watcher_done r" "list_all (\<lambda>g. g = RgDone) (rt_goroutines r)" by simp_all
  have "length (rt_goroutines r) \<le> 1" "cl_closed (rt_client r)"
    using inv r(2) by (simp_all add: launch_inv_def)
  moreover have "settled r r'" using runtime_reach_inv [OF assms(4) inv] by simp
  ultimately show ?thesis using r by (simp add: settled_def)
qed

definition sample_channel :: channel_config where
  "sample_channel = \<lparr>cc_region = ''eu'', cc_peer_region = [], cc_peer_endpoint = ''us:443'', cc_ca_cert = [],
     cc_client_cert = [], cc_client_key = [], cc_server_name = [], cc_enable_tls = False,
     cc_sender = Some (\<lambda>_. None), cc_factory = None\<rparr>"

definition sample_params :: runtime_params where
  "sample_params = \<lparr>pm_logger = True, pm_metrics = True, pm_event_handler = True, pm_promotion_store = True,
     pm_epoch_assigner = True, pm_job_reader = True, pm_job_writer = True, pm_wal_reader = True,
     pm_object_storage = True, pm_manifest_parser = True, pm_validator = True, pm_restorer = True,
     pm_event_encoder = True, pm_progress = True, pm_peer_region = ''us'', pm_channel = sample_channel,
     pm_replicator = sample_rcfg, pm_resume_from = 0\<rparr>"

definition sample_runtime :: "runtime_state \<Rightarrow> bool \<Rightarrow> repl_goroutine list \<Rightarrow> runtime" where
  "sample_runtime st closed gs =
     \<lparr>rt_client = \<lparr>cl_cfg = sample_channel, cl_conn = False, cl_closed = closed, cl_sent = 0, cl_received = 0, cl_last_error = None\<rparr>,
      rt_replicator = Some sample_rcfg, rt_resume_start = 0, rt_region = ''eu'', rt_peer_region = ''us'', rt_progress = True,
      rt_state = st, rt_started = closed, rt_starting = False, rt_closed = closed, rt_attempt = (if closed then 1 else 0),
      rt_attempt_done = True, rt_canceled = closed, rt_watcher_done = closed, rt_replication_start = closed, rt_goroutines = gs\<rparr>"

lemma sample_new_runtime: "new_runtime sample_params = Inr (sample_runtime RtCreated False [])"
  by (simp add: new_runtime_def sample_params_def sample_channel_def sample_runtime_def new_client_def new_replicator_def
      sample_rcfg_def or_default_def)

lemma sample_schedule_close:
  "runtime_step\<^sup>*\<^sup>* (replicate 1 StEnter, replicate 1 ClEnter, sample_runtime RtCreated False [])
     ([StDone None], [ClDone True], sample_runtime RtClosed True [RgDone])"
proof (rule runtime_schedule_reach)
  let ?s = "EvStart 0 None (Inr 7)"
  show "runtime_schedule (replicate 1 StEnter, replicate 1 ClEnter, sample_runtime RtCreated False [])
      [?s, ?s, ?s, ?s, EvClose 0, EvWatcher, EvClose 0, EvClose 0, EvEnd 0 False, EvLook 0, EvClose 0] =
      Some ([StDone None], [ClDone True], sample_runtime RtClosed True [RgDone])"
    by (simp add: sample_runtime_def start_enter_def start_finish_def start_report_def client_dial_def client_close_def)
qed

theorem close_stops_replication_witness:
  "length (rt_goroutines (sample_runtime RtClosed True [RgDone])) \<le> 1 \<and>
   list_all (\<lambda>g. g = RgDone) (rt_goroutines (sample_runtime RtClosed True [RgDone])) \<and>
   cl_closed (rt_client (sample_runtime RtClosed True [RgDone]))"
  using close_stops_replication [OF sample_new_runtime sample_schedule_close _ rtranclp.rtrancl_refl] by simp

text \<open>
  A closed runtime can report that it is ready: \<open>Start\<close> decides under the lock that it has
  succeeded, but writes the visible state after it has released the lock. If \<open>Close\<close> runs to its end
  in between, the runtime is closed for good and \<open>Ready\<close> answers true.
\<close>

lemma ready_after_close:
  "\<exists>ss cs r. runtime_step\<^sup>*\<^sup>* (replicate 1 StEnter, replicate 1 ClEnter, sample_runtime RtCreated False []) (ss, cs, r) \<and>
     new_runtime sample_params = Inr (sample_runtime RtCreated False []) \<and>
     cs = [ClDone True] \<and> rt_closed r \<and> cl_closed (rt_client r) \<and> runtime_ready r"
proof -
  let ?s = "EvStart 0 None (Inr 7)"
  have "runtime_schedule (replicate 1 StEnter, replicate 1 ClEnter, sample_runtime RtCreated False [])
      [?s, ?s, ?s, EvClose 0, EvWatcher, EvClose 0, EvClose 0, EvEnd 0 False, EvLook 0, EvClose 0, ?s] =
      Some ([StDone None], [ClDone True], sample_runtime RtRunning True [RgDone])"
    by (simp add: sample_runtime_def start_enter_def start_finish_def start_report_def client_dial_def client_close_def)
  from runtime_schedule_reach [OF this] sample_new_runtime show ?thesis
    by (fastforce simp: sample_runtime_def runtime_ready_def)
qed

end
