(* ===== verification/Topology.thy ===== *)
theory Topology
  imports Prelude
begin

text \<open>
  The region topology (\<open>replication/topology/config.go\<close>): parsing and validation, the loader with
  its reloads and queries, and what a watcher delivers. The YAML decoder, the Kubernetes client
  and the file system are parameters.
\<close>

section \<open>Configuration\<close>

datatype topology_error =
    ErrRegionNotFound string
  | ErrInvalidConfig
  | ErrNoPrimaryRegion
  | ErrDuplicateRegion string
  | ErrMultiplePrimary
  | ErrInvalidRegion string
  | ErrLoad string
  | PanicNilConfig

datatype region_role = RegionRolePrimary | RegionRoleStandby | RegionRoleOther string

record region =
  rg_name :: string
  rg_role :: region_role
  rg_api_server :: string
  rg_postgres :: string
  rg_bucket :: string
  rg_prefix :: string

record topology_config =
  tc_regions :: "region list"
  tc_lag_threshold :: int

record loader =
  l_client :: bool
  l_namespace :: string
  l_config_map :: string
  l_key :: string
  l_config :: "topology_config option"
  l_version :: int
  l_resource_version :: string

definition role_text :: "region_role \<Rightarrow> string" where
  "role_text r =
     (case r of RegionRolePrimary \<Rightarrow> ''primary'' | RegionRoleStandby \<Rightarrow> ''standby'' | RegionRoleOther s \<Rightarrow> s)"

definition check_region :: "string list \<Rightarrow> region \<Rightarrow> topology_error option" where
  [validation_defs]: "check_region seen r = first_err
     [fail_if (blank (rg_name r) \<or> blank (role_text (rg_role r))) (ErrInvalidRegion ''name and role''),
      fail_if (rg_name r \<in> set seen) (ErrDuplicateRegion (rg_name r)),
      fail_if (rg_role r \<noteq> RegionRolePrimary \<and> rg_role r \<noteq> RegionRoleStandby) (ErrInvalidRegion ''unknown role''),
      fail_if (blank (rg_api_server r) \<or> blank (rg_postgres r) \<or> blank (rg_bucket r) \<or> blank (rg_prefix r))
        (ErrInvalidRegion ''endpoints and object storage'')]"

text \<open>The loop over the regions: the names seen so far and the number of primaries.\<close>

fun check_regions :: "string list \<Rightarrow> nat \<Rightarrow> region list \<Rightarrow> topology_error + nat" where
  "check_regions seen n [] = Inr n"
| "check_regions seen n (r # rs) =
     (case check_region seen r of
        Some e \<Rightarrow> Inl e
      | None \<Rightarrow> check_regions (rg_name r # seen) (if rg_role r = RegionRolePrimary then Suc n else n) rs)"

definition parse_topology ::
  "(string \<Rightarrow> topology_config option) \<Rightarrow> string \<Rightarrow> int \<Rightarrow> topology_error + loader" where
  "parse_topology yaml data version =
     (case yaml data of
        None \<Rightarrow> Inl ErrInvalidConfig
      | Some cfg \<Rightarrow>
          if tc_regions cfg = [] then Inl ErrInvalidConfig
          else case check_regions [] 0 (tc_regions cfg) of
            Inl e \<Rightarrow> Inl e
          | Inr n \<Rightarrow>
              if n = 0 then Inl ErrNoPrimaryRegion
              else if n > 1 then Inl ErrMultiplePrimary
              else if tc_lag_threshold cfg < 0 then Inl ErrInvalidConfig
              else Inr \<lparr>l_client = False, l_namespace = [], l_config_map = [], l_key = [],
                        l_config = Some (if tc_lag_threshold cfg = 0 then cfg\<lparr>tc_lag_threshold := 5\<rparr> else cfg),
                        l_version = version, l_resource_version = []\<rparr>)"

section \<open>The loader\<close>

text \<open>A \<open>ConfigMap\<close> as the API server returns it, and the surroundings of a process.\<close>

record config_map =
  cm_data :: "(string, string) gomap"
  cm_version :: string

type_synonym kube = "string \<Rightarrow> string \<Rightarrow> config_map option"

record surroundings =
  sur_in_cluster :: bool
  sur_client_ok :: bool
  sur_pod_namespace :: string
  sur_topology_file :: string
  sur_files :: "string \<Rightarrow> string option"

datatype loader_option = WithNamespace string | WithConfigMapKey string

text \<open>\<open>versionStringLocked\<close>\<close>

definition version_string :: "loader \<Rightarrow> string" where
  "version_string l =
     (if l_resource_version l \<noteq> [] then l_resource_version l
      else if l_version l = 0 then [] else dec_int (l_version l))"

text \<open>\<open>load\<close>, which \<open>Reload\<close> is; \<open>kube\<close> is the API server at the time of the call.\<close>

definition load ::
  "(string \<Rightarrow> topology_config option) \<Rightarrow> kube \<Rightarrow> loader \<Rightarrow> topology_error option \<times> loader" where
  [effect_defs]: "load yaml kube l =
     (if \<not> l_client l then (None, l)
      else case kube (l_namespace l) (l_config_map l) of
        None \<Rightarrow> (Some (ErrLoad ''get ConfigMap''), l)
      | Some cm \<Rightarrow>
         (case gget (cm_data cm) (l_key l) of
            None \<Rightarrow> (Some (ErrLoad ''key not found''), l)
          | Some data \<Rightarrow>
              if cm_version cm = version_string l then (None, l)
              else case parse_topology yaml data 0 of
                Inl e \<Rightarrow> (Some e, l)
              | Inr p \<Rightarrow>
                  (None, l\<lparr>l_config := l_config p, l_version := l_version p,
                           l_resource_version := cm_version cm\<rparr>)))"

definition apply_option :: "loader \<Rightarrow> loader_option \<Rightarrow> loader" where
  "apply_option l opt =
     (case opt of WithNamespace ns \<Rightarrow> l\<lparr>l_namespace := ns\<rparr> | WithConfigMapKey k \<Rightarrow> l\<lparr>l_key := k\<rparr>)"

definition initial_loader ::
  "surroundings \<Rightarrow> string \<Rightarrow> string \<Rightarrow> string \<Rightarrow> loader_option list \<Rightarrow> loader" where
  "initial_loader sur cm ns key opts =
     foldl apply_option
       \<lparr>l_client = sur_in_cluster sur,
        l_namespace = (if ns \<noteq> [] then ns
                       else if sur_pod_namespace sur \<noteq> [] then sur_pod_namespace sur else ''astrasync''),
        l_config_map = cm, l_key = (if key = [] then ''regions.yaml'' else key),
        l_config = None, l_version = 0, l_resource_version = []\<rparr> opts"

definition new_loader ::
  "(string \<Rightarrow> topology_config option) \<Rightarrow> surroundings \<Rightarrow> kube \<Rightarrow> string \<Rightarrow> string \<Rightarrow> string \<Rightarrow>
     loader_option list \<Rightarrow> topology_error + loader" where
  "new_loader yaml sur kube cm ns key opts =
     (let l = initial_loader sur cm ns key opts in
      if sur_in_cluster sur then
        (if \<not> sur_client_ok sur then Inl (ErrLoad ''create Kubernetes client'')
         else case load yaml kube l of (Some e, _) \<Rightarrow> Inl e | (None, l') \<Rightarrow> Inr l')
      else
        let path = (if trim_space (sur_topology_file sur) = [] then cm else trim_space (sur_topology_file sur)) in
        if path = [] then Inl ErrInvalidConfig
        else case sur_files sur path of
          None \<Rightarrow> Inl (ErrLoad ''load topology file'')
        | Some data \<Rightarrow>
           (case parse_topology yaml data 1 of
              Inl e \<Rightarrow> Inl e
            | Inr p \<Rightarrow> Inr (l\<lparr>l_config := l_config p, l_version := l_version p,
                              l_resource_version := l_resource_version p\<rparr>)))"

definition new_file_loader ::
  "(string \<Rightarrow> topology_config option) \<Rightarrow> (string \<Rightarrow> string option) \<Rightarrow> string \<Rightarrow> topology_error + loader" where
  "new_file_loader yaml files path =
     (case files path of None \<Rightarrow> Inl (ErrLoad ''read topology file'') | Some data \<Rightarrow> parse_topology yaml data 1)"

section \<open>Queries\<close>

definition get_region :: "loader \<Rightarrow> string \<Rightarrow> topology_error + region" where
  "get_region l n =
     (case l_config l of
        None \<Rightarrow> Inl ErrInvalidConfig
      | Some cfg \<Rightarrow>
         (case find (\<lambda>r. rg_name r = n) (tc_regions cfg) of
            None \<Rightarrow> Inl (ErrRegionNotFound n) | Some r \<Rightarrow> Inr r))"

definition get_primary_region :: "loader \<Rightarrow> topology_error + region" where
  "get_primary_region l =
     (case l_config l of
        None \<Rightarrow> Inl ErrInvalidConfig
      | Some cfg \<Rightarrow>
         (case find (\<lambda>r. rg_role r = RegionRolePrimary) (tc_regions cfg) of
            None \<Rightarrow> Inl ErrNoPrimaryRegion | Some r \<Rightarrow> Inr r))"

text \<open>The other queries dereference the configuration without a check.\<close>

definition with_config :: "loader \<Rightarrow> (topology_config \<Rightarrow> 'a) \<Rightarrow> topology_error + 'a" where
  "with_config l f = (case l_config l of None \<Rightarrow> Inl PanicNilConfig | Some cfg \<Rightarrow> Inr (f cfg))"

definition get_standby_regions :: "loader \<Rightarrow> topology_error + region list" where
  "get_standby_regions l = with_config l (\<lambda>cfg. filter (\<lambda>r. rg_role r = RegionRoleStandby) (tc_regions cfg))"

definition get_all_regions :: "loader \<Rightarrow> topology_error + region list" where
  "get_all_regions l = with_config l tc_regions"

definition get_config :: "loader \<Rightarrow> topology_error + topology_config" where
  "get_config l = with_config l (\<lambda>cfg. \<lparr>tc_regions = tc_regions cfg, tc_lag_threshold = tc_lag_threshold cfg\<rparr>)"

definition replication_lag_threshold :: "loader \<Rightarrow> topology_error + int" where
  "replication_lag_threshold l = with_config l tc_lag_threshold"

definition get_region_names :: "loader \<Rightarrow> topology_error + string list" where
  "get_region_names l = with_config l (\<lambda>cfg. map rg_name (tc_regions cfg))"

definition is_primary :: "loader \<Rightarrow> string \<Rightarrow> topology_error + bool" where
  "is_primary l n =
     with_config l (\<lambda>cfg. list_ex (\<lambda>r. rg_name r = n \<and> rg_role r = RegionRolePrimary) (tc_regions cfg))"

definition is_standby :: "loader \<Rightarrow> string \<Rightarrow> topology_error + bool" where
  "is_standby l n =
     with_config l (\<lambda>cfg. list_ex (\<lambda>r. rg_name r = n \<and> rg_role r = RegionRoleStandby) (tc_regions cfg))"

section \<open>The watcher\<close>

text \<open>
  The loop of \<open>run\<close>, one API server per tick until the context ends: the first configuration, then
  one after every reload that succeeds. The result also has the loader at the end.
\<close>

fun watch_ticks ::
  "(string \<Rightarrow> topology_config option) \<Rightarrow> loader \<Rightarrow> kube list \<Rightarrow> (topology_error + topology_config) list \<times> loader" where
  "watch_ticks yaml l [] = ([], l)"
| "watch_ticks yaml l (k # ks) =
     (case load yaml k l of
        (Some _, l') \<Rightarrow> watch_ticks yaml l' ks
      | (None, l') \<Rightarrow> (case watch_ticks yaml l' ks of (out, l'') \<Rightarrow> (get_config l' # out, l'')))"

definition watcher_run ::
  "(string \<Rightarrow> topology_config option) \<Rightarrow> loader \<Rightarrow> kube list \<Rightarrow> (topology_error + topology_config) list \<times> loader" where
  "watcher_run yaml l ks = (case watch_ticks yaml l ks of (out, l') \<Rightarrow> (get_config l # out, l'))"

section \<open>Invariant\<close>

definition topology_ok :: "topology_config \<Rightarrow> bool" where
  "topology_ok cfg \<longleftrightarrow>
     distinct (map rg_name (tc_regions cfg)) \<and>
     list_all (\<lambda>r. rg_role r = RegionRolePrimary \<or> rg_role r = RegionRoleStandby) (tc_regions cfg) \<and>
     length (filter (\<lambda>r. rg_role r = RegionRolePrimary) (tc_regions cfg)) = 1 \<and>
     0 < tc_lag_threshold cfg"

definition loader_ok :: "loader \<Rightarrow> bool" where
  "loader_ok l \<longleftrightarrow> (\<exists>cfg. l_config l = Some cfg \<and> topology_ok cfg)"

lemma check_region_ok:
  "check_region seen r = None \<Longrightarrow>
     rg_name r \<notin> set seen \<and> (rg_role r = RegionRolePrimary \<or> rg_role r = RegionRoleStandby)"
  by (auto simp: check_region_def fail_if_def split: if_splits)

lemma check_regions_ok:
  "check_regions seen n rs = Inr k \<Longrightarrow>
     distinct (map rg_name rs) \<and> set (map rg_name rs) \<inter> set seen = {} \<and>
     list_all (\<lambda>r. rg_role r = RegionRolePrimary \<or> rg_role r = RegionRoleStandby) rs \<and>
     k = n + length (filter (\<lambda>r. rg_role r = RegionRolePrimary) rs)"
proof (induction rs arbitrary: seen n)
  case (Cons r rs)
  from Cons.prems have ok: "check_region seen r = None"
    and rest: "check_regions (rg_name r # seen) (if rg_role r = RegionRolePrimary then Suc n else n) rs = Inr k"
    by (auto split: option.splits)
  show ?case using Cons.IH [OF rest] check_region_ok [OF ok] by auto
qed simp

lemma parse_topology_ok:
  assumes "parse_topology yaml data v = Inr l"
  shows "loader_ok l"
proof -
  from assms obtain cfg n where *: "yaml data = Some cfg" "check_regions [] 0 (tc_regions cfg) = Inr n" "n = 1"
    "0 \<le> tc_lag_threshold cfg"
    "l_config l = Some (if tc_lag_threshold cfg = 0 then cfg\<lparr>tc_lag_threshold := 5\<rparr> else cfg)"
    by (auto simp: parse_topology_def split: option.splits if_splits sum.splits)
  with check_regions_ok [OF *(2)] show ?thesis by (auto simp: loader_ok_def topology_ok_def)
qed

text \<open>A failed reload keeps the loader, and a successful one installs a valid configuration.\<close>

lemma load_cases:
  obtains (same) e where "load yaml kube l = (e, l)"
  | (fresh) cm data p where "l_client l" "kube (l_namespace l) (l_config_map l) = Some cm"
      "parse_topology yaml data 0 = Inr p"
      "load yaml kube l = (None, l\<lparr>l_config := l_config p, l_version := l_version p,
                                   l_resource_version := cm_version cm\<rparr>)"
proof (cases "\<exists>e. load yaml kube l = (e, l)")
  case False
  then obtain cm data where *: "l_client l" "kube (l_namespace l) (l_config_map l) = Some cm"
    "gget (cm_data cm) (l_key l) = Some data" "cm_version cm \<noteq> version_string l"
    by (auto simp: load_def split: if_splits option.splits)
  with False obtain p where "parse_topology yaml data 0 = Inr p"
    by (auto simp: load_def split: sum.splits)
  with * fresh show ?thesis by (auto simp: load_def)
qed (use same in blast)

lemma load_ok: "loader_ok l \<Longrightarrow> load yaml kube l = (e, l') \<Longrightarrow> loader_ok l'"
  by (cases rule: load_cases [of yaml kube l]) (auto dest: parse_topology_ok simp: loader_ok_def)

lemma load_first_ok:
  assumes "load yaml kube l = (None, l')" and "l_client l" and "version_string l = []"
    and versions: "\<And>ns nm cm. kube ns nm = Some cm \<Longrightarrow> cm_version cm \<noteq> []"
  shows "loader_ok l'"
proof -
  from assms(1,2) obtain cm data where *: "kube (l_namespace l) (l_config_map l) = Some cm"
    "gget (cm_data cm) (l_key l) = Some data"
    by (auto simp: load_def split: option.splits)
  with versions assms(3) have "cm_version cm \<noteq> version_string l" by metis
  with * assms(1,2) obtain p where "parse_topology yaml data 0 = Inr p" "l_config l' = l_config p"
    by (auto simp: load_def split: sum.splits)
  with parse_topology_ok show ?thesis by (auto simp: loader_ok_def)
qed

lemma initial_loader_fresh:
  "l_client (initial_loader sur cm ns key opts) = sur_in_cluster sur \<and>
   version_string (initial_loader sur cm ns key opts) = []"
proof -
  have "l_client (foldl apply_option l opts) = l_client l \<and>
        version_string (foldl apply_option l opts) = version_string l" for l
    by (induction opts arbitrary: l)
      (auto simp: apply_option_def version_string_def split: loader_option.splits)
  then show ?thesis by (simp add: initial_loader_def version_string_def)
qed

lemma new_loader_ok:
  assumes "new_loader yaml sur kube cm ns key opts = Inr l"
    and versions: "\<And>ns nm cm. kube ns nm = Some cm \<Longrightarrow> cm_version cm \<noteq> []"
  shows "loader_ok l"
proof (cases "sur_in_cluster sur")
  case True
  with assms(1) have "load yaml kube (initial_loader sur cm ns key opts) = (None, l)"
    by (auto simp: new_loader_def Let_def split: if_splits prod.splits option.splits)
  then show ?thesis using initial_loader_fresh True versions by (metis load_first_ok)
next
  case False
  with assms(1) obtain data p where "parse_topology yaml data 1 = Inr p" "l_config l = l_config p"
    by (auto simp: new_loader_def Let_def split: if_splits option.splits sum.splits)
  then show ?thesis using parse_topology_ok by (auto simp: loader_ok_def)
qed

lemma get_config_ok: "loader_ok l \<Longrightarrow> \<exists>cfg. get_config l = Inr cfg \<and> topology_ok cfg"
  by (auto simp: loader_ok_def get_config_def with_config_def topology_ok_def)

lemma watch_ticks_ok:
  "loader_ok l \<Longrightarrow> watch_ticks yaml l ks = (out, l') \<Longrightarrow>
     loader_ok l' \<and> list_all (\<lambda>c. \<exists>cfg. c = Inr cfg \<and> topology_ok cfg) out"
proof (induction ks arbitrary: l out)
  case (Cons k ks)
  obtain e l1 where l1: "load yaml k l = (e, l1)" by fastforce
  have ok: "loader_ok l1" by (rule load_ok [OF Cons.prems(1) l1])
  show ?case
    using Cons.prems(2) Cons.IH [OF ok] get_config_ok [OF ok]
    by (cases "watch_ticks yaml l1 ks") (auto simp: l1 split: option.splits)
qed simp

lemma single_filter:
  "length (filter P xs) = 1 \<Longrightarrow> \<exists>x. find P xs = Some x \<and> x \<in> set xs \<and> P x \<and> (\<forall>y \<in> set xs. P y \<longrightarrow> y = x)"
proof (induction xs)
  case (Cons a xs)
  then show ?case by (cases "P a") (auto simp: filter_empty_conv)
qed simp

text \<open>The contract the queries give the promotion manager.\<close>

definition one_primary :: "loader \<Rightarrow> bool" where
  "one_primary l \<longleftrightarrow>
     (\<exists>p names. get_primary_region l = Inr p \<and> get_region l (rg_name p) = Inr p \<and>
        get_region_names l = Inr names \<and> rg_name p \<in> set names \<and>
        (\<forall>n. is_primary l n = Inr (n = rg_name p)) \<and>
        (\<forall>n. is_standby l n = Inr (n \<in> set names \<and> n \<noteq> rg_name p)))"

lemma find_by_name:
  "distinct (map f xs) \<Longrightarrow> x \<in> set xs \<Longrightarrow> find (\<lambda>y. f y = f x) xs = Some x"
proof (induction xs)
  case (Cons a xs)
  then show ?case by (cases "x = a") (auto intro: rev_image_eqI)
qed simp

lemma loader_ok_one_primary:
  assumes "loader_ok l"
  shows "one_primary l"
proof -
  from assms obtain cfg where cfg: "l_config l = Some cfg" and ok: "topology_ok cfg"
    by (auto simp: loader_ok_def)
  let ?rs = "tc_regions cfg"
  from ok have "length (filter (\<lambda>r. rg_role r = RegionRolePrimary) ?rs) = 1" by (simp add: topology_ok_def)
  from single_filter [OF this] obtain p where p: "find (\<lambda>r. rg_role r = RegionRolePrimary) ?rs = Some p" "p \<in> set ?rs"
    "rg_role p = RegionRolePrimary" "\<forall>r \<in> set ?rs. rg_role r = RegionRolePrimary \<longrightarrow> r = p"
    by blast
  from ok have names: "inj_on rg_name (set ?rs)" and roles: "\<forall>r \<in> set ?rs. rg_role r = RegionRolePrimary \<or> rg_role r = RegionRoleStandby"
    and dist: "distinct (map rg_name ?rs)"
    by (simp_all add: topology_ok_def distinct_map list_all_iff)
  have "find (\<lambda>r. rg_name r = rg_name p) ?rs = Some p" using dist p(2) by (rule find_by_name)
  moreover have "list_ex (\<lambda>r. rg_name r = n \<and> rg_role r = RegionRolePrimary) ?rs \<longleftrightarrow> n = rg_name p" for n
    using p(2-4) unfolding list_ex_iff by blast
  moreover have "list_ex (\<lambda>r. rg_name r = n \<and> rg_role r = RegionRoleStandby) ?rs \<longleftrightarrow>
      n \<in> set (map rg_name ?rs) \<and> n \<noteq> rg_name p" for n
  proof
    assume "list_ex (\<lambda>r. rg_name r = n \<and> rg_role r = RegionRoleStandby) ?rs"
    then obtain r where r: "r \<in> set ?rs" "rg_name r = n" "rg_role r = RegionRoleStandby" by (auto simp: list_ex_iff)
    with p(3) have "r \<noteq> p" by auto
    with names r p(2) show "n \<in> set (map rg_name ?rs) \<and> n \<noteq> rg_name p" by (auto dest: inj_onD)
  next
    assume "n \<in> set (map rg_name ?rs) \<and> n \<noteq> rg_name p"
    then obtain r where "r \<in> set ?rs" "rg_name r = n" "r \<noteq> p" by auto
    with p(4) roles show "list_ex (\<lambda>r. rg_name r = n \<and> rg_role r = RegionRoleStandby) ?rs"
      by (auto simp: list_ex_iff)
  qed
  ultimately show ?thesis
    using p(1,2) by (simp add: one_primary_def get_primary_region_def get_region_def get_region_names_def
        is_primary_def is_standby_def with_config_def cfg)
qed

section \<open>Properties\<close>

text \<open>
  C32. However the topology was loaded, after any number of watcher ticks, with API servers that
  fail, return invalid documents or change the document: there is exactly one primary region, the
  queries agree on it, every other region is a standby, and every configuration the watcher
  delivered is valid. The API server's resource versions are not empty.
\<close>

theorem topology_one_primary:
  assumes "new_loader yaml sur kube0 cm ns key opts = Inr l0"
    and "\<And>k ns nm m. k \<in> set (kube0 # ks) \<Longrightarrow> k ns nm = Some m \<Longrightarrow> cm_version m \<noteq> []"
    and "watcher_run yaml l0 ks = (delivered, l)"
  shows "one_primary l \<and> list_all (\<lambda>c. \<exists>cfg. c = Inr cfg \<and> topology_ok cfg) delivered"
proof -
  have ok0: "loader_ok l0" by (rule new_loader_ok [OF assms(1)]) (use assms(2) in auto)
  from assms(3) obtain out where out: "watch_ticks yaml l0 ks = (out, l)" "delivered = get_config l0 # out"
    by (auto simp: watcher_run_def split: prod.splits)
  show ?thesis
    using watch_ticks_ok [OF ok0 out(1)] get_config_ok [OF ok0] by (simp add: out(2) loader_ok_one_primary)
qed

definition sample_region :: "string \<Rightarrow> region_role \<Rightarrow> region" where
  "sample_region n r = \<lparr>rg_name = n, rg_role = r, rg_api_server = ''api'', rg_postgres = ''pg'',
     rg_bucket = ''b'', rg_prefix = ''p''\<rparr>"

text \<open>A stand-in for the decoder: the document is the name of the primary.\<close>

definition sample_yaml :: "string \<Rightarrow> topology_config option" where
  "sample_yaml s =
     (if s = [] then None
      else Some \<lparr>tc_regions = [sample_region ''a'' (if s = ''a'' then RegionRolePrimary else RegionRoleStandby),
                               sample_region ''b'' (if s = ''b'' then RegionRolePrimary else RegionRoleStandby)],
                 tc_lag_threshold = 0\<rparr>)"

definition sample_kube :: "string \<Rightarrow> string \<Rightarrow> kube" where
  "sample_kube doc v = (\<lambda>ns nm. Some \<lparr>cm_data = [(''regions.yaml'', doc)], cm_version = v\<rparr>)"

definition sample_surroundings :: surroundings where
  "sample_surroundings = \<lparr>sur_in_cluster = True, sur_client_ok = True, sur_pod_namespace = [],
     sur_topology_file = [], sur_files = (\<lambda>_. None)\<rparr>"

definition sample_loader :: "string \<Rightarrow> string \<Rightarrow> loader" where
  "sample_loader doc v = \<lparr>l_client = True, l_namespace = ''astrasync'', l_config_map = ''regions'',
     l_key = ''regions.yaml'', l_config = map_option (\<lambda>c. c\<lparr>tc_lag_threshold := 5\<rparr>) (sample_yaml doc),
     l_version = 0, l_resource_version = v\<rparr>"

theorem topology_one_primary_witness:
  "one_primary (sample_loader ''b'' ''9'') \<and> is_primary (sample_loader ''b'' ''9'') ''b'' = Inr True"
proof -
  have "one_primary (sample_loader ''b'' ''9'') \<and>
      list_all (\<lambda>c. \<exists>cfg. c = Inr cfg \<and> topology_ok cfg)
        (fst (watcher_run sample_yaml (sample_loader ''a'' ''7'') [sample_kube [] ''8'', sample_kube ''b'' ''9'']))"
  proof (rule topology_one_primary)
    show "new_loader sample_yaml sample_surroundings (sample_kube ''a'' ''7'') ''regions'' [] [] [] =
        Inr (sample_loader ''a'' ''7'')"
      by code_simp
    show "cm_version m \<noteq> []"
      if "k \<in> set [sample_kube ''a'' ''7'', sample_kube [] ''8'', sample_kube ''b'' ''9'']" "k ns nm = Some m"
      for k ns nm m
      using that by (auto simp: sample_kube_def)
    show "watcher_run sample_yaml (sample_loader ''a'' ''7'') [sample_kube [] ''8'', sample_kube ''b'' ''9''] =
        (fst (watcher_run sample_yaml (sample_loader ''a'' ''7'') [sample_kube [] ''8'', sample_kube ''b'' ''9'']),
         sample_loader ''b'' ''9'')"
      by code_simp
  qed
  moreover have "is_primary (sample_loader ''b'' ''9'') ''b'' = Inr True" by code_simp
  ultimately show ?thesis by blast
qed

end
