(* ===== verification/Capability.thy ===== *)
theory Capability
  imports Prelude
begin

text \<open>
  The revalidation of a sink's delivery guarantee before a promotion
  (\<open>replication/capability/revalidator.go\<close>). The connection catalog and the negotiator are
  parameters, the negotiator's answer and the state of the context depending on the attempt.
\<close>

section \<open>Data\<close>

text \<open>A named integer type, with three constants; a negotiator may return any other integer.\<close>

datatype capability = Capability int

fun capability_rank :: "capability \<Rightarrow> int" where
  "capability_rank (Capability n) = n"

definition CapabilityExactlyOnce :: capability where
  "CapabilityExactlyOnce = Capability 0"

definition CapabilityAtLeastOnce :: capability where
  "CapabilityAtLeastOnce = Capability 1"

definition CapabilityAtMostOnce :: capability where
  "CapabilityAtMostOnce = Capability 2"

instantiation capability :: linorder
begin

definition less_eq_capability :: "capability \<Rightarrow> capability \<Rightarrow> bool" where
  "less_eq_capability a b \<longleftrightarrow> capability_rank a \<le> capability_rank b"

definition less_capability :: "capability \<Rightarrow> capability \<Rightarrow> bool" where
  "less_capability a b \<longleftrightarrow> capability_rank a < capability_rank b"

instance
proof
  fix a b :: capability
  assume "a \<le> b" and "b \<le> a"
  then show "a = b" by (cases a; cases b) (simp_all add: less_eq_capability_def)
qed (auto simp: less_eq_capability_def less_capability_def)

end

lemmas capability_defs = CapabilityExactlyOnce_def CapabilityAtLeastOnce_def CapabilityAtMostOnce_def less_eq_capability_def

record connection_info =
  ci_job_id :: string
  ci_endpoint :: string
  ci_database :: string
  ci_table :: string
  ci_required :: "capability option"

record reval_config =
  rc_timeout :: duration
  rc_probe_timeout :: duration
  rc_max_retries :: int
  rc_retry_backoff :: duration

record reval_counters =
  rm_total :: int
  rm_success :: int
  rm_failure :: int
  rm_total_duration :: duration

text \<open>The negotiator, with the optional probe; and what one call of the revalidator meets.\<close>

record negotiator =
  ng_probe :: "(string \<Rightarrow> string option) option"
  ng_negotiate :: "nat \<Rightarrow> string \<Rightarrow> string + capability"

record reval_env =
  re_catalog :: "(string \<Rightarrow> string + connection_info option) option"
  re_negotiator :: "negotiator option"
  re_auditor :: bool
  re_canceled :: "nat \<Rightarrow> bool"
  re_elapsed :: duration

datatype reval_error =
    ErrCapabilityNegotiationFailed
  | ErrSinkUnreachable
  | ErrGetConnection string
  | ErrNegotiate string
  | ErrContextDone
  | ErrRetriesExhausted int "string option"

datatype reval_event =
    RevalidationStarted string
  | CapabilityConfirmed string capability duration
  | CapabilityRejected string string
  | PromotionAborted string string

section \<open>Revalidation\<close>

definition abort :: "reval_env \<Rightarrow> string \<Rightarrow> string \<Rightarrow> reval_event list" where
  "abort env job reason =
     (if re_auditor env then [CapabilityRejected job reason, PromotionAborted job reason] else [])"

datatype negotiation = Confirmed capability | Canceled | Exhausted "string option"

text \<open>
  The retry loop: \<open>left\<close> attempts remain, the next one is \<open>attempt\<close>, and \<open>lst\<close> is \<open>lastErr\<close>.
\<close>

fun negotiate_loop ::
  "(nat \<Rightarrow> bool) \<Rightarrow> (nat \<Rightarrow> string + capability) \<Rightarrow> capability option \<Rightarrow> nat \<Rightarrow> nat \<Rightarrow> string option \<Rightarrow> negotiation" where
  "negotiate_loop canceled negotiate required 0 attempt lst = Exhausted lst"
| "negotiate_loop canceled negotiate required (Suc left) attempt lst =
     (if attempt > 0 \<and> canceled attempt then Canceled
      else case negotiate attempt of
        Inl e \<Rightarrow> negotiate_loop canceled negotiate required left (Suc attempt) (Some e)
      | Inr c \<Rightarrow>
          if opt_all (\<lambda>q. c \<le> q) required then Confirmed c
          else negotiate_loop canceled negotiate required left (Suc attempt) (Some ''insufficient''))"

definition revalidate_with_requirement ::
  "reval_config \<Rightarrow> reval_env \<Rightarrow> reval_counters \<Rightarrow> string \<Rightarrow> capability option \<Rightarrow>
     reval_error option \<times> reval_event list \<times> reval_counters" where
  [effect_defs]: "revalidate_with_requirement cfg env m0 job explicit =
     (let m = m0\<lparr>rm_total := wrap64 (rm_total m0 + 1), rm_total_duration := wrap64 (rm_total_duration m0 + re_elapsed env)\<rparr>;
          failed = m\<lparr>rm_failure := wrap64 (rm_failure m + 1)\<rparr>;
          log = (if re_auditor env then [RevalidationStarted job] else [])
      in case (re_catalog env, re_negotiator env) of
        (Some catalog, Some ng) \<Rightarrow>
          (case catalog job of
             Inl e \<Rightarrow> (Some (ErrGetConnection e), log @ abort env job (''get connection: '' @ e), m)
           | Inr None \<Rightarrow> (Some ErrSinkUnreachable, log @ abort env job ''capability: sink is not reachable'', failed)
           | Inr (Some ci) \<Rightarrow>
               if ci_endpoint ci = []
               then (Some ErrSinkUnreachable, log @ abort env job ''capability: sink is not reachable'', failed)
               else case (case ng_probe ng of None \<Rightarrow> None | Some probe \<Rightarrow> probe (ci_endpoint ci)) of
                 Some e \<Rightarrow> (Some ErrSinkUnreachable, log @ abort env job (''probe failed: '' @ e), failed)
               | None \<Rightarrow>
                  (case negotiate_loop (re_canceled env) (\<lambda>k. ng_negotiate ng k (ci_endpoint ci))
                          (case explicit of None \<Rightarrow> ci_required ci | Some q \<Rightarrow> Some q)
                          (nat (rc_max_retries cfg + 1)) 0 None of
                     Confirmed c \<Rightarrow>
                       (None, log @ (if re_auditor env then [CapabilityConfirmed job c (re_elapsed env)] else []),
                        m\<lparr>rm_success := wrap64 (rm_success m + 1)\<rparr>)
                   | Canceled \<Rightarrow> (Some ErrContextDone, log @ abort env job ''context cancelled during retry'', m)
                   | Exhausted e \<Rightarrow>
                       (Some (ErrRetriesExhausted (rc_max_retries cfg) e),
                        log @ abort env job ''all retries exhausted'', failed)))
      | _ \<Rightarrow> (Some ErrCapabilityNegotiationFailed, log, failed))"

definition revalidate ::
  "reval_config \<Rightarrow> reval_env \<Rightarrow> reval_counters \<Rightarrow> string \<Rightarrow> reval_error option \<times> reval_event list \<times> reval_counters" where
  "revalidate cfg env m job = revalidate_with_requirement cfg env m job None"

definition revalidate_for ::
  "reval_config \<Rightarrow> reval_env \<Rightarrow> reval_counters \<Rightarrow> string \<Rightarrow> capability \<Rightarrow>
     reval_error option \<times> reval_event list \<times> reval_counters" where
  "revalidate_for cfg env m job required = revalidate_with_requirement cfg env m job (Some required)"

record reval_result =
  rr_reachable :: bool
  rr_capability :: capability
  rr_error :: string
  rr_duration :: duration
  rr_required :: "capability option"

definition empty_result :: reval_result where
  "empty_result = \<lparr>rr_reachable = False, rr_capability = CapabilityExactlyOnce, rr_error = [], rr_duration = 0,
     rr_required = None\<rparr>"

definition get_revalidation_result :: "reval_env \<Rightarrow> string \<Rightarrow> reval_result \<times> reval_error option" where
  "get_revalidation_result env job =
     (let failed = (\<lambda>msg. empty_result\<lparr>rr_error := msg, rr_duration := re_elapsed env\<rparr>) in
      case (re_catalog env, re_negotiator env) of
        (Some catalog, Some ng) \<Rightarrow>
          (case catalog job of
             Inl e \<Rightarrow> (failed (''get connection: '' @ e), Some (ErrGetConnection e))
           | Inr None \<Rightarrow> (failed ''capability: sink is not reachable'', Some ErrSinkUnreachable)
           | Inr (Some ci) \<Rightarrow>
               if ci_endpoint ci = [] then (failed ''capability: sink is not reachable'', Some ErrSinkUnreachable)
               else case ng_negotiate ng 0 (ci_endpoint ci) of
                 Inl e \<Rightarrow> (failed (''negotiate: '' @ e), Some (ErrNegotiate e))
               | Inr c \<Rightarrow>
                   (let r = \<lparr>rr_reachable = True, rr_capability = c, rr_error = [], rr_duration = re_elapsed env,
                             rr_required = ci_required ci\<rparr>
                    in if opt_all (\<lambda>q. c \<le> q) (ci_required ci) then (r, None)
                       else (r\<lparr>rr_error := ''negotiated capability does not satisfy required''\<rparr>,
                             Some ErrCapabilityNegotiationFailed)))
      | _ \<Rightarrow> (empty_result, Some ErrCapabilityNegotiationFailed))"

section \<open>Lemmas\<close>

definition adequate :: "capability option \<Rightarrow> string + capability \<Rightarrow> bool" where
  "adequate required a = (case a of Inl _ \<Rightarrow> False | Inr c \<Rightarrow> opt_all (\<lambda>q. c \<le> q) required)"

text \<open>The loop confirms the first adequate answer, unless the context ends before it.\<close>

lemma negotiate_loop_confirmed:
  "negotiate_loop canceled negotiate required left a lst = Confirmed c \<longleftrightarrow>
     (\<exists>k. a \<le> k \<and> k < a + left \<and> negotiate k = Inr c \<and> adequate required (negotiate k) \<and>
        (\<forall>j. a \<le> j \<and> j < k \<longrightarrow> \<not> adequate required (negotiate j)) \<and>
        (\<forall>j. a \<le> j \<and> j \<le> k \<and> 0 < j \<longrightarrow> \<not> canceled j))"
  (is "_ \<longleftrightarrow> ?P a left")
proof (induction left arbitrary: a lst)
  case (Suc left)
  have later: "?P a (Suc left) \<longleftrightarrow> ?P (Suc a) left" if "\<not> adequate required (negotiate a)" "\<not> (0 < a \<and> canceled a)"
  proof
    assume "?P a (Suc left)"
    then obtain k where k: "a \<le> k" "k < a + Suc left" "negotiate k = Inr c" "adequate required (negotiate k)"
      "\<forall>j. a \<le> j \<and> j < k \<longrightarrow> \<not> adequate required (negotiate j)" "\<forall>j. a \<le> j \<and> j \<le> k \<and> 0 < j \<longrightarrow> \<not> canceled j"
      by blast
    with that(1) have "k \<noteq> a" by auto
    with k show "?P (Suc a) left" by (intro exI [of _ k]) auto
  next
    assume "?P (Suc a) left"
    then obtain k where "Suc a \<le> k" "k < Suc a + left" "negotiate k = Inr c" "adequate required (negotiate k)"
      "\<forall>j. Suc a \<le> j \<and> j < k \<longrightarrow> \<not> adequate required (negotiate j)"
      "\<forall>j. Suc a \<le> j \<and> j \<le> k \<and> 0 < j \<longrightarrow> \<not> canceled j"
      by blast
    with that show "?P a (Suc left)"
      by (intro exI [of _ k]) (auto simp: Suc_le_eq dest: le_imp_less_or_eq)
  qed
  show ?case
  proof (cases "0 < a \<and> canceled a")
    case True
    then show ?thesis by auto
  next
    case open_ctx: False
    show ?thesis
    proof (cases "adequate required (negotiate a)")
      case True
      then obtain d where d: "negotiate a = Inr d" "opt_all (\<lambda>q. d \<le> q) required"
        by (auto simp: adequate_def split: sum.splits)
      have "?P a (Suc left) \<longleftrightarrow> c = d"
      proof
        assume "?P a (Suc left)"
        with True d(1) show "c = d" by (metis Inr_inject le_neq_implies_less order_refl)
      next
        assume "c = d"
        with True d open_ctx show "?P a (Suc left)" by (intro exI [of _ a]) auto
      qed
      with d open_ctx show ?thesis by auto
    next
      case False
      then have "negotiate_loop canceled negotiate required (Suc left) a lst =
          negotiate_loop canceled negotiate required left (Suc a)
            (case negotiate a of Inl e \<Rightarrow> Some e | Inr _ \<Rightarrow> Some ''insufficient'')"
        using open_ctx by (auto simp: adequate_def split: sum.splits)
      with Suc.IH later [OF False open_ctx] show ?thesis by presburger
    qed
  qed
qed simp

section \<open>Properties\<close>

text \<open>
  C34. A promotion is let through exactly when the sink is known and reachable and one of the first
  \<open>MaxRetries + 1\<close> negotiations, the context still being alive, yields a capability that satisfies
  the requirement, which is the caller's or else the connection's own. The confirmed capability is
  the first adequate one; weaker guarantees are never accepted.
\<close>

theorem revalidation_succeeds_iff:
  "fst (revalidate_with_requirement cfg env m job explicit) = None \<longleftrightarrow>
     (\<exists>catalog ng ci k. re_catalog env = Some catalog \<and> re_negotiator env = Some ng \<and>
        catalog job = Inr (Some ci) \<and> ci_endpoint ci \<noteq> [] \<and>
        opt_all (\<lambda>probe. probe (ci_endpoint ci) = None) (ng_probe ng) \<and> int k \<le> rc_max_retries cfg \<and>
        adequate (if explicit = None then ci_required ci else explicit) (ng_negotiate ng k (ci_endpoint ci)) \<and>
        (\<forall>j < k. \<not> adequate (if explicit = None then ci_required ci else explicit) (ng_negotiate ng j (ci_endpoint ci))) \<and>
        (\<forall>j \<in> {1..k}. \<not> re_canceled env j))"
proof (cases "\<exists>catalog ng ci. re_catalog env = Some catalog \<and> re_negotiator env = Some ng \<and>
    catalog job = Inr (Some ci) \<and> ci_endpoint ci \<noteq> [] \<and> opt_all (\<lambda>probe. probe (ci_endpoint ci) = None) (ng_probe ng)")
  case True
  then obtain catalog ng ci where e: "re_catalog env = Some catalog" "re_negotiator env = Some ng"
    "catalog job = Inr (Some ci)" "ci_endpoint ci \<noteq> []" "opt_all (\<lambda>probe. probe (ci_endpoint ci) = None) (ng_probe ng)"
    by blast
  define required where "required = (if explicit = None then ci_required ci else explicit)"
  have req: "(case explicit of None \<Rightarrow> ci_required ci | Some q \<Rightarrow> Some q) = required"
    by (simp add: required_def split: option.split)
  have probe: "(case ng_probe ng of None \<Rightarrow> None | Some probe \<Rightarrow> probe (ci_endpoint ci)) = None"
    using e(5) by (cases "ng_probe ng") simp_all
  let ?run = "negotiate_loop (re_canceled env) (\<lambda>k. ng_negotiate ng k (ci_endpoint ci)) required (nat (rc_max_retries cfg + 1)) 0 None"
  have "fst (revalidate_with_requirement cfg env m job explicit) = None \<longleftrightarrow> (\<exists>c. ?run = Confirmed c)"
    using e(1-4) by (simp add: revalidate_with_requirement_def Let_def req probe split: negotiation.split)
  also have "\<dots> \<longleftrightarrow> (\<exists>k. int k \<le> rc_max_retries cfg \<and> adequate required (ng_negotiate ng k (ci_endpoint ci)) \<and>
      (\<forall>j < k. \<not> adequate required (ng_negotiate ng j (ci_endpoint ci))) \<and> (\<forall>j \<in> {1..k}. \<not> re_canceled env j))"
  proof -
    have lt: "k < nat (rc_max_retries cfg + 1) \<longleftrightarrow> int k \<le> rc_max_retries cfg" for k by linarith
    have ex: "adequate required a \<Longrightarrow> \<exists>c. a = Inr c" for a by (cases a) (simp_all add: adequate_def)
    have rng: "(\<forall>j \<in> {1..k}. \<not> re_canceled env j) \<longleftrightarrow> (\<forall>j. 0 \<le> j \<and> j \<le> k \<and> 0 < j \<longrightarrow> \<not> re_canceled env j)" for k
      by (auto simp: Suc_le_eq)
    show ?thesis unfolding negotiate_loop_confirmed add_0 lt rng using ex by (meson zero_le)
  qed
  finally show ?thesis using e unfolding required_def by (auto simp del: split_paired_Ex)
next
  case False
  then have "fst (revalidate_with_requirement cfg env m job explicit) \<noteq> None"
    by (auto simp: revalidate_with_requirement_def Let_def split: option.splits sum.splits)
  with False show ?thesis by blast
qed

definition sample_connection :: connection_info where
  "sample_connection = \<lparr>ci_job_id = ''job'', ci_endpoint = ''sink:9030'', ci_database = ''d'', ci_table = ''t'',
     ci_required = Some CapabilityAtLeastOnce\<rparr>"

definition sample_negotiator :: negotiator where
  "sample_negotiator = \<lparr>ng_probe = Some (\<lambda>_. None),
     ng_negotiate = (\<lambda>k _. if k = 0 then Inl ''timeout'' else if k = 1 then Inr CapabilityAtMostOnce
                            else Inr CapabilityExactlyOnce)\<rparr>"

definition sample_reval_env :: reval_env where
  "sample_reval_env =
     \<lparr>re_catalog = Some (\<lambda>job. Inr (Some sample_connection)), re_negotiator = Some sample_negotiator,
      re_auditor = True, re_canceled = (\<lambda>_. False), re_elapsed = 4\<rparr>"

definition sample_reval_config :: reval_config where
  "sample_reval_config = \<lparr>rc_timeout = 60, rc_probe_timeout = 5, rc_max_retries = 3, rc_retry_backoff = 2\<rparr>"

theorem revalidation_succeeds_iff_witness:
  "fst (revalidate_with_requirement sample_reval_config sample_reval_env
     \<lparr>rm_total = 0, rm_success = 0, rm_failure = 0, rm_total_duration = 0\<rparr> ''job'' None) = None"
proof -
  have "\<not> adequate (Some CapabilityAtLeastOnce) (ng_negotiate sample_negotiator j x)" if "j < 2" for j x
    using less_2_cases [OF that] by (auto simp: sample_negotiator_def adequate_def capability_defs)
  moreover have "adequate (Some CapabilityAtLeastOnce) (ng_negotiate sample_negotiator 2 x)" for x
    by (simp add: sample_negotiator_def adequate_def capability_defs)
  ultimately show ?thesis
    unfolding revalidation_succeeds_iff
    by (intro exI [of _ "\<lambda>job. Inr (Some sample_connection)"] exI [of _ sample_negotiator]
        exI [of _ sample_connection] exI [of _ 2])
      (simp add: sample_reval_env_def sample_reval_config_def sample_connection_def sample_negotiator_def)
qed

end
