(* ===== verification/Spec2Isabelle.thy ===== *)
theory Spec2Isabelle
  imports AuthInterceptor Scheduler ConnectionTest Publisher ReplicationService Runtime Topology Capability
begin

text \<open>
  A verification development for the control plane of AstraSync (\<open>src/control-plane/\<close>, in Go), the
  service that keeps data-synchronisation jobs and the connections they use, schedules the jobs'
  execution, replicates their checkpoints between regions, and decides who may do so.

  \<^bold>\<open>The program and its parts.\<close> Clients call the API server, whose interceptor authenticates and
  authorizes every unary request. Jobs and connections live in repositories. A scheduler claims
  dispatches of jobs under leases and drives each job through its life cycle; an executor claims
  connection tests and dials databases through an egress guard. Completed checkpoints are published
  to a log in an object store; a replicator sends the log to the peer region, where the API server
  admits each checkpoint once. A promotion gives a job a new epoch, which fences the old writer,
  and recovers the job from the log.

  \<^bold>\<open>Conventions.\<close> A struct is a record, a tagged string a datatype or a string, a Go map an association
  list (\<open>gget\<close>, \<open>gput\<close>, \<open>gdel\<close>), \<open>int64\<close> an \<open>int\<close> with the wrap-around written out where it matters, an
  instant the nanoseconds since Go's zero time, an error a value of a sum or an option. A method that
  holds a lock or runs one transaction throughout is one step; other methods are program counters,
  or take as an argument what other processes do between their statements. Third-party code
  (\<open>uuid.Parse\<close>, decoders of YAML and JSON, Kubernetes, database drivers, the validation of tokens),
  clocks and failures of the environment are arguments, and what a theorem needs of them is a
  hypothesis.

  \<^bold>\<open>Theories.\<close>
  \<^item> \<open>Prelude\<close>: machine integers, strings and patterns, maps, shared lemmas.
  \<^item> \<open>Sha256\<close>, \<open>Netip\<close>: SHA-256 and \<open>net/netip\<close>, as far as the sources use them; the text of an address
    block parses back to it.
  \<^item> \<open>JobModel\<close>, \<open>JobRepository\<close>: \<open>job/model.go\<close>, \<open>job/lifecycle.go\<close>, \<open>job/memory/repository.go\<close>. Jobs
    stay valid exactly under proper calls, terminal states are final within an epoch, updates are not
    lost, epochs do not decrease, pages have every job of a namespace once. The interface \<open>job.Repository\<close> is the locale \<open>job_store\<close>.
  \<^item> \<open>Dispatch\<close>, \<open>Scheduler\<close>: \<open>scheduler/internal/dispatch\<close> with its SQL store, and
    \<open>scheduler/internal/scheduler/scheduler.go\<close>. Leases exclude other schedulers, the number of
    dispatches is bounded, a dispatch is completed only when its job has ended.
  \<^item> \<open>Connection\<close>, \<open>ConnectionRepository\<close>, \<open>ConnectionInvariants\<close>: \<open>connection/model.go\<close>,
    \<open>connection/test_policy.go\<close>, \<open>connection/repository.go\<close>, \<open>connection/memory/repository.go\<close>. What is
    stored is valid, the limits of tests hold, a repeated mutation is replayed.
  \<^item> \<open>ConnectionTest\<close>: \<open>scheduler/internal/connectiontest\<close>. No test dials an address outside its policy,
    and every claimed test is finished.
  \<^item> \<open>WalCodec\<close>, \<open>ObjectStore\<close>, \<open>WalLog\<close>: \<open>replication/wal/wal.go\<close> and
    \<open>replication/objectstore/filesystem.go\<close>. The encoding is inverted and detects a changed byte, the log
    is read back in order unless an entry is too short for the decoder, a restart does not overwrite. The interface \<open>wal.ObjectStorage\<close> is the locale
    \<open>object_storage\<close>.
  \<^item> \<open>ReplicationStore\<close>, \<open>Promotion\<close>, \<open>Publisher\<close>: \<open>replication/adapters/{postgres,progress,admission}.go\<close>,
    \<open>replication/promotion\<close>, \<open>replication/checkpoint\<close>. Epochs are unique over all interleavings, a
    promotion that runs alone completes, rival ones may all complete, checkpoints are admitted once.
  \<^item> \<open>Recovery\<close>, \<open>Replicator\<close>, \<open>Channel\<close>, \<open>Runtime\<close>: \<open>replication/recovery\<close>,
    \<open>replication/adapters/adapters.go\<close>, \<open>replication/runtime\<close>, \<open>replication/channel\<close>. Only checked manifests
    are restored, the two readers of the log agree, entries are sent in order and without failures all
    of them are, closing stops the replication.
  \<^item> \<open>ReplicationService\<close>: \<open>api-server/internal/replication\<close>, pushes and streams in any interleaving: what is
    acknowledged is admitted, and a stream that ends can bring a push down.
  \<^item> \<open>Topology\<close>, \<open>Capability\<close>: \<open>replication/topology/config.go\<close>, \<open>replication/capability/revalidator.go\<close>.
  \<^item> \<open>Auth\<close>, \<open>AuthRepository\<close>, \<open>AuthInterceptor\<close>: \<open>auth/*.go\<close>, \<open>auth/postgres/repository.go\<close>,
    \<open>api-server/internal/authn\<close>. A tenant request reaches its handler only if it is authorized at the
    moment of the check, while roles change concurrently; platform methods are for platform
    administrators, and so are two methods that the documents give to everyone; the check of the
    policies at start-up is exact for unary methods and knows no streams. What the authorizer relies on is the locale \<open>authz_store\<close>: a grant holds for as long
    as the revision of its tenant.
  \<^item> This theory: the publication of a checkpoint against a promotion, across the log and the database.

  \<^bold>\<open>Bounds and fuel.\<close> No loop is cut short by fuel of the model. Bounded retries have the bound of the
  code as an argument of a structural recursion (the attempts of a transition in \<open>Scheduler\<close>, of a
  negotiation in \<open>Capability\<close>). Loops that run until an error are step functions, and that they arrive is
  proved as a number of steps (\<open>Promotion\<close>, \<open>Replicator\<close>). Limits of the code (tests, dispatches, page and
  queue sizes) are definitions.

  \<^bold>\<open>Where the code falls short.\<close> Some theorems show a failure: any number of promotions with one expected
  version can complete; the end of a stream can make a push panic; a log entry with short strings is
  appended durably and does not decode; streams have no policy; the methods for one's own identity and
  tenants are refused to everyone but platform administrators; a tenant with a UUID of another version
  than 1 to 5 locks out its administrator and those of the platform. The calls of a job's lifecycle do
  not check their clock, their failure report and the room of the counters.

  \<^bold>\<open>Simplifications.\<close> The claim of a dispatch is one step although its transaction runs under read
  committed. A send of the replicator that returns an error counts as not made. The object store does
  not change during one recovery.

  \<^bold>\<open>Not modelled.\<close> The validation of OIDC tokens and the console sessions (cryptography and HTTP; a token's
  identity is a parameter). The PostgreSQL repositories of jobs and connections, the connector
  catalog, and the handlers of \<open>api-server/internal/service\<close>, which translate messages for the
  repositories. The Kubernetes dispatcher, the materialization of jobs and the SyncJob controller,
  whose steps are calls of a cluster. Start-up code, metrics, generated code, the Java data plane, the
  console and the deployment files. Memory is not modelled beyond the aliasing of promotions, and times
  are not rounded as PostgreSQL rounds them.
\<close>

section \<open>Publishing and promotion\<close>

text \<open>
  C3. A promotion fences the old writer. Once a promotion of a job has completed with a new epoch, in
  any interleaving with other promotions, no checkpoint of a smaller epoch whose publication reads
  the job's epoch at any later point enters the log: \<open>Publish\<close> returns an error and leaves the
  writer and its store as they were.
\<close>

theorem publish_fenced_after_promotion:
  assumes "(system_step cfg cs)\<^sup>*\<^sup>* (system_start cs db) (pcs, w)" and "i < length cs"
    and "gget (wd_heap w) i = Some p" and "p_state p = StateFailoverComplete"
    and "(system_step cfg cs)\<^sup>*\<^sup>* (pcs, w) (pcs', w')"
    and "cr_job_id r = p_job_id p" and "cr_epoch r < p_new_epoch p"
  shows "\<exists>e. publish put canceled fails (wd_db w') wr s r now = (Inl e, wr, s)"
proof (rule publish_fenced)
  note inv = conjunct1 [OF system_reach_inv [OF assms(1) system_start_inv]]
  have "local_inv (call_job (cs ! i)) (epoch_of (wd_db w) (call_job (cs ! i))) (Some p) (pcs ! i)"
    using inv assms(2,3) by auto
  then have "p_new_epoch p \<le> epoch_of (wd_db w) (p_job_id p)"
    using assms(4) by (auto simp: local_inv_def granted_def less_eq_promotion_state_def)
  also have "\<dots> \<le> epoch_of (wd_db w') (p_job_id p)" using system_reach_inv [OF assms(5) inv] by simp
  finally show "cr_epoch r \<noteq> epoch_of (wd_db w') (cr_job_id r)" using assms(6,7) by simp
qed

definition sample_record :: checkpoint_record where
  "sample_record = \<lparr>cr_job_id = ''job'', cr_epoch = 1, cr_checkpoint_uri = ''c/1'', cr_completed_at = 3\<rparr>"

theorem publish_fenced_after_promotion_witness:
  "\<exists>e. publish fs_put False False (wd_db sample_world) sample_writer sample_store sample_record 9 =
     (Inl e, sample_writer, sample_store)"
proof -
  let ?p = "sample_promoted ''key-1111-1111-1111'' 2"
  have "gget (wd_heap sample_world) 1 = Some ?p" "p_state ?p = StateFailoverComplete" "p_job_id ?p = ''job''"
    "p_new_epoch ?p = 2" "length sample_calls = 2"
    by (simp_all add: sample_world_def sample_promoted_def sample_calls_def)
  then show ?thesis
    using publish_fenced_after_promotion [OF sample_reach, of 1 ?p _ sample_world sample_record,
        OF _ _ _ rtranclp.rtrancl_refl]
    by (simp add: sample_record_def)
qed

end
